(* ===== verification/Telemetry_Prelude.thy ===== *)
theory Telemetry_Prelude
  imports Main "HOL-Library.Sublist" "HOL-Library.AList"
begin

text \<open>
  What every component of the development shares: the error values and the result type
  that stand for Go's \<open>(value, error)\<close> returns, the theorem collections, and lemmas on
  sums, lists and maps that the component proofs use.

  A Go error is kept with the text the code gives it: \<open>Err m\<close> is \<open>fmt.Errorf\<close> (or a
  library error) with message \<open>m\<close>, \<open>Wrap m e\<close> is a message that ends in \<open>%w\<close> or
  \<open>%v\<close> of the error \<open>e\<close>, and \<open>NumError k\<close> is what \<open>strconv.ParseUint\<close> returns.
\<close>

named_theorems go_defs \<open>definitions of small helpers that proofs unfold together\<close>
named_theorems wf_intros \<open>introduction rules for well-formedness invariants\<close>

section \<open>Errors and results\<close>

datatype num_error = ErrSyntax | ErrRange

datatype go_error =
    Err string
  | Wrap string go_error
  | NumError num_error

type_synonym 'a result = "go_error + 'a"

abbreviation is_ok :: "'a result \<Rightarrow> bool" where
  "is_ok r \<equiv> \<not> isl r"

definition bind_result :: "'a result \<Rightarrow> ('a \<Rightarrow> 'b result) \<Rightarrow> 'b result" where
  "bind_result r f = (case r of Inl e \<Rightarrow> Inl e | Inr x \<Rightarrow> f x)"

lemma bind_result_simps [simp]:
  "bind_result (Inl e) f = Inl e"
  "bind_result (Inr x) f = f x"
  by (simp_all add: bind_result_def)

lemma bind_result_eq_Inr:
  "bind_result r f = Inr y \<longleftrightarrow> (\<exists>x. r = Inr x \<and> f x = Inr y)"
  by (cases r) auto

text \<open>
  \<open>fold_result f xs s\<close> is the Go loop \<open>for _, x := range xs\<close> whose body may return an
  error: the first error ends it.
\<close>

fun fold_result :: "('x \<Rightarrow> 's \<Rightarrow> 's result) \<Rightarrow> 'x list \<Rightarrow> 's \<Rightarrow> 's result" where
  "fold_result f [] s = Inr s"
| "fold_result f (x # xs) s = bind_result (f x s) (fold_result f xs)"

lemma fold_result_append:
  "fold_result f (xs @ ys) s = bind_result (fold_result f xs s) (fold_result f ys)"
proof (induction xs arbitrary: s)
  case (Cons x xs)
  then show ?case by (cases "f x s") simp_all
qed simp

lemma fold_result_invariant:
  "fold_result f xs s = Inr t \<Longrightarrow> P s \<Longrightarrow> (\<And>x s t. P s \<Longrightarrow> f x s = Inr t \<Longrightarrow> P t) \<Longrightarrow> P t"
proof (induction xs arbitrary: s)
  case (Cons x xs)
  from Cons.prems(1) obtain u where "f x s = Inr u" and "fold_result f xs u = Inr t"
    by (auto simp: bind_result_eq_Inr)
  with Cons show ?case by blast
qed simp

section \<open>Traces of calls on the environment\<close>

text \<open>
  A set-up function calls the operating system or a library, one call after the other, and
  returns early at the first error. It is modelled with the list of the calls it makes: a
  \<open>traced\<close> value is that list and the function's result.
\<close>

type_synonym ('o, 'a) traced = "'o list \<times> 'a result"

definition call :: "'o \<Rightarrow> 'a result \<Rightarrow> ('o, 'a) traced" where
  "call op r = ([op], r)"

definition return :: "'a \<Rightarrow> ('o, 'a) traced" where
  "return x = ([], Inr x)"

definition bind_traced :: "('o, 'a) traced \<Rightarrow> ('a \<Rightarrow> ('o, 'b) traced) \<Rightarrow> ('o, 'b) traced" where
  "bind_traced m f =
     (case m of (tr, Inl e) \<Rightarrow> (tr, Inl e)
              | (tr, Inr x) \<Rightarrow> (case f x of (tr', r) \<Rightarrow> (tr @ tr', r)))"

definition err_or_unit :: "go_error option \<Rightarrow> unit result" where
  "err_or_unit e = (case e of None \<Rightarrow> Inr () | Some err \<Rightarrow> Inl err)"

lemma bind_traced_simps [simp]:
  "bind_traced (call op (Inl e)) f = ([op], Inl e)"
  "bind_traced (call op (Inr x)) f = (op # fst (f x), snd (f x))"
  "bind_traced (return x) f = f x"
  "bind_traced (tr, Inl e) f = (tr, Inl e)"
  "bind_traced (tr, Inr x) f = (tr @ fst (f x), snd (f x))"
  by (simp_all add: bind_traced_def call_def return_def split: prod.splits)

lemma traced_simps [simp]:
  "fst (call op r) = [op]" "snd (call op r) = r"
  "fst (return x) = []" "snd (return x) = Inr x"
  "err_or_unit None = Inr ()" "err_or_unit (Some e) = Inl e"
  by (simp_all add: call_def return_def err_or_unit_def)

section \<open>Maps built by assignments\<close>

text \<open>
  A Go map is an association list without duplicate keys. A map literal, or a loop of
  assignments \<open>m[k] = v\<close>, stores its entries in order, so a later entry with the same key
  overwrites an earlier one.
\<close>

definition go_map :: "('k \<times> 'v) list \<Rightarrow> ('k \<times> 'v) list" where
  "go_map kvs = fold (\<lambda>(k, v). AList.update k v) kvs []"

lemma map_of_fold_update:
  "map_of (fold (\<lambda>(k, v). AList.update k v) kvs al) = map_of al ++ map_of (rev kvs)"
proof (induction kvs arbitrary: al)
  case (Cons kv kvs)
  then show ?case
    by (cases kv) (auto simp: update_conv map_add_def fun_eq_iff split: option.splits)
qed simp

lemma map_of_go_map: "map_of (go_map kvs) = map_of (rev kvs)"
  by (simp add: go_map_def map_of_fold_update)

lemma distinct_fold_update:
  "distinct (map fst al) \<Longrightarrow> distinct (map fst (fold (\<lambda>(k, v). AList.update k v) kvs al))"
  by (induction kvs arbitrary: al) (auto simp: distinct_update)

lemma distinct_go_map [simp]: "distinct (map fst (go_map kvs))"
  by (simp add: go_map_def distinct_fold_update)

lemma update_fresh: "k \<notin> fst ` set al \<Longrightarrow> AList.update k v al = al @ [(k, v)]"
  by (induction al) auto

lemma fold_update_distinct:
  "distinct (map fst (al @ kvs)) \<Longrightarrow> fold (\<lambda>(k, v). AList.update k v) kvs al = al @ kvs"
proof (induction kvs arbitrary: al)
  case (Cons kv kvs)
  then show ?case by (cases kv) (simp add: update_fresh)
qed simp

lemma go_map_distinct: "distinct (map fst kvs) \<Longrightarrow> go_map kvs = kvs"
  using fold_update_distinct [of "[]" kvs] by (simp add: go_map_def)

lemma set_go_map: "set (go_map kvs) \<subseteq> set kvs"
proof
  fix kv assume "kv \<in> set (go_map kvs)"
  then have "map_of (go_map kvs) (fst kv) = Some (snd kv)"
    by (intro map_of_is_SomeI) simp_all
  then have "(fst kv, snd kv) \<in> set (rev kvs)" unfolding map_of_go_map by (rule map_of_SomeD)
  then show "kv \<in> set kvs" by simp
qed

end
