(* ===== verification/Go_Strings.thy ===== *)
theory Go_Strings
  imports Telemetry_Prelude
begin

text \<open>
  The functions of Go's \<open>strings\<close>, \<open>strconv\<close> and \<open>fmt\<close> packages that the program calls.
  A Go string is a byte sequence; HOL's \<open>string\<close> is a list of 8-bit characters, so it is the
  same thing. \<open>trim_space\<close> and the letter-case functions follow Go on UTF-8 text too:
  \<open>trim_space\<close> knows the encodings of every Unicode white-space character, and \<open>to_lower\<close>
  those of the two non-ASCII letters whose lower case is an ASCII letter (every other
  non-ASCII letter has a non-ASCII lower case, and the program compares lower-cased strings
  with ASCII literals only, so their bytes are left as they are).
\<close>

section \<open>strings.HasPrefix, strings.Trim\<close>

definition has_prefix :: "string \<Rightarrow> string \<Rightarrow> bool" where
  "has_prefix s p \<longleftrightarrow> take (length p) s = p"

definition trim_chars :: "(char \<Rightarrow> bool) \<Rightarrow> string \<Rightarrow> string" where
  "trim_chars P s = rev (dropWhile P (rev (dropWhile P s)))"

lemma has_prefix_prefix: "has_prefix s p \<longleftrightarrow> prefix p s"
  by (auto simp: has_prefix_def prefix_def) (metis append_take_drop_id)

lemma has_prefix_append [simp]: "has_prefix (p @ s) p"
  by (simp add: has_prefix_def)

lemma set_trim_chars: "set (trim_chars P s) \<subseteq> set s"
  unfolding trim_chars_def by (metis set_dropWhileD set_rev subsetI)

lemma trim_chars_id:
  assumes "s \<noteq> [] \<Longrightarrow> \<not> P (hd s)" and "s \<noteq> [] \<Longrightarrow> \<not> P (last s)"
  shows "trim_chars P s = s"
proof -
  have "dropWhile P s = s"
    using assms(1) by (auto simp: dropWhile_eq_self_iff)
  moreover have "dropWhile P (rev s) = rev s"
    using assms(2) by (auto simp: dropWhile_eq_self_iff hd_rev)
  ultimately show ?thesis by (simp add: trim_chars_def)
qed

lemma hd_trim_chars: "trim_chars P s \<noteq> [] \<Longrightarrow> \<not> P (hd (trim_chars P s))"
proof -
  assume ne: "trim_chars P s \<noteq> []"
  let ?t = "dropWhile P s"
  obtain zs where "?t = trim_chars P s @ zs"
    unfolding trim_chars_def by (metis rev_append rev_rev_ident takeWhile_dropWhile_id)
  with ne have "hd ?t = hd (trim_chars P s)" and "?t \<noteq> []" by auto
  then show ?thesis by (metis hd_dropWhile)
qed

lemma last_trim_chars: "trim_chars P s \<noteq> [] \<Longrightarrow> \<not> P (last (trim_chars P s))"
  unfolding trim_chars_def by (metis hd_dropWhile last_rev rev_is_Nil_conv)

lemma trim_chars_idem: "trim_chars P (trim_chars P s) = trim_chars P s"
  by (rule trim_chars_id) (auto dest: hd_trim_chars last_trim_chars)

section \<open>strings.TrimSpace\<close>

text \<open>The UTF-8 encodings of the characters for which \<open>unicode.IsSpace\<close> holds.\<close>

definition space_seqs :: "string list" where
  "space_seqs =
   [[CHR 0x09], [CHR 0x0A], [CHR 0x0B], [CHR 0x0C], [CHR 0x0D], [CHR 0x20],
    [CHR 0xC2, CHR 0x85], [CHR 0xC2, CHR 0xA0], [CHR 0xE1, CHR 0x9A, CHR 0x80],
    [CHR 0xE2, CHR 0x80, CHR 0x80], [CHR 0xE2, CHR 0x80, CHR 0x81],
    [CHR 0xE2, CHR 0x80, CHR 0x82], [CHR 0xE2, CHR 0x80, CHR 0x83],
    [CHR 0xE2, CHR 0x80, CHR 0x84], [CHR 0xE2, CHR 0x80, CHR 0x85],
    [CHR 0xE2, CHR 0x80, CHR 0x86], [CHR 0xE2, CHR 0x80, CHR 0x87],
    [CHR 0xE2, CHR 0x80, CHR 0x88], [CHR 0xE2, CHR 0x80, CHR 0x89],
    [CHR 0xE2, CHR 0x80, CHR 0x8A], [CHR 0xE2, CHR 0x80, CHR 0xA8],
    [CHR 0xE2, CHR 0x80, CHR 0xA9], [CHR 0xE2, CHR 0x80, CHR 0xAF],
    [CHR 0xE2, CHR 0x81, CHR 0x9F], [CHR 0xE3, CHR 0x80, CHR 0x80]]"

function drop_seqs :: "string list \<Rightarrow> string \<Rightarrow> string" where
  "drop_seqs qs s =
     (case find (\<lambda>q. q \<noteq> [] \<and> has_prefix s q) qs of
        None \<Rightarrow> s
      | Some q \<Rightarrow> drop_seqs qs (drop (length q) s))"
  by pat_completeness auto
termination
  by (relation "measure (\<lambda>(qs, s). length s)")
     (auto simp: find_Some_iff has_prefix_prefix prefix_def neq_Nil_conv)

declare drop_seqs.simps [simp del]

definition trim_space :: "string \<Rightarrow> string" where
  "trim_space s = rev (drop_seqs (map rev space_seqs) (rev (drop_seqs space_seqs s)))"

lemma drop_seqs_suffix: "suffix (drop_seqs qs s) s"
proof (induction qs s rule: drop_seqs.induct)
  case (1 qs s)
  then show ?case
    by (subst drop_seqs.simps)
       (auto split: option.split intro: suffix_order.trans suffix_drop)
qed

lemma drop_seqs_stops:
  "q \<in> set qs \<Longrightarrow> q \<noteq> [] \<Longrightarrow> \<not> has_prefix (drop_seqs qs s) q"
proof (induction qs s rule: drop_seqs.induct)
  case (1 qs s)
  show ?case
  proof (cases "find (\<lambda>q. q \<noteq> [] \<and> has_prefix s q) qs")
    case None
    then have "drop_seqs qs s = s" by (simp add: drop_seqs.simps [of qs s])
    with None "1.prems" show ?thesis by (auto simp: find_None_iff)
  next
    case (Some p)
    with "1.IH" "1.prems" show ?thesis by (subst drop_seqs.simps) simp
  qed
qed

lemma drop_seqs_id:
  "(\<And>q. q \<in> set qs \<Longrightarrow> q \<noteq> [] \<Longrightarrow> \<not> has_prefix s q) \<Longrightarrow> drop_seqs qs s = s"
  by (subst drop_seqs.simps) (auto split: option.split simp: find_Some_iff)

text \<open>The result has no white space at either end, and trimming is idempotent.\<close>

lemma trim_space_prefix_of: "prefix (trim_space s) (drop_seqs space_seqs s)"
  unfolding trim_space_def by (metis drop_seqs_suffix rev_rev_ident suffix_to_prefix)

lemma trim_space_no_leading: "q \<in> set space_seqs \<Longrightarrow> q \<noteq> [] \<Longrightarrow> \<not> prefix q (trim_space s)"
  using drop_seqs_stops trim_space_prefix_of has_prefix_prefix
  by (metis prefix_order.trans)

lemma trim_space_no_trailing:
  "q \<in> set space_seqs \<Longrightarrow> q \<noteq> [] \<Longrightarrow> \<not> suffix q (trim_space s)"
  unfolding trim_space_def suffix_to_prefix
  using drop_seqs_stops [of "rev q" "map rev space_seqs"]
  by (auto simp: has_prefix_prefix)

lemma trim_space_id:
  assumes "\<And>q. q \<in> set space_seqs \<Longrightarrow> \<not> prefix q s \<and> \<not> suffix q s"
  shows "trim_space s = s"
proof -
  have "drop_seqs space_seqs s = s"
    using assms by (intro drop_seqs_id) (simp add: has_prefix_prefix)
  moreover have "drop_seqs (map rev space_seqs) (rev s) = rev s"
    using assms by (intro drop_seqs_id) (auto simp: has_prefix_prefix suffix_to_prefix)
  ultimately show ?thesis by (simp add: trim_space_def)
qed

lemma space_seqs_nonempty: "[] \<notin> set space_seqs"
  by (simp add: space_seqs_def)

lemma trim_space_idem: "trim_space (trim_space s) = trim_space s"
  by (rule trim_space_id)
     (metis space_seqs_nonempty trim_space_no_leading trim_space_no_trailing)

lemma trim_space_Nil [simp]: "trim_space [] = []"
  by (rule trim_space_id) (use space_seqs_nonempty in auto)

text \<open>White space around a string that has none at its ends.\<close>

lemma trim_chars_surround:
  assumes "list_all P xs" "list_all P ys" "s \<noteq> []" "\<not> P (hd s)" "\<not> P (last s)"
  shows "trim_chars P (xs @ s @ ys) = s"
proof -
  have l: "dropWhile P (xs @ s @ ys) = s @ ys"
    using assms by (cases s) (auto simp: list_all_iff dropWhile_append)
  have "dropWhile P (rev ys @ rev s) = rev s"
    using assms by (cases s rule: rev_cases) (auto simp: list_all_iff dropWhile_append)
  then show ?thesis by (simp add: trim_chars_def l)
qed

text \<open>A string that starts and ends with a visible ASCII character is its own trimming.\<close>

definition visible :: "char \<Rightarrow> bool" where
  "visible c \<longleftrightarrow> 33 \<le> (of_char c :: nat) \<and> (of_char c :: nat) \<le> 126"

lemma space_seqs_invisible:
  "list_all (\<lambda>q. q \<noteq> [] \<and> \<not> visible (hd q) \<and> \<not> visible (last q)) space_seqs"
  by (simp add: space_seqs_def visible_def)

lemma trim_space_visible:
  assumes "visible (hd s)" and "visible (last s)" and "s \<noteq> []"
  shows "trim_space s = s"
proof (rule trim_space_id)
  fix q assume "q \<in> set space_seqs"
  then have "q \<noteq> []" "\<not> visible (hd q)" "\<not> visible (last q)"
    using space_seqs_invisible by (auto simp: list_all_iff)
  with assms show "\<not> prefix q s \<and> \<not> suffix q s"
    by (auto simp: prefix_def suffix_def)
qed

section \<open>Decimal and hexadecimal numerals\<close>

text \<open>
  \<open>digit_char\<close> and \<open>show_base\<close> print a number in a base up to 16, as \<open>%d\<close> and \<open>%x\<close> do;
  \<open>digit_val\<close> is the digit switch of \<open>strconv.ParseUint\<close> (decimal digits, then letters in
  either case from 10 up).
\<close>

definition digit_char :: "nat \<Rightarrow> char" where
  "digit_char d = ''0123456789abcdef'' ! d"

fun show_base :: "nat \<Rightarrow> nat \<Rightarrow> string" where
  "show_base b n =
     (if b \<le> 1 \<or> n < b then [digit_char n] else show_base b (n div b) @ [digit_char (n mod b)])"

declare show_base.simps [simp del]

abbreviation show_nat :: "nat \<Rightarrow> string" where
  "show_nat \<equiv> show_base 10"

text \<open>\<open>fmt.Sprintf("%02d", n)\<close> for the non-negative indexes the program formats.\<close>

definition show_nat2 :: "nat \<Rightarrow> string" where
  "show_nat2 n = (if n < 10 then CHR ''0'' # show_nat n else show_nat n)"

definition digit_val :: "char \<Rightarrow> nat option" where
  "digit_val c =
     (let n = of_char c; l = (if 65 \<le> n \<and> n \<le> 90 then n + 32 else n)
      in if 48 \<le> n \<and> n \<le> 57 then Some (n - 48)
         else if 97 \<le> l \<and> l \<le> 122 then Some (l - 97 + 10)
         else None)"

text \<open>
  \<open>strconv.ParseUint(s, base, bits)\<close> for an explicit base: the digits are read from the
  left; a character that is no digit of the base is a syntax error, a value that no longer
  fits \<open>bits\<close> bits is a range error, whichever comes first.
\<close>

fun parse_digits :: "nat \<Rightarrow> nat \<Rightarrow> string \<Rightarrow> nat \<Rightarrow> nat result" where
  "parse_digits base maxv [] n = Inr n"
| "parse_digits base maxv (c # cs) n =
     (case digit_val c of
        None \<Rightarrow> Inl (NumError ErrSyntax)
      | Some d \<Rightarrow>
          if base \<le> d then Inl (NumError ErrSyntax)
          else if maxv < n * base + d then Inl (NumError ErrRange)
          else parse_digits base maxv cs (n * base + d))"

definition parse_uint :: "string \<Rightarrow> nat \<Rightarrow> nat \<Rightarrow> nat result" where
  "parse_uint s base bits =
     (if s = [] then Inl (NumError ErrSyntax)
      else parse_digits base (2 ^ bits - 1) s 0)"

lemma digit_vals: "list_all (\<lambda>d. digit_val (digit_char d) = Some d) [0..<16]"
  by code_simp

lemma digit_val_digit_char: "d < 16 \<Longrightarrow> digit_val (digit_char d) = Some d"
  using digit_vals by (simp add: list_all_iff)

lemma parse_digits_bound: "n \<le> maxv \<Longrightarrow> parse_digits base maxv s n = Inr m \<Longrightarrow> m \<le> maxv"
  by (induction s arbitrary: n) (auto simp: not_less split: option.splits if_splits)

lemma parse_uint_bound: "parse_uint s base bits = Inr n \<Longrightarrow> n < 2 ^ bits"
  by (auto simp: parse_uint_def split: if_splits dest!: parse_digits_bound [rotated])
     (metis Suc_pred less_Suc_eq_le zero_less_numeral zero_less_power)

lemma parse_digits_append:
  "parse_digits base maxv (s @ t) n = bind_result (parse_digits base maxv s n) (parse_digits base maxv t)"
  by (induction s arbitrary: n) (auto split: option.splits)

lemma show_base_nonempty [simp]: "show_base b n \<noteq> []"
  by (subst show_base.simps) simp

lemma parse_digits_show_base:
  assumes "1 < b" "b \<le> 16"
  shows "n \<le> maxv \<Longrightarrow> parse_digits b maxv (show_base b n) 0 = Inr n"
  using assms
proof (induction b n rule: show_base.induct)
  case (1 b n)
  show ?case
  proof (cases "n < b")
    case True
    with "1.prems" show ?thesis
      by (simp add: show_base.simps [of b n] digit_val_digit_char)
  next
    case False
    have "n div b * b + n mod b = n" by simp
    moreover have "n div b \<le> maxv" using "1.prems" by (meson div_le_dividend le_trans)
    moreover have d: "n mod b < b" using "1.prems" by simp
    moreover have "digit_val (digit_char (n mod b)) = Some (n mod b)"
      by (rule digit_val_digit_char) (use d "1.prems" in linarith)
    ultimately show ?thesis
      using False "1.prems" "1.IH"
      by (simp add: show_base.simps [of b n] parse_digits_append not_le)
  qed
qed

text \<open>A numeral that is too large is refused by the digit at which it gets so.\<close>

lemma parse_digits_too_large:
  assumes "1 < b" "b \<le> 16"
  shows "maxv < n \<Longrightarrow> parse_digits b maxv (show_base b n) 0 = Inl (NumError ErrRange)"
  using assms
proof (induction b n rule: show_base.induct)
  case (1 b n)
  show ?case
  proof (cases "n < b")
    case True
    with "1.prems" show ?thesis by (simp add: show_base.simps [of b n] digit_val_digit_char)
  next
    case False
    have d: "n mod b < b" using "1.prems" by simp
    moreover have "digit_val (digit_char (n mod b)) = Some (n mod b)"
      by (rule digit_val_digit_char) (use d "1.prems" in linarith)
    ultimately show ?thesis
      using False "1.prems" "1.IH" parse_digits_show_base [of b "n div b" maxv]
      by (cases "n div b \<le> maxv") (simp_all add: show_base.simps [of b n] parse_digits_append not_le)
  qed
qed

text \<open>Printing a number that fits and parsing it back gives the number.\<close>

lemma parse_uint_show_base:
  "1 < b \<Longrightarrow> b \<le> 16 \<Longrightarrow> n < 2 ^ bits \<Longrightarrow> parse_uint (show_base b n) b bits = Inr n"
  by (simp add: parse_uint_def parse_digits_show_base)

lemma show_base_inject:
  assumes "1 < b" "b \<le> 16" and "show_base b m = show_base b n"
  shows "m = n"
proof -
  have "parse_digits b (max m n) (show_base b m) 0 = Inr m"
    and "parse_digits b (max m n) (show_base b n) 0 = Inr n"
    using assms(1,2) by (auto intro: parse_digits_show_base)
  with assms(3) show ?thesis by (metis sum.inject(2))
qed

section \<open>strings.ToLower\<close>

fun to_lower :: "string \<Rightarrow> string" where
  "to_lower [] = []"
| "to_lower (c # cs) =
     (if has_prefix (c # cs) [CHR 0xC4, CHR 0xB0]
      then CHR ''i'' # to_lower (drop 1 cs)
      else if has_prefix (c # cs) [CHR 0xE2, CHR 0x84, CHR 0xAA]
      then CHR ''k'' # to_lower (drop 2 cs)
      else (let n = of_char c :: nat
            in (if 65 \<le> n \<and> n \<le> 90 then char_of (n + 32) else c) # to_lower cs))"

end
