(* ===== verification/Go_Float.thy ===== *)
theory Go_Float
  imports Telemetry_Prelude Complex_Main "HOL-Library.Log_Nat" "HOL-Library.Word"
begin

text \<open>
  Go's \<open>float64\<close>: IEEE 754 binary64 values with exact rational magnitudes, the operations
  the program uses (comparison, negation, multiplication, division, \<open>math.Abs\<close>,
  \<open>math.Round\<close>, conversions from and to integers), each the exact rational result rounded
  to nearest, ties to even. \<open>rnd\<close> is that rounding on magnitudes; it is executable.
\<close>

section \<open>Rounding to nearest even with a 53-bit significand\<close>

definition ilog2 :: "rat \<Rightarrow> int" where
  "ilog2 q =
     (let (n, d) = quotient_of q; k = bitlen n - bitlen d
      in if 2 powi k \<le> q then k else k - 1)"

definition round_half_even :: "rat \<Rightarrow> int" where
  "round_half_even q =
     (let f = \<lfloor>q\<rfloor>; r = q - of_int f
      in if r < 1 / 2 then f else if 1 / 2 < r then f + 1 else if even f then f else f + 1)"

definition ulp_exp :: "rat \<Rightarrow> int" where
  "ulp_exp q = max (- 1074) (ilog2 q - 52)"

definition rnd :: "rat \<Rightarrow> rat" where
  "rnd q =
     (if q \<le> 0 then 0
      else let u = 2 powi ulp_exp q in of_int (round_half_even (q / u)) * u)"

lemma powi2_Suc: "(2 :: rat) powi (i + 1) = 2 * 2 powi i" "(2 :: rat) powi (1 + i) = 2 * 2 powi i"
  by (simp_all add: power_int_add)

lemma powi2_pred: "(2 :: rat) powi (i - 1) = 2 powi i / 2"
  by (simp add: power_int_diff)

lemma ilog2_bounds:
  assumes "0 < q"
  shows "2 powi ilog2 q \<le> q" and "q < 2 powi (ilog2 q + 1)"
proof -
  obtain n d where nd: "quotient_of q = (n, d)" by (cases "quotient_of q")
  have d: "0 < d" using quotient_of_denom_pos [OF nd] .
  have q: "q = of_int n / of_int d" using quotient_of_div [OF nd] .
  with assms d have n: "0 < n" by (simp add: zero_less_divide_iff)
  have pow: "\<And>x. 0 < x \<Longrightarrow> 2 powi (bitlen x - 1) \<le> (of_int x :: rat) \<and> (of_int x :: rat) < 2 powi bitlen x"
  proof -
    fix x :: int assume x: "0 < x"
    then have "0 < bitlen x" using bitlen_eq_zero_iff [of x] bitlen_nonneg [of x] by linarith
    with bitlen_bounds [OF x] show "2 powi (bitlen x - 1) \<le> (of_int x :: rat) \<and> (of_int x :: rat) < 2 powi bitlen x"
      by (metis (mono_tags, lifting) add_diff_cancel_right' nat_0_le of_int_le_iff of_int_less_iff
          of_int_numeral of_int_power order_less_imp_le power_int_def zle_diff1_eq)
  qed
  let ?k = "bitlen n - bitlen d"
  have "2 powi (?k - 1) = (2 powi (bitlen n - 1) / 2 powi bitlen d :: rat)"
    by (simp add: power_int_diff powi2_Suc)
  also have "\<dots> \<le> q" unfolding q using pow [OF n] pow [OF d] d n
    by (intro frac_le) auto
  finally have lo: "2 powi (?k - 1) \<le> q" .
  have "q < 2 powi bitlen n / (2 powi (bitlen d - 1) :: rat)" unfolding q
    using pow [OF n] pow [OF d] d n by (intro frac_less) auto
  also have "\<dots> = 2 powi (?k + 1)" by (simp add: power_int_diff powi2_Suc)
  finally have hi: "q < 2 powi (?k + 1)" .
  show "2 powi ilog2 q \<le> q" and "q < 2 powi (ilog2 q + 1)"
    using lo hi by (auto simp: ilog2_def nd Let_def)
qed

lemma powi2_mono: "i \<le> j \<Longrightarrow> (2 :: rat) powi i \<le> 2 powi j"
  by (simp add: power_int_increasing)

lemma powi2_less_iff: "(2 :: rat) powi i < 2 powi j \<longleftrightarrow> i < j"
  by (meson linorder_not_le numeral_le_one_iff one_less_numeral_iff powi2_mono power_int_strict_increasing semiring_norm(76))

lemma ilog2_unique:
  assumes "2 powi k \<le> q" and "q < 2 powi (k + 1)"
  shows "ilog2 q = k"
proof -
  have "0 < q" using assms(1) by (meson less_le_trans zero_less_numeral zero_less_power_int)
  note b = ilog2_bounds [OF this]
  have "(2::rat) powi k < 2 powi (ilog2 q + 1)" and "(2::rat) powi ilog2 q < 2 powi (k + 1)"
    using assms b by linarith+
  then show ?thesis by (simp add: powi2_less_iff)
qed

lemma ilog2_mono: "0 < p \<Longrightarrow> p \<le> q \<Longrightarrow> ilog2 p \<le> ilog2 q"
proof -
  assume "0 < p" "p \<le> q"
  then have "(2::rat) powi ilog2 p < 2 powi (ilog2 q + 1)"
    using ilog2_bounds(1) [of p] ilog2_bounds(2) [of q] by linarith
  then show ?thesis by (simp add: powi2_less_iff)
qed

lemma round_half_even_of_int [simp]: "round_half_even (of_int i) = i"
  by (simp add: round_half_even_def)

lemma round_half_even_mono: "p \<le> q \<Longrightarrow> round_half_even p \<le> round_half_even q"
proof -
  assume le: "p \<le> q"
  then have "\<lfloor>p\<rfloor> \<le> \<lfloor>q\<rfloor>" by (rule floor_mono)
  then consider "\<lfloor>p\<rfloor> = \<lfloor>q\<rfloor>" | "\<lfloor>p\<rfloor> + 1 \<le> \<lfloor>q\<rfloor>" by linarith
  then show ?thesis
  proof cases
    case 1
    with le show ?thesis by (auto simp: round_half_even_def Let_def)
  next
    case 2
    then show ?thesis by (auto simp: round_half_even_def Let_def)
  qed
qed

lemma round_half_even_le: "q \<le> of_int i \<Longrightarrow> round_half_even q \<le> i"
  using round_half_even_mono [of q "of_int i"] by simp

lemma round_half_even_ge: "of_int i \<le> q \<Longrightarrow> i \<le> round_half_even q"
  using round_half_even_mono [of "of_int i" q] by simp

lemma round_half_even_error: "\<bar>of_int (round_half_even q) - q\<bar> \<le> 1 / 2"
proof -
  have "of_int \<lfloor>q\<rfloor> \<le> q" "q < of_int \<lfloor>q\<rfloor> + 1" by linarith+
  then show ?thesis by (auto simp: round_half_even_def Let_def abs_le_iff)
qed

section \<open>Properties of the rounding\<close>

text \<open>Every multiple of a representable unit with at most 53 significant bits is kept.\<close>

lemma powi2_pos [simp]: "(0::rat) < 2 powi e"
  by simp

lemma rnd_nonneg: "0 \<le> rnd q"
  by (auto simp: rnd_def Let_def intro!: mult_nonneg_nonneg round_half_even_ge)

lemma rnd_0 [simp]: "rnd 0 = 0"
  by (simp add: rnd_def)

lemma rnd_exact:
  assumes "0 \<le> k" "k \<le> 2 ^ 53" "- 1074 \<le> e"
  shows "rnd (of_int k * 2 powi e) = of_int k * 2 powi e"
proof (cases "k = 0")
  case False
  let ?q = "of_int k * 2 powi e :: rat" and ?u = "ulp_exp (of_int k * 2 powi e)"
  have k: "0 < k" using False assms(1) by simp
  then have pos: "0 < ?q" by simp
  have "(of_int k :: rat) \<le> 2 ^ 53"
    using assms(2) by (metis of_int_le_iff of_int_numeral of_int_power)
  then have "?q \<le> 2 powi 53 * 2 powi e" by (intro mult_right_mono) simp_all
  also have "\<dots> = 2 powi (e + 53)" by (simp add: power_int_add mult.commute)
  finally have le: "?q \<le> 2 powi (e + 53)" .
  have "\<exists>j. ?q = of_int j * 2 powi ?u"
  proof (cases "?q = 2 powi (e + 53)")
    case True
    then have "ilog2 ?q = e + 53"
      by (intro ilog2_unique) (simp_all add: powi2_less_iff)
    then have u: "?u = max (- 1074) (e + 1)" by (simp add: ulp_exp_def)
    with assms(3) have "?u = e + 1" by simp
    then have "?q = of_int (2 ^ 52) * 2 powi ?u"
      unfolding True by (simp add: power_int_add)
    then show ?thesis by blast
  next
    case False
    with le have "?q < 2 powi (e + 53)" by simp
    with ilog2_bounds(1) [OF pos] have "(2::rat) powi ilog2 ?q < 2 powi (e + 53)" by linarith
    then have "?u \<le> e" using assms(3) by (simp add: ulp_exp_def powi2_less_iff)
    then have "2 powi e = (2 ^ nat (e - ?u)) * (2 powi ?u :: rat)"
      by (metis add.commute diff_add_cancel diff_ge_0_iff_ge power_int_add power_int_def zero_neq_numeral)
    then have "?q = of_int (k * 2 ^ nat (e - ?u)) * 2 powi ?u" by simp
    then show ?thesis by blast
  qed
  then obtain j where "?q = of_int j * 2 powi ?u" ..
  then have "?q / 2 powi ?u = of_int j"
    by (metis nonzero_mult_div_cancel_right order_less_irrefl powi2_pos)
  then have "round_half_even (?q / 2 powi ?u) = j" by simp
  with pos \<open>?q = of_int j * 2 powi ?u\<close> show ?thesis by (simp add: rnd_def Let_def)
qed simp

lemma rnd_of_int: "0 \<le> k \<Longrightarrow> k \<le> 2 ^ 53 \<Longrightarrow> rnd (of_int k) = of_int k"
  using rnd_exact [of k 0] by simp

lemma rnd_powi2: "- 1074 \<le> e \<Longrightarrow> rnd (2 powi e) = 2 powi e"
  using rnd_exact [of 1 e] by simp

text \<open>A positive number keeps its binade: its rounding stays between the powers around it.\<close>

lemma rnd_ge_powi2:
  assumes "0 < q" "- 1074 \<le> ilog2 q"
  shows "2 powi ilog2 q \<le> rnd q"
proof -
  let ?u = "ulp_exp q"
  have "?u \<le> ilog2 q" using assms(2) by (simp add: ulp_exp_def)
  then have e: "2 powi ilog2 q = of_int (2 ^ nat (ilog2 q - ?u)) * (2 powi ?u :: rat)"
    by (simp add: power_int_def [of _ "ilog2 q - ?u", symmetric] flip: power_int_add)
       (metis add.commute diff_add_cancel diff_ge_0_iff_ge power_int_add power_int_def zero_neq_numeral)
  have "of_int (2 ^ nat (ilog2 q - ?u)) \<le> q / 2 powi ?u"
    using ilog2_bounds(1) [OF assms(1)] unfolding e by (simp add: pos_le_divide_eq)
  then have "2 ^ nat (ilog2 q - ?u) \<le> round_half_even (q / 2 powi ?u)"
    by (rule round_half_even_ge)
  then have "(of_int (2 ^ nat (ilog2 q - ?u)) :: rat) \<le> of_int (round_half_even (q / 2 powi ?u))"
    by (simp only: of_int_le_iff)
  with assms(1) show ?thesis unfolding e
    by (simp add: rnd_def Let_def mult_right_mono)
qed

lemma rnd_le_unit_multiple:
  assumes "0 < q" "ulp_exp q \<le> e" "q \<le> 2 powi e"
  shows "rnd q \<le> 2 powi e"
proof -
  let ?u = "ulp_exp q"
  have e: "2 powi e = of_int (2 ^ nat (e - ?u)) * (2 powi ?u :: rat)"
    by (simp add: power_int_def [of _ "e - ?u", symmetric] flip: power_int_add)
       (metis add.commute assms(2) diff_add_cancel diff_ge_0_iff_ge power_int_add power_int_def zero_neq_numeral)
  have "q / 2 powi ?u \<le> of_int (2 ^ nat (e - ?u))"
    using assms(3) unfolding e by (simp add: pos_divide_le_eq)
  then have "round_half_even (q / 2 powi ?u) \<le> 2 ^ nat (e - ?u)"
    by (rule round_half_even_le)
  then have "(of_int (round_half_even (q / 2 powi ?u)) :: rat) \<le> of_int (2 ^ nat (e - ?u))"
    by (simp only: of_int_le_iff)
  with assms(1) show ?thesis unfolding e
    by (simp add: rnd_def Let_def mult_right_mono)
qed

lemma ulp_exp_mono: "0 < p \<Longrightarrow> p \<le> q \<Longrightarrow> ulp_exp p \<le> ulp_exp q"
  using ilog2_mono [of p q] by (simp add: ulp_exp_def)

text \<open>Rounding is monotone: fin_within a unit by the rounding of integers, across units through the power of two between.\<close>

lemma rnd_mono: "p \<le> q \<Longrightarrow> rnd p \<le> rnd q"
proof (cases "0 < p")
  case False
  then show ?thesis using rnd_nonneg [of q] by (simp add: rnd_def)
next
  case True
  assume le: "p \<le> q"
  with True have q: "0 < q" by simp
  show ?thesis
  proof (cases "ulp_exp p = ulp_exp q")
    case eq: True
    have "p / 2 powi ulp_exp q \<le> q / 2 powi ulp_exp q" using le by (simp add: divide_right_mono)
    then have "round_half_even (p / 2 powi ulp_exp q) \<le> round_half_even (q / 2 powi ulp_exp q)"
      by (rule round_half_even_mono)
    then show ?thesis using True q eq by (simp add: rnd_def Let_def mult_right_mono)
  next
    case False
    with ulp_exp_mono [OF True le] have lt: "ulp_exp p < ulp_exp q" by simp
    then have uq: "ulp_exp q = ilog2 q - 52" "- 1074 < ilog2 q - 52" by (auto simp: ulp_exp_def)
    have lp: "ilog2 p + 1 \<le> ilog2 q" using lt uq by (auto simp: ulp_exp_def)
    have "p \<le> 2 powi ilog2 q"
      using ilog2_bounds(2) [OF True] powi2_mono [OF lp] by linarith
    moreover have "ulp_exp p \<le> ilog2 q" using lt uq by simp
    ultimately have "rnd p \<le> 2 powi ilog2 q" using True by (intro rnd_le_unit_multiple)
    also have "\<dots> \<le> rnd q" using q uq by (intro rnd_ge_powi2) simp_all
    finally show ?thesis .
  qed
qed

text \<open>A rounded number has at most 53 significant bits, so rounding is idempotent.\<close>

lemma rnd_form:
  assumes "0 < q"
  shows "\<exists>k. 0 \<le> k \<and> k \<le> 2 ^ 53 \<and> rnd q = of_int k * 2 powi ulp_exp q"
proof -
  let ?u = "ulp_exp q" and ?k = "round_half_even (q / 2 powi ulp_exp q)"
  have "0 \<le> ?k" using assms by (intro round_half_even_ge) simp
  moreover have "?k \<le> 2 ^ 53"
  proof (rule round_half_even_le)
    have "ilog2 q + 1 \<le> 53 + ?u" by (simp add: ulp_exp_def)
    then have "q \<le> 2 powi (53 + ?u)"
      using ilog2_bounds(2) [OF assms] powi2_mono [of "ilog2 q + 1" "53 + ?u"] by linarith
    then have "q \<le> 2 ^ 53 * 2 powi ?u" by (simp add: power_int_add)
    then show "q / 2 powi ?u \<le> of_int (2 ^ 53)" by (simp add: pos_divide_le_eq)
  qed
  moreover have "rnd q = of_int ?k * 2 powi ?u" using assms by (simp add: rnd_def Let_def)
  ultimately show ?thesis by blast
qed

lemma rnd_idem [simp]: "rnd (rnd q) = rnd q"
proof (cases "0 < q")
  case True
  then obtain k where "0 \<le> k" "k \<le> 2 ^ 53" "rnd q = of_int k * 2 powi ulp_exp q"
    using rnd_form by blast
  moreover have "- 1074 \<le> ulp_exp q" by (simp add: ulp_exp_def)
  ultimately show ?thesis by (simp add: rnd_exact)
qed (simp add: rnd_def)

text \<open>The rounding error is at most half a unit.\<close>

lemma rnd_error: "0 \<le> q \<Longrightarrow> \<bar>rnd q - q\<bar> \<le> 2 powi ulp_exp q / 2"
proof (cases "q = 0")
  case False
  assume "0 \<le> q"
  with False have q: "0 < q" by simp
  let ?u = "2 powi ulp_exp q :: rat"
  have "\<bar>rnd q - q\<bar> = \<bar>(of_int (round_half_even (q / ?u)) - q / ?u) * ?u\<bar>"
    using q by (simp add: rnd_def Let_def left_diff_distrib)
  also have "\<dots> = \<bar>of_int (round_half_even (q / ?u)) - q / ?u\<bar> * ?u"
    by (simp add: abs_mult)
  also have "\<dots> \<le> 1 / 2 * ?u"
    by (intro mult_right_mono round_half_even_error) simp
  finally show ?thesis by simp
qed simp

section \<open>float64 values\<close>

text \<open>
  \<open>Fin neg m\<close> is the finite number of magnitude \<open>m\<close>, negative when \<open>neg\<close> holds (so \<open>Fin True 0\<close>
  is the negative zero); \<open>Inf neg\<close> an infinity; there is one \<open>NaN\<close>.
\<close>

datatype f64 = NaN | Inf bool | Fin bool rat

definition f64_limit :: rat where
  "f64_limit = 2 ^ 1024"

fun wf_f64 :: "f64 \<Rightarrow> bool" where
  "wf_f64 (Fin s m) \<longleftrightarrow> 0 \<le> m \<and> rnd m = m \<and> m < f64_limit"
| "wf_f64 _ \<longleftrightarrow> True"

fun is_fin :: "f64 \<Rightarrow> bool" where
  "is_fin (Fin _ _) = True"
| "is_fin _ = False"

text \<open>The rational value of a finite number (0 for the others, where it is never read).\<close>

fun fval :: "f64 \<Rightarrow> rat" where
  "fval (Fin s m) = (if s then - m else m)"
| "fval _ = 0"

text \<open>The rounded number of a sign and an exact magnitude: too large a magnitude overflows.\<close>

definition of_mag :: "bool \<Rightarrow> rat \<Rightarrow> f64" where
  "of_mag s q = (let r = rnd q in if f64_limit \<le> r then Inf s else Fin s r)"

definition f64_of_rat :: "rat \<Rightarrow> f64" where
  "f64_of_rat q = of_mag (q < 0) \<bar>q\<bar>"

definition f64_of_int :: "int \<Rightarrow> f64" where
  "f64_of_int i = f64_of_rat (of_int i)"

text \<open>Comparison: every comparison with \<open>NaN\<close> is false.\<close>

fun f64_less :: "f64 \<Rightarrow> f64 \<Rightarrow> bool" where
  "f64_less NaN y = False"
| "f64_less x NaN = False"
| "f64_less (Inf s) (Inf t) = (s \<and> \<not> t)"
| "f64_less (Inf s) (Fin t b) = s"
| "f64_less (Fin s a) (Inf t) = (\<not> t)"
| "f64_less (Fin s a) (Fin t b) = (fval (Fin s a) < fval (Fin t b))"

instantiation f64 :: ord
begin

definition less_f64 :: "f64 \<Rightarrow> f64 \<Rightarrow> bool" where
  "less_f64 = f64_less"

definition less_eq_f64 :: "f64 \<Rightarrow> f64 \<Rightarrow> bool" where
  "less_eq_f64 x y = (x \<noteq> NaN \<and> y \<noteq> NaN \<and> \<not> f64_less y x)"

instance ..

end

text \<open>Go's \<open>==\<close> on floats: the two zeros are equal, \<open>NaN\<close> equals nothing.\<close>

definition f64_eq :: "f64 \<Rightarrow> f64 \<Rightarrow> bool" where
  "f64_eq x y \<longleftrightarrow> x \<le> y \<and> y \<le> x"

text \<open>Arithmetic.\<close>

fun f64_neg :: "f64 \<Rightarrow> f64" where
  "f64_neg NaN = NaN"
| "f64_neg (Inf s) = Inf (\<not> s)"
| "f64_neg (Fin s m) = Fin (\<not> s) m"

fun f64_abs :: "f64 \<Rightarrow> f64" where
  "f64_abs NaN = NaN"
| "f64_abs (Inf s) = Inf False"
| "f64_abs (Fin s m) = Fin False m"

fun f64_mult :: "f64 \<Rightarrow> f64 \<Rightarrow> f64" where
  "f64_mult NaN y = NaN"
| "f64_mult x NaN = NaN"
| "f64_mult (Inf s) (Inf t) = Inf (s \<noteq> t)"
| "f64_mult (Inf s) (Fin t b) = (if b = 0 then NaN else Inf (s \<noteq> t))"
| "f64_mult (Fin s a) (Inf t) = (if a = 0 then NaN else Inf (s \<noteq> t))"
| "f64_mult (Fin s a) (Fin t b) = of_mag (s \<noteq> t) (a * b)"

fun f64_divide :: "f64 \<Rightarrow> f64 \<Rightarrow> f64" where
  "f64_divide NaN y = NaN"
| "f64_divide x NaN = NaN"
| "f64_divide (Inf s) (Inf t) = NaN"
| "f64_divide (Inf s) (Fin t b) = Inf (s \<noteq> t)"
| "f64_divide (Fin s a) (Inf t) = Fin (s \<noteq> t) 0"
| "f64_divide (Fin s a) (Fin t b) =
     (if b = 0 then (if a = 0 then NaN else Inf (s \<noteq> t)) else of_mag (s \<noteq> t) (a / b))"

instantiation f64 :: "{uminus, abs, times, inverse}"
begin

definition uminus_f64 :: "f64 \<Rightarrow> f64" where
  "uminus_f64 = f64_neg"

definition abs_f64 :: "f64 \<Rightarrow> f64" where
  "abs_f64 = f64_abs"

definition times_f64 :: "f64 \<Rightarrow> f64 \<Rightarrow> f64" where
  "times_f64 = f64_mult"

definition divide_f64 :: "f64 \<Rightarrow> f64 \<Rightarrow> f64" where
  "divide_f64 = f64_divide"

definition inverse_f64 :: "f64 \<Rightarrow> f64" where
  "inverse_f64 x = f64_divide (Fin False 1) x"

instance ..

end

lemmas f64_op_defs [go_defs] =
  less_f64_def less_eq_f64_def uminus_f64_def abs_f64_def times_f64_def divide_f64_def

text \<open>\<open>math.Round\<close>: to the nearest integer, halves away from zero.\<close>

fun go_round :: "f64 \<Rightarrow> f64" where
  "go_round (Fin s m) = Fin s (of_int \<lfloor>m + 1 / 2\<rfloor>)"
| "go_round x = x"

text \<open>
  Conversions to 64-bit integers drop the fraction. Go leaves the result open where the
  value does not fit (the processor decides); that choice is a parameter of the model.
\<close>

record go_platform =
  oor_int64 :: "f64 \<Rightarrow> 64 word"
  oor_uint64 :: "f64 \<Rightarrow> 64 word"

fun f64_trunc :: "f64 \<Rightarrow> int option" where
  "f64_trunc (Fin s m) = Some (if s then - \<lfloor>m\<rfloor> else \<lfloor>m\<rfloor>)"
| "f64_trunc _ = None"

definition f64_to_int64 :: "go_platform \<Rightarrow> f64 \<Rightarrow> 64 word" where
  "f64_to_int64 pl x =
     (case f64_trunc x of
        Some t \<Rightarrow> if - (2 ^ 63) \<le> t \<and> t < 2 ^ 63 then word_of_int t else oor_int64 pl x
      | None \<Rightarrow> oor_int64 pl x)"

definition f64_to_uint64 :: "go_platform \<Rightarrow> f64 \<Rightarrow> 64 word" where
  "f64_to_uint64 pl x =
     (case f64_trunc x of
        Some t \<Rightarrow> if 0 \<le> t \<and> t < 2 ^ 64 then word_of_int t else oor_uint64 pl x
      | None \<Rightarrow> oor_uint64 pl x)"

section \<open>Finite numbers fin_within a bound\<close>

text \<open>\<open>fin_within c x\<close>: a finite, representable number of magnitude at most \<open>c\<close>.\<close>

definition fin_within :: "rat \<Rightarrow> f64 \<Rightarrow> bool" where
  "fin_within c x \<longleftrightarrow> (\<exists>s m. x = Fin s m \<and> 0 \<le> m \<and> m \<le> c \<and> rnd m = m)"

definition representable :: "rat \<Rightarrow> bool" where
  "representable c \<longleftrightarrow> 0 \<le> c \<and> rnd c = c \<and> c < f64_limit"

lemma representable_of_int: "0 \<le> k \<Longrightarrow> k \<le> 2 ^ 53 \<Longrightarrow> representable (of_int k)"
proof -
  assume k: "0 \<le> k" "k \<le> 2 ^ 53"
  have "(of_int k :: rat) \<le> 2 ^ 53" using k(2) by (metis of_int_le_iff of_int_numeral of_int_power)
  also have "(2 :: rat) ^ 53 < 2 ^ 1024" by (rule power_strict_increasing) simp_all
  finally show ?thesis using k by (simp add: representable_def rnd_of_int f64_limit_def)
qed

lemma representable_numeral: "numeral n \<le> (2 ^ 53 :: int) \<Longrightarrow> representable (numeral n)"
  using representable_of_int [of "numeral n"] by simp

lemma representable_1 [simp]: "representable 1"
  using representable_of_int [of 1] by simp

lemma of_mag_fin_within: "0 \<le> q \<Longrightarrow> q \<le> c \<Longrightarrow> representable c \<Longrightarrow> of_mag s q = Fin s (rnd q) \<and> rnd q \<le> c"
  using rnd_mono [of q c] by (auto simp: of_mag_def Let_def representable_def)

lemma fin_within_imp_fin: "fin_within c x \<Longrightarrow> is_fin x"
  by (auto simp: fin_within_def)

lemma fin_within_imp_wf: "fin_within c x \<Longrightarrow> representable c \<Longrightarrow> wf_f64 x"
  by (auto simp: fin_within_def representable_def)

lemma fin_within_fval: "fin_within c x \<Longrightarrow> \<bar>fval x\<bar> \<le> c"
  by (auto simp: fin_within_def)

lemma fin_within_mono: "fin_within b x \<Longrightarrow> b \<le> c \<Longrightarrow> fin_within c x"
  by (auto simp: fin_within_def)

lemma fin_within_uminus: "fin_within c x \<Longrightarrow> fin_within c (- x)"
  by (auto simp: fin_within_def uminus_f64_def)

lemma fin_within_mult:
  assumes "fin_within a x" "fin_within b y" "a * b \<le> c" "representable c"
  shows "fin_within c (x * y)"
proof -
  obtain s m where x: "x = Fin s m" "0 \<le> m" "m \<le> a" using assms(1) by (auto simp: fin_within_def)
  obtain t n where y: "y = Fin t n" "0 \<le> n" "n \<le> b" using assms(2) by (auto simp: fin_within_def)
  have "0 \<le> m * n" "m * n \<le> c" using x y assms(3) by (auto intro: order_trans mult_mono)
  then show ?thesis
    using of_mag_fin_within [of "m * n" c] assms(4) rnd_nonneg
    by (auto simp: x y fin_within_def times_f64_def)
qed

lemma fin_within_divide:
  assumes "fin_within a x" "0 < b" "a / b \<le> c" "representable c"
  shows "fin_within c (x / Fin t b)"
proof -
  obtain s m where x: "x = Fin s m" "0 \<le> m" "m \<le> a" using assms(1) by (auto simp: fin_within_def)
  have "m / b \<le> a / b" using x assms(2) by (simp add: divide_right_mono)
  with x assms(2,3) have "0 \<le> m / b" "m / b \<le> c" by auto
  then show ?thesis
    using of_mag_fin_within [of "m / b" c] assms(2,4) rnd_nonneg
    by (auto simp: x fin_within_def divide_f64_def)
qed

lemma fin_within_round:
  assumes "fin_within (of_int k) x" "k \<le> 2 ^ 53"
  shows "fin_within (of_int k) (go_round x)"
proof -
  obtain s m where x: "x = Fin s m" "0 \<le> m" "m \<le> of_int k" using assms(1) by (auto simp: fin_within_def)
  have lo: "0 \<le> \<lfloor>m + 1 / 2\<rfloor>" and hi: "\<lfloor>m + 1 / 2\<rfloor> \<le> k" using x by linarith+
  then have "rnd (of_int \<lfloor>m + 1 / 2\<rfloor>) = of_int \<lfloor>m + 1 / 2\<rfloor>"
    using assms(2) by (intro rnd_of_int) linarith+
  with lo hi show ?thesis by (simp add: x fin_within_def)
qed

lemma f64_of_int_exact: "\<bar>i\<bar> \<le> 2 ^ 53 \<Longrightarrow> f64_of_int i = Fin (i < 0) (of_int \<bar>i\<bar>)"
  using representable_of_int [of "\<bar>i\<bar>"] rnd_of_int [of "\<bar>i\<bar>"]
  by (auto simp: f64_of_int_def f64_of_rat_def of_mag_def representable_def Let_def)

text \<open>Results of the arithmetic are well formed.\<close>

lemma wf_of_mag [wf_intros]: "wf_f64 (of_mag s q)"
  using rnd_nonneg [of q] by (auto simp: of_mag_def Let_def)

lemma wf_f64_ops [wf_intros]:
  "wf_f64 x \<Longrightarrow> wf_f64 (- x)"
  "wf_f64 x \<Longrightarrow> wf_f64 \<bar>x\<bar>"
  "wf_f64 (f64_of_rat q)"
  "wf_f64 (f64_of_int i)"
  by (cases x; simp add: go_defs f64_of_rat_def f64_of_int_def wf_of_mag)+

lemma wf_f64_mult [wf_intros]: "wf_f64 (x * y)"
  by (cases x; cases y) (auto simp: times_f64_def wf_of_mag)

lemma wf_f64_divide [wf_intros]: "wf_f64 (x / y)"
  by (cases x; cases y) (auto simp: divide_f64_def wf_of_mag f64_limit_def)

lemma f64_less_eq_Fin [simp]:
  "Fin s a \<le> Fin t b \<longleftrightarrow> fval (Fin s a) \<le> fval (Fin t b)"
  "Fin s a < Fin t b \<longleftrightarrow> fval (Fin s a) < fval (Fin t b)"
  by (auto simp: less_eq_f64_def less_f64_def not_less)

lemma of_mag_small: "0 \<le> q \<Longrightarrow> q \<le> 2 ^ 53 \<Longrightarrow> of_mag s q = Fin s (rnd q)"
  using of_mag_fin_within [of q "2 ^ 53"] representable_of_int [of "2 ^ 53"] by simp

lemma of_mag_int: "0 \<le> i \<Longrightarrow> i \<le> 2 ^ 53 \<Longrightarrow> of_mag s (of_int i) = Fin s (of_int i)"
  using rnd_of_int [of i] representable_of_int [of i] by (simp add: of_mag_def representable_def Let_def)

end
