(* ===== verification/Go_Json.thy ===== *)
theory Go_Json
  imports Go_Strings Go_Float
begin

text \<open>
  What the program uses of Go's \<open>encoding/json\<close>, on parsed documents: \<open>json\<close> is the syntax
  tree of a text (a number literal keeps its sign and its exact value, an object its members
  in order, duplicates included), and the \<open>decode_*\<close> functions are \<open>json.Unmarshal\<close> into each
  Go type the program declares. A decoder takes the value the target had before, because a
  JSON \<open>null\<close> leaves it as it is. Go goes on decoding after a type mismatch and returns the
  first one at the end; the callers drop the target then, so the model stops at the first.

  \<open>encode_value\<close> is \<open>json.Marshal\<close> of such a value: a float is written as the shortest decimal that reads back
  as the same float, and \<open>NaN\<close> and the infinities are errors.
\<close>

datatype json =
    JNull
  | JBool bool
  | JNum bool rat
  | JStr string
  | JArr "json list"
  | JObj "(string \<times> json) list"

text \<open>
  A value of Go's \<open>interface{}\<close> type, tagged with its dynamic type. A map is an association
  list without duplicate keys.
\<close>

datatype iface =
    INil
  | IBool bool
  | IFloat64 f64
  | IFloat32 f64
  | IInt "64 word"
  | IInt8 "8 word"
  | IInt16 "16 word"
  | IInt32 "32 word"
  | IInt64 "64 word"
  | IUint "64 word"
  | IUint8 "8 word"
  | IUint16 "16 word"
  | IUint32 "32 word"
  | IUint64 "64 word"
  | IString string
  | ISlice "iface list"
  | IMap "(string \<times> iface) list"

section \<open>Unmarshal\<close>

definition type_error :: go_error where
  "type_error = Err ''json: cannot unmarshal value into Go value''"

fun decode_bool :: "bool \<Rightarrow> json \<Rightarrow> bool result" where
  "decode_bool cur JNull = Inr cur"
| "decode_bool cur (JBool b) = Inr b"
| "decode_bool cur j = Inl type_error"

fun decode_string :: "string \<Rightarrow> json \<Rightarrow> string result" where
  "decode_string cur JNull = Inr cur"
| "decode_string cur (JStr s) = Inr s"
| "decode_string cur j = Inl type_error"

text \<open>A number literal is rounded to the nearest float; one that overflows is an error.\<close>

definition parse_float :: "bool \<Rightarrow> rat \<Rightarrow> f64 result" where
  "parse_float s m = (case of_mag s m of Inf t \<Rightarrow> Inl type_error | x \<Rightarrow> Inr x)"

fun decode_float64 :: "f64 \<Rightarrow> json \<Rightarrow> f64 result" where
  "decode_float64 cur JNull = Inr cur"
| "decode_float64 cur (JNum s m) = parse_float s m"
| "decode_float64 cur j = Inl type_error"

text \<open>Into \<open>interface{}\<close>: numbers become \<open>float64\<close>, a repeated key keeps its last value.\<close>

fun decode_iface :: "json \<Rightarrow> iface result"
and decode_ifaces :: "json list \<Rightarrow> iface list result"
and decode_members :: "(string \<times> json) list \<Rightarrow> (string \<times> iface) list \<Rightarrow> (string \<times> iface) list result" where
  "decode_iface JNull = Inr INil"
| "decode_iface (JBool b) = Inr (IBool b)"
| "decode_iface (JNum s m) = bind_result (parse_float s m) (\<lambda>x. Inr (IFloat64 x))"
| "decode_iface (JStr s) = Inr (IString s)"
| "decode_iface (JArr js) = bind_result (decode_ifaces js) (\<lambda>vs. Inr (ISlice vs))"
| "decode_iface (JObj ms) = bind_result (decode_members ms []) (\<lambda>al. Inr (IMap al))"
| "decode_ifaces [] = Inr []"
| "decode_ifaces (j # js) =
     bind_result (decode_iface j) (\<lambda>v. bind_result (decode_ifaces js) (\<lambda>vs. Inr (v # vs)))"
| "decode_members [] al = Inr al"
| "decode_members ((k, j) # ms) al =
     bind_result (decode_iface j) (\<lambda>v. decode_members ms (AList.update k v al))"

text \<open>Into \<open>map[string]interface{}\<close>: \<open>null\<close> makes it nil, an object is merged into it.\<close>

fun decode_map :: "(string \<times> iface) list \<Rightarrow> json \<Rightarrow> (string \<times> iface) list result" where
  "decode_map cur JNull = Inr []"
| "decode_map cur (JObj ms) = decode_members ms cur"
| "decode_map cur j = Inl type_error"

text \<open>
  A member's key selects the struct field of that name, or failing that the first field whose
  name folds to the same string: ASCII letters in either case are alike, and so are
  \<open>U+017F\<close> with S and \<open>U+212A\<close> with K.
\<close>

fun fold_name :: "string \<Rightarrow> string" where
  "fold_name [] = []"
| "fold_name (c # cs) =
     (if has_prefix (c # cs) [CHR 0xC5, CHR 0xBF] then CHR ''S'' # fold_name (drop 1 cs)
      else if has_prefix (c # cs) [CHR 0xE2, CHR 0x84, CHR 0xAA]
      then CHR ''K'' # fold_name (drop 2 cs)
      else (let n = of_char c :: nat
            in (if 97 \<le> n \<and> n \<le> 122 then char_of (n - 32) else c) # fold_name cs))"

definition match_field :: "string list \<Rightarrow> string \<Rightarrow> string option" where
  "match_field fs k =
     (if k \<in> set fs then Some k else find (\<lambda>f. fold_name f = fold_name k) fs)"

section \<open>Marshal\<close>

definition unsupported_value :: go_error where
  "unsupported_value = Err ''json: unsupported value''"

text \<open>
  The shortest decimal that rounds to \<open>m\<close>: for \<open>n = 1, 2, \<dots>, 17\<close> significant digits the
  nearest \<open>n\<close>-digit decimal, then the other neighbour.
\<close>

definition sig_candidates :: "rat \<Rightarrow> nat \<Rightarrow> rat list" where
  "sig_candidates m n =
     (let e = (ilog2 m * 30103) div 100000 + 1 - int n;
          u = 10 powi e;
          e' = (if 10 ^ n \<le> m / u then e + 1 else e);
          u' = 10 powi e';
          lo = of_int \<lfloor>m / u'\<rfloor> * u';
          hi = of_int \<lceil>m / u'\<rceil> * u'
      in if m - lo \<le> hi - m then [lo, hi] else [hi, lo])"

definition shortest :: "rat \<Rightarrow> rat" where
  "shortest m =
     (if m = 0 then 0
      else case find (\<lambda>q. 0 \<le> q \<and> rnd q = m) (concat (map (sig_candidates m) [1..<18])) of
             Some q \<Rightarrow> q
           | None \<Rightarrow> m)"

fun encode_float64 :: "f64 \<Rightarrow> json result" where
  "encode_float64 (Fin s m) = Inr (JNum s (shortest m))"
| "encode_float64 x = Inl unsupported_value"

text \<open>
  The dynamic types of the values the program puts into the \<open>map[string]interface{}\<close> values
  that it marshals: \<open>bool\<close> and \<open>float64\<close>.
\<close>

datatype ctl_value = CBool bool | CNum f64

fun iface_of :: "ctl_value \<Rightarrow> iface" where
  "iface_of (CBool b) = IBool b"
| "iface_of (CNum x) = IFloat64 x"

fun encode_value :: "ctl_value \<Rightarrow> json result" where
  "encode_value (CBool b) = Inr (JBool b)"
| "encode_value (CNum x) = encode_float64 x"

section \<open>Reading back what was written\<close>

lemma shortest_rnd:
  assumes "0 \<le> m" "rnd m = m"
  shows "rnd (shortest m) = m" and "0 \<le> shortest m"
proof -
  let ?P = "\<lambda>q. 0 \<le> q \<and> rnd q = m"
  have "?P (shortest m)"
  proof (cases "find ?P (concat (map (sig_candidates m) [1..<18]))")
    case None
    with assms show ?thesis by (simp add: shortest_def)
  next
    case (Some q)
    then have "?P q" by (auto simp: find_Some_iff)
    with Some assms show ?thesis by (simp add: shortest_def)
  qed
  then show "rnd (shortest m) = m" and "0 \<le> shortest m" by auto
qed

lemma parse_float_shortest:
  "wf_f64 (Fin s m) \<Longrightarrow> parse_float s (shortest m) = Inr (Fin s m)"
  using shortest_rnd [of m] by (simp add: parse_float_def of_mag_def)

lemma decode_encode_float64:
  "wf_f64 x \<Longrightarrow> encode_float64 x = Inr j \<Longrightarrow> decode_float64 cur j = Inr x"
  by (cases x) (auto simp: parse_float_shortest)

lemma decode_encode_value:
  assumes "\<And>x. v = CNum x \<Longrightarrow> wf_f64 x" and "encode_value v = Inr j"
  shows "decode_iface j = Inr (iface_of v)"
proof (cases v)
  case (CNum x)
  with assms show ?thesis by (cases x) (auto simp: parse_float_shortest)
qed (use assms in auto)

lemma encode_value_ok: "is_ok (encode_value v) \<longleftrightarrow> (\<forall>x. v = CNum x \<longrightarrow> is_fin x)"
proof (cases v)
  case (CNum x)
  then show ?thesis by (cases x) auto
qed simp

lemma parse_float_wf: "parse_float s m = Inr x \<Longrightarrow> wf_f64 x \<and> is_fin x"
  using wf_of_mag [of s m]
  by (auto simp: parse_float_def of_mag_def Let_def split: if_splits f64.splits)

lemma decode_float64_wf:
  "decode_float64 cur j = Inr x \<Longrightarrow> wf_f64 cur \<Longrightarrow> is_fin cur \<Longrightarrow> wf_f64 x \<and> is_fin x"
  by (cases j) (auto dest: parse_float_wf)

text \<open>Decoding an object without repeated keys keeps its members in order.\<close>

lemma decode_members_distinct:
  assumes "list_all2 (\<lambda>(k, j) (k', v). k = k' \<and> decode_iface j = Inr v) ms kvs"
    and "distinct (map fst (al @ kvs))"
  shows "decode_members ms al = Inr (al @ kvs)"
  using assms
proof (induction ms kvs arbitrary: al rule: list_all2_induct)
  case (Cons m ms kv kvs)
  then obtain k j v where m: "m = (k, j)" "kv = (k, v)" "decode_iface j = Inr v" by auto
  have "k \<notin> set (map fst al)" using Cons.prems m by simp
  then have upd: "AList.update k v al = al @ [(k, v)]" by (simp add: update_fresh)
  have "decode_members ms (al @ [(k, v)]) = Inr ((al @ [(k, v)]) @ kvs)"
    using Cons.prems m by (intro Cons.IH) simp
  then show ?case by (simp add: m upd)
qed simp

lemma decode_members_keys:
  "decode_members ms al = Inr kvs \<Longrightarrow> fst ` set kvs = fst ` set ms \<union> fst ` set al"
proof (induction ms arbitrary: al)
  case (Cons m ms)
  obtain k j where m: "m = (k, j)" by (cases m)
  with Cons.prems obtain v where "decode_members ms (AList.update k v al) = Inr kvs"
    by (auto simp: bind_result_eq_Inr)
  from Cons.IH [OF this] show ?case by (simp add: m dom_update)
qed simp

lemma decode_members_distinct_keys:
  "decode_members ms al = Inr kvs \<Longrightarrow> distinct (map fst al) \<Longrightarrow> distinct (map fst kvs)"
proof (induction ms arbitrary: al)
  case (Cons m ms)
  obtain k j where m: "m = (k, j)" by (cases m)
  with Cons.prems obtain v where "decode_members ms (AList.update k v al) = Inr kvs"
    by (auto simp: bind_result_eq_Inr)
  from Cons.IH [OF this] Cons.prems(2) show ?case by (simp add: distinct_update)
qed simp

end
