(* ===== verification/Gamepad_State.thy ===== *)
theory Gamepad_State
  imports Go_Json
begin

text \<open>
  The input types of \<open>internal/gamepad/mapper.go\<close> and their JSON decoding: \<open>State\<close>,
  \<open>ButtonState\<close> and \<open>ButtonState.UnmarshalJSON\<close>, which takes a boolean, a number or an object.
  Also \<open>clamp\<close>, which the decoder and the mapper share.
\<close>

record ButtonState =
  Pressed :: bool
  Value :: f64

record State =
  Axes :: "f64 list"
  Buttons :: "ButtonState list"

abbreviation f0 :: f64 where "f0 \<equiv> Fin False 0"
abbreviation f1 :: f64 where "f1 \<equiv> Fin False 1"
abbreviation f_half :: f64 where "f_half \<equiv> Fin False (1 / 2)"

definition clamp :: "f64 \<Rightarrow> f64 \<Rightarrow> f64 \<Rightarrow> f64" where
  "clamp v lo hi = (if v < lo then lo else if hi < v then hi else v)"

section \<open>UnmarshalJSON\<close>

text \<open>The object form: \<open>buttonAlias\<close> has the fields \<open>pressed\<close> and \<open>value\<close>.\<close>

definition decode_button_member :: "string \<times> json \<Rightarrow> bool \<times> f64 \<Rightarrow> (bool \<times> f64) result" where
  "decode_button_member kv b =
     (case match_field [''pressed'', ''value''] (fst kv) of
        None \<Rightarrow> Inr b
      | Some f \<Rightarrow>
          if f = ''pressed'' then
            bind_result (decode_bool (fst b) (snd kv)) (\<lambda>p. Inr (p, snd b))
          else
            bind_result (decode_float64 (snd b) (snd kv)) (\<lambda>v. Inr (fst b, v)))"

fun decode_alias :: "json \<Rightarrow> (bool \<times> f64) result" where
  "decode_alias JNull = Inr (False, f0)"
| "decode_alias (JObj ms) = fold_result decode_button_member ms (False, f0)"
| "decode_alias j = Inl type_error"

text \<open>The three attempts, in the code's order.\<close>

definition UnmarshalButton :: "json \<Rightarrow> ButtonState result" where
  "UnmarshalButton j =
     (case decode_bool False j of
        Inr asBool \<Rightarrow> Inr \<lparr>Pressed = asBool, Value = (if asBool then f1 else f0)\<rparr>
      | Inl _ \<Rightarrow>
     (case decode_float64 f0 j of
        Inr asNumber \<Rightarrow>
          (let v = clamp asNumber f0 f1 in Inr \<lparr>Pressed = f_half < v, Value = v\<rparr>)
      | Inl _ \<Rightarrow>
     (case decode_alias j of
        Inl err \<Rightarrow> Inl (Wrap ''invalid button format: '' err)
      | Inr (p, v) \<Rightarrow>
          (let v1 = clamp v f0 f1;
               v2 = (if f64_eq v1 f0 \<and> p then f1 else v1);
               p2 = (if f_half < v2 then True else p)
           in Inr \<lparr>Pressed = p2, Value = v2\<rparr>))))"

section \<open>State\<close>

text \<open>
  A JSON array is decoded into the slice the field had: element \<open>i\<close> starts from the slice's
  element \<open>i\<close> if there is one (which matters only for \<open>null\<close> in a repeated \<open>axes\<close> member),
  from zero otherwise. A button is always decoded from scratch.
\<close>

fun decode_floats :: "f64 list \<Rightarrow> json list \<Rightarrow> f64 list result" where
  "decode_floats cur [] = Inr []"
| "decode_floats cur (j # js) =
     bind_result (decode_float64 (case cur of [] \<Rightarrow> f0 | c # _ \<Rightarrow> c) j) (\<lambda>x.
     bind_result (decode_floats (tl cur) js) (\<lambda>xs. Inr (x # xs)))"

fun decode_axes :: "f64 list \<Rightarrow> json \<Rightarrow> f64 list result" where
  "decode_axes cur JNull = Inr []"
| "decode_axes cur (JArr js) = decode_floats cur js"
| "decode_axes cur j = Inl type_error"

fun decode_button_list :: "json list \<Rightarrow> ButtonState list result" where
  "decode_button_list [] = Inr []"
| "decode_button_list (j # js) =
     bind_result (UnmarshalButton j) (\<lambda>b.
     bind_result (decode_button_list js) (\<lambda>bs. Inr (b # bs)))"

fun decode_buttons :: "json \<Rightarrow> ButtonState list result" where
  "decode_buttons JNull = Inr []"
| "decode_buttons (JArr js) = decode_button_list js"
| "decode_buttons j = Inl type_error"

definition decode_state_member :: "string \<times> json \<Rightarrow> State \<Rightarrow> State result" where
  "decode_state_member kv s =
     (case match_field [''axes'', ''buttons''] (fst kv) of
        None \<Rightarrow> Inr s
      | Some f \<Rightarrow>
          if f = ''axes'' then
            bind_result (decode_axes (Axes s) (snd kv)) (\<lambda>xs. Inr (s\<lparr>Axes := xs\<rparr>))
          else
            bind_result (decode_buttons (snd kv)) (\<lambda>bs. Inr (s\<lparr>Buttons := bs\<rparr>)))"

fun decode_state :: "json \<Rightarrow> State result" where
  "decode_state JNull = Inr \<lparr>Axes = [], Buttons = []\<rparr>"
| "decode_state (JObj ms) = fold_result decode_state_member ms \<lparr>Axes = [], Buttons = []\<rparr>"
| "decode_state j = Inl type_error"

section \<open>Invariants of decoded input\<close>

text \<open>
  A decoded button: a value between 0 and 1, pressed whenever it is above one half, and
  never pressed with value zero.
\<close>

definition button_ok :: "ButtonState \<Rightarrow> bool" where
  "button_ok b \<longleftrightarrow>
     fin_within 1 (Value b) \<and> 0 \<le> fval (Value b) \<and>
     (1 / 2 < fval (Value b) \<longrightarrow> Pressed b) \<and> (Pressed b \<longrightarrow> 0 < fval (Value b))"

text \<open>A decoded state: finite axes and well-formed buttons.\<close>

definition state_ok :: "State \<Rightarrow> bool" where
  "state_ok s \<longleftrightarrow>
     list_all (\<lambda>x. wf_f64 x \<and> is_fin x) (Axes s) \<and> list_all button_ok (Buttons s)"

lemma clamp_Fin:
  "clamp (Fin s m) (Fin t a) (Fin u b) =
     (if fval (Fin s m) < fval (Fin t a) then Fin t a
      else if fval (Fin u b) < fval (Fin s m) then Fin u b else Fin s m)"
  by (simp add: clamp_def)

lemma clamp_unit:
  assumes "wf_f64 v" "is_fin v"
  shows "fin_within 1 (clamp v f0 f1)" and "0 \<le> fval (clamp v f0 f1)"
  using assms rnd_of_int [of 1]
  by (cases v; auto simp: clamp_Fin fin_within_def split: if_splits)+

lemma clamp_sym_unit:
  assumes "wf_f64 v" "is_fin v"
  shows "fin_within 1 (clamp v (Fin True 1) f1)"
  using assms rnd_of_int [of 1]
  by (cases v) (auto simp: clamp_Fin fin_within_def split: if_splits)

lemma half_less_iff: "is_fin v \<Longrightarrow> f_half < v \<longleftrightarrow> 1 / 2 < fval v"
  by (cases v) simp_all

lemma f64_eq_0_iff: "is_fin v \<Longrightarrow> f64_eq v f0 \<longleftrightarrow> fval v = 0"
  by (cases v) (auto simp: f64_eq_def)

lemma decode_alias_fin: "decode_alias j = Inr (p, v) \<Longrightarrow> wf_f64 v \<and> is_fin v"
proof (cases j)
  case (JObj ms)
  assume "decode_alias j = Inr (p, v)"
  with JObj have "fold_result decode_button_member ms (False, f0) = Inr (p, v)" by simp
  then have "wf_f64 (snd (p, v)) \<and> is_fin (snd (p, v))"
    by (rule fold_result_invariant)
       (auto simp: decode_button_member_def bind_result_eq_Inr f64_limit_def
        dest!: decode_float64_wf split: option.splits if_splits)
  then show ?thesis by simp
qed (auto simp: f64_limit_def)

lemma button_ok_mk:
  assumes "fin_within 1 v" "0 \<le> fval v" "1 / 2 < fval v \<longrightarrow> p" "p \<longrightarrow> 0 < fval v"
  shows "button_ok \<lparr>Pressed = p, Value = v\<rparr>"
  using assms by (simp add: button_ok_def)

lemma fin_within_01 [simp]: "fin_within 1 f0" "fin_within 1 f1"
  using rnd_of_int [of 1] by (auto simp: fin_within_def)

lemma button_ok_fin: "button_ok b \<Longrightarrow> wf_f64 (Value b) \<and> is_fin (Value b)"
  by (auto simp: button_ok_def intro: fin_within_imp_wf fin_within_imp_fin)

lemma UnmarshalButton_ok: "UnmarshalButton j = Inr b \<Longrightarrow> button_ok b"
proof -
  assume ok: "UnmarshalButton j = Inr b"
  consider x where "decode_bool False j = Inr x"
    | x where "\<not> is_ok (decode_bool False j)" "decode_float64 f0 j = Inr x"
    | "\<not> is_ok (decode_bool False j)" "\<not> is_ok (decode_float64 f0 j)"
    by (metis isl_def obj_sumE)
  then show ?thesis
  proof cases
    case 1
    with ok have "b = \<lparr>Pressed = x, Value = (if x then f1 else f0)\<rparr>" by (simp add: UnmarshalButton_def)
    then show ?thesis by (auto intro!: button_ok_mk)
  next
    case 2
    let ?v = "clamp x f0 f1"
    have x: "wf_f64 x" "is_fin x" using decode_float64_wf [OF 2(2)] by (auto simp: f64_limit_def)
    with ok 2 have b: "b = \<lparr>Pressed = f_half < ?v, Value = ?v\<rparr>"
      by (auto simp: UnmarshalButton_def Let_def isl_def)
    have "is_fin ?v" using clamp_unit(1) [OF x] by (rule fin_within_imp_fin)
    then show ?thesis unfolding b
      using clamp_unit [OF x] by (intro button_ok_mk) (auto simp: half_less_iff)
  next
    case 3
    with ok obtain p v where al: "decode_alias j = Inr (p, v)"
      by (auto simp: UnmarshalButton_def isl_def split: sum.splits)
    let ?v = "clamp v f0 f1"
    let ?v2 = "if f64_eq ?v f0 \<and> p then f1 else ?v"
    have v: "fin_within 1 ?v" "0 \<le> fval ?v" using decode_alias_fin [OF al] by (auto intro: clamp_unit)
    then have v2: "fin_within 1 ?v2" "0 \<le> fval ?v2" "is_fin ?v2" "p \<longrightarrow> fval ?v2 \<noteq> 0"
      using fin_within_imp_fin [OF v(1)] by (auto simp: f64_eq_0_iff)
    have "b = \<lparr>Pressed = (if f_half < ?v2 then True else p), Value = ?v2\<rparr>"
      using ok 3 al by (auto simp: UnmarshalButton_def Let_def isl_def)
    then show ?thesis using v2
      by (simp only:) (intro button_ok_mk, auto simp: half_less_iff)
  qed
qed

lemma decode_floats_ok:
  "decode_floats cur js = Inr xs \<Longrightarrow> list_all (\<lambda>x. wf_f64 x \<and> is_fin x) cur \<Longrightarrow>
   list_all (\<lambda>x. wf_f64 x \<and> is_fin x) xs"
proof (induction cur js arbitrary: xs rule: decode_floats.induct)
  case (2 cur j js)
  then show ?case
    by (cases cur) (auto simp: bind_result_eq_Inr f64_limit_def dest!: decode_float64_wf)
qed simp

lemma decode_button_list_ok: "decode_button_list js = Inr bs \<Longrightarrow> list_all button_ok bs"
  by (induction js arbitrary: bs) (auto simp: bind_result_eq_Inr UnmarshalButton_ok)

lemma decode_state_member_ok:
  "decode_state_member kv s = Inr t \<Longrightarrow> state_ok s \<Longrightarrow> state_ok t"
proof -
  assume dec: "decode_state_member kv s = Inr t" and s: "state_ok s"
  have axes: "list_all (\<lambda>x. wf_f64 x \<and> is_fin x) xs" if "decode_axes (Axes s) j = Inr xs" for j xs
    using that s by (cases j) (auto simp: state_ok_def intro: decode_floats_ok)
  have buttons: "list_all button_ok bs" if "decode_buttons j = Inr bs" for j bs
    using that by (cases j) (auto intro: decode_button_list_ok)
  from dec s show ?thesis
    by (auto simp: decode_state_member_def bind_result_eq_Inr state_ok_def
        split: option.splits if_splits dest: axes buttons)
qed

lemma decode_state_ok: "decode_state j = Inr s \<Longrightarrow> state_ok s"
proof (cases j)
  case (JObj ms)
  assume "decode_state j = Inr s"
  with JObj have "fold_result decode_state_member ms \<lparr>Axes = [], Buttons = []\<rparr> = Inr s" by simp
  then show ?thesis
    by (rule fold_result_invariant) (simp add: state_ok_def, rule decode_state_member_ok)
qed (auto simp: state_ok_def)

section \<open>Properties\<close>

text \<open>
  C19 Whatever JSON document a client sends, an accepted gamepad state has finite axes and buttons
  whose value is between 0 and 1, pressed when it is above one half, and of positive value when
  pressed.
\<close>

theorem decoded_state_wellformed:
  assumes "decode_state j = Inr s"
  shows "(\<forall>x \<in> set (Axes s). is_fin x) \<and>
    (\<forall>b \<in> set (Buttons s). is_fin (Value b) \<and> 0 \<le> fval (Value b) \<and> fval (Value b) \<le> 1 \<and>
       (1 / 2 < fval (Value b) \<longrightarrow> Pressed b) \<and> (Pressed b \<longrightarrow> 0 < fval (Value b)))"
proof -
  have ok: "state_ok s" using assms by (rule decode_state_ok)
  have "button_ok b" if "b \<in> set (Buttons s)" for b
    using ok that by (simp add: state_ok_def list_all_iff)
  moreover have "fval (Value b) \<le> 1 \<and> is_fin (Value b)" if "button_ok b" for b
    using that fin_within_fval [of 1 "Value b"] by (auto simp: button_ok_def dest: fin_within_imp_fin)
  ultimately show ?thesis using ok by (auto simp: state_ok_def list_all_iff button_ok_def)
qed

definition example_state_json :: json where
  "example_state_json =
     JObj [(''axes'', JArr [JNum True 1, JNum False 7, JNull]),
           (''buttons'', JArr [JBool True, JObj [(''pressed'', JBool True)], JNull])]"

lemma decoded_state_wellformed_witness:
  "\<exists>s. decode_state example_state_json = Inr s \<and> (\<forall>b \<in> set (Buttons s). Pressed b \<longrightarrow> 0 < fval (Value b))"
proof -
  have "parse_float True 1 = Inr (Fin True 1)" "parse_float False 7 = Inr (Fin False 7)"
    using of_mag_int [of 1 True] of_mag_int [of 7 False] by (simp_all add: parse_float_def)
  moreover have "UnmarshalButton (JBool True) = Inr \<lparr>Pressed = True, Value = f1\<rparr>"
    "UnmarshalButton JNull = Inr \<lparr>Pressed = False, Value = f0\<rparr>"
    "UnmarshalButton (JObj [(''pressed'', JBool True)]) = Inr \<lparr>Pressed = True, Value = f1\<rparr>"
    by (simp_all add: UnmarshalButton_def decode_button_member_def match_field_def Let_def clamp_def f64_eq_def)
  ultimately have "is_ok (decode_state example_state_json)"
    by (simp add: example_state_json_def decode_state_member_def match_field_def)
  then obtain s where "decode_state example_state_json = Inr s" by (cases "decode_state example_state_json") auto
  with decoded_state_wellformed [OF this] show ?thesis by blast
qed

end
