(* ===== verification/Gamepad_Mapper.thy ===== *)
theory Gamepad_Mapper
  imports Gamepad_State
begin

text \<open>
  \<open>internal/gamepad/mapper.go\<close>: from a gamepad state to the signals of one or several CAN
  command frames. A frame's signals are the Go map the code builds (\<open>go_map\<close>), its values
  booleans and floats.
\<close>

record CommandSignals =
  ControlCommand :: bool
  ControlValue :: f64

record CommandMap =
  cm_FrameID :: string
  cm_Signals :: "(string \<times> ctl_value) list"

record MultiMapOptions =
  BaseFrameID :: string
  SteerFrameID :: string
  TriggerFrameID :: string
  ButtonsFrameID :: string
  GamepadMsgFrameID :: string
  AllAxes0FrameID :: string
  AllAxes1FrameID :: string
  AllButtonsPressedFrameID :: string
  AllButtonsValue0FrameID :: string
  AllButtonsValue1FrameID :: string
  BaseControlCommandSignal :: string
  BaseControlValueSignal :: string
  SteerCommandSignal :: string
  SteerEnableSignal :: string
  TriggerBrakeSignal :: string
  TriggerThrottleSignal :: string
  ButtonsHornSignal :: string
  ButtonsLightSignal :: string
  ButtonsModeNextSignal :: string
  ButtonsModePrevSignal :: string

record Mapper =
  DeadZone :: f64
  MaxValue :: f64

definition NewMapper :: Mapper where
  "NewMapper = \<lparr>DeadZone = f64_of_rat (12 / 100), MaxValue = f64_of_int 100\<rparr>"

section \<open>Helpers\<close>

text \<open>\<open>math.Pow(10, digits)\<close> is exact for the one and three digits the program rounds to.\<close>

definition roundTo :: "f64 \<Rightarrow> int \<Rightarrow> f64" where
  "roundTo v digits =
     (if digits \<le> 0 then go_round v
      else let pow = f64_of_int (10 ^ nat digits) in go_round (v * pow) / pow)"

definition nameOrDefault :: "string \<Rightarrow> string \<Rightarrow> string" where
  "nameOrDefault name fallback = (if name = [] then fallback else name)"

definition buttonPressed :: "State \<Rightarrow> int \<Rightarrow> bool" where
  "buttonPressed s idx =
     (if idx < 0 \<or> int (length (Buttons s)) \<le> idx then False
      else Pressed (Buttons s ! nat idx))"

definition buttonValue :: "State \<Rightarrow> int \<Rightarrow> f64" where
  "buttonValue s idx =
     (if idx < 0 \<or> int (length (Buttons s)) \<le> idx then f0
      else clamp (Value (Buttons s ! nat idx)) f0 f1)"

text \<open>An axis clamped to \<open>[-1, 1]\<close>, zero when the state has no such axis.\<close>

definition axisValue :: "State \<Rightarrow> int \<Rightarrow> f64" where
  "axisValue s idx =
     (if 0 \<le> idx \<and> idx < int (length (Axes s)) then clamp (Axes s ! nat idx) (Fin True 1) f1
      else f0)"

definition axisToInt8Physical :: "go_platform \<Rightarrow> State \<Rightarrow> int \<Rightarrow> f64" where
  "axisToInt8Physical pl s idx =
     (let v = axisValue s idx in
      if f0 \<le> v
      then (let iv = sint (f64_to_int64 pl (go_round (v * f64_of_int 127)));
                iv = (if 127 < iv then 127 else iv)
            in f64_of_int iv)
      else (let iv = sint (f64_to_int64 pl (go_round (v * f64_of_int 128)));
                iv = (if iv < - 128 then - 128 else iv)
            in f64_of_int iv))"

section \<open>Signal maps\<close>

definition axis_name :: "nat \<Rightarrow> string" where
  "axis_name idx = ''Axis'' @ show_nat2 idx"

definition btn_p_name :: "nat \<Rightarrow> string" where
  "btn_p_name idx = ''Btn'' @ show_nat2 idx @ ''_P''"

definition btn_v_name :: "nat \<Rightarrow> string" where
  "btn_v_name idx = ''Btn'' @ show_nat2 idx @ ''_V''"

definition axisSignalMap :: "State \<Rightarrow> nat \<Rightarrow> nat \<Rightarrow> (string \<times> ctl_value) list" where
  "axisSignalMap s start count =
     go_map (map (\<lambda>i. let idx = start + i
                      in (axis_name idx, CNum (roundTo (axisValue s (int idx)) 3))) [0..<count])"

definition buttonPressedSignalMap :: "State \<Rightarrow> nat \<Rightarrow> nat \<Rightarrow> (string \<times> ctl_value) list" where
  "buttonPressedSignalMap s start count =
     go_map (map (\<lambda>i. let idx = start + i
                      in (btn_p_name idx, CBool (buttonPressed s (int idx)))) [0..<count])"

definition buttonValueSignalMap :: "State \<Rightarrow> nat \<Rightarrow> nat \<Rightarrow> (string \<times> ctl_value) list" where
  "buttonValueSignalMap s start count =
     go_map (map (\<lambda>i. let idx = start + i
                      in (btn_v_name idx, CNum (roundTo (buttonValue s (int idx)) 3))) [0..<count])"

definition gamepadMsgSignalMap :: "go_platform \<Rightarrow> State \<Rightarrow> (string \<times> ctl_value) list" where
  "gamepadMsgSignalMap pl s =
     go_map
       ([(''StickLX'', CNum (axisToInt8Physical pl s 0)),
         (''StickLY'', CNum (axisToInt8Physical pl s 1)),
         (''StickRX'', CNum (axisToInt8Physical pl s 2)),
         (''StickRY'', CNum (axisToInt8Physical pl s 3))] @
        map (\<lambda>i. (btn_p_name i, CBool (buttonPressed s (int i)))) [0..<16])"

section \<open>ToSignals and ToCommandMaps\<close>

definition ToSignals :: "Mapper \<Rightarrow> State \<Rightarrow> CommandSignals" where
  "ToSignals m s =
     (let throttle =
            (if 1 < length (Axes s)
             then (let v = clamp (Axes s ! 1) (Fin True 1) f1
                   in if DeadZone m \<le> \<bar>v\<bar> then - v * MaxValue m else f0)
             else f0);
          active = (if 0 < length (Buttons s) then Pressed (Buttons s ! 0) else False)
      in \<lparr>ControlCommand = active, ControlValue = roundTo throttle 1\<rparr>)"

text \<open>The local \<open>steer\<close> of \<open>ToCommandMaps\<close>.\<close>

definition steer_value :: "Mapper \<Rightarrow> State \<Rightarrow> f64" where
  "steer_value m s =
     (if 0 < length (Axes s)
      then (let v = clamp (Axes s ! 0) (Fin True 1) f1
            in if DeadZone m \<le> \<bar>v\<bar> then v * MaxValue m else f0)
      else f0)"

definition base_signals :: "Mapper \<Rightarrow> State \<Rightarrow> MultiMapOptions \<Rightarrow> (string \<times> ctl_value) list" where
  "base_signals m s opts =
     (let base = ToSignals m s in
      go_map
       [(nameOrDefault (BaseControlCommandSignal opts) ''ControlCommand'', CBool (ControlCommand base)),
        (nameOrDefault (BaseControlValueSignal opts) ''ControlValue'', CNum (ControlValue base))])"

definition steer_signals :: "Mapper \<Rightarrow> State \<Rightarrow> MultiMapOptions \<Rightarrow> (string \<times> ctl_value) list" where
  "steer_signals m s opts =
     go_map
       [(nameOrDefault (SteerCommandSignal opts) ''SteeringCommand'', CNum (roundTo (steer_value m s) 1)),
        (nameOrDefault (SteerEnableSignal opts) ''SteeringEnable'', CBool (buttonPressed s 2))]"

definition trigger_signals :: "Mapper \<Rightarrow> State \<Rightarrow> MultiMapOptions \<Rightarrow> (string \<times> ctl_value) list" where
  "trigger_signals m s opts =
     (let leftTrigger = buttonValue s 6 * MaxValue m; rightTrigger = buttonValue s 7 * MaxValue m in
      go_map
       [(nameOrDefault (TriggerBrakeSignal opts) ''BrakeCommand'', CNum (roundTo leftTrigger 1)),
        (nameOrDefault (TriggerThrottleSignal opts) ''ThrottleCommand'', CNum (roundTo rightTrigger 1))])"

definition buttons_signals :: "State \<Rightarrow> MultiMapOptions \<Rightarrow> (string \<times> ctl_value) list" where
  "buttons_signals s opts =
     go_map
       [(nameOrDefault (ButtonsHornSignal opts) ''HornCommand'', CBool (buttonPressed s 1)),
        (nameOrDefault (ButtonsLightSignal opts) ''LightToggle'', CBool (buttonPressed s 3)),
        (nameOrDefault (ButtonsModeNextSignal opts) ''ModeNext'', CBool (buttonPressed s 4)),
        (nameOrDefault (ButtonsModePrevSignal opts) ''ModePrevious'', CBool (buttonPressed s 5))]"

text \<open>\<open>if id != "" { results = append(results, CommandMap{FrameID: id, Signals: sigs}) }\<close>\<close>

definition frame_if :: "string \<Rightarrow> (string \<times> ctl_value) list \<Rightarrow> CommandMap list" where
  "frame_if fid sigs = (if fid \<noteq> [] then [\<lparr>cm_FrameID = fid, cm_Signals = sigs\<rparr>] else [])"

definition ToCommandMaps :: "go_platform \<Rightarrow> Mapper \<Rightarrow> State \<Rightarrow> MultiMapOptions \<Rightarrow> CommandMap list" where
  "ToCommandMaps pl m s opts =
     frame_if (BaseFrameID opts) (base_signals m s opts) @
     frame_if (SteerFrameID opts) (steer_signals m s opts) @
     frame_if (TriggerFrameID opts) (trigger_signals m s opts) @
     frame_if (ButtonsFrameID opts) (buttons_signals s opts) @
     frame_if (GamepadMsgFrameID opts) (gamepadMsgSignalMap pl s) @
     frame_if (AllAxes0FrameID opts) (axisSignalMap s 0 4) @
     frame_if (AllAxes1FrameID opts) (axisSignalMap s 4 4) @
     frame_if (AllButtonsPressedFrameID opts) (buttonPressedSignalMap s 0 16) @
     frame_if (AllButtonsValue0FrameID opts) (buttonValueSignalMap s 0 8) @
     frame_if (AllButtonsValue1FrameID opts) (buttonValueSignalMap s 8 8)"

section \<open>Names\<close>

lemma distinct_stick_btn_names:
  "distinct ([''StickLX'', ''StickLY'', ''StickRX'', ''StickRY''] @ map btn_p_name [0..<16])"
  by code_simp

lemma distinct_axis_names: "distinct (map axis_name [0..<8])"
  by code_simp

lemma distinct_btn_v_names: "distinct (map btn_v_name [0..<16])"
  by code_simp

section \<open>Bounds\<close>

lemma axisValue_within: "state_ok s \<Longrightarrow> fin_within 1 (axisValue s idx)"
  by (auto simp: axisValue_def state_ok_def list_all_length intro!: clamp_sym_unit)

lemma buttonValue_within: "state_ok s \<Longrightarrow> fin_within 1 (buttonValue s idx)"
  by (auto simp: buttonValue_def state_ok_def list_all_length button_ok_fin intro!: clamp_unit)

text \<open>Rounding to decimal digits keeps a bound that is an integer.\<close>

lemma roundTo_within:
  assumes x: "fin_within (of_int k) x" and k: "0 < k" "k * 10 ^ nat d \<le> 2 ^ 53" and d: "0 < d"
  shows "fin_within (of_int k) (roundTo x d)"
proof -
  let ?p = "10 ^ nat d :: int"
  have p: "1 \<le> ?p" by simp
  have kp: "0 \<le> k * ?p" using k(1) by simp
  have "k * 1 \<le> k * ?p" using k(1) p by (intro mult_left_mono) simp_all
  then have k53: "k \<le> 2 ^ 53" using k(2) by linarith
  have "1 * ?p \<le> k * ?p" using k(1) p by (intro mult_right_mono) simp_all
  then have p53: "?p \<le> 2 ^ 53" using k(2) by linarith
  have pow: "f64_of_int ?p = Fin False (of_int ?p)"
    using f64_of_int_exact [of ?p] p p53 by simp
  have "fin_within (of_int ?p) (Fin False (of_int ?p))"
    using p p53 rnd_of_int [of ?p] by (auto simp: fin_within_def)
  then have "fin_within (of_int (k * ?p)) (x * Fin False (of_int ?p))"
    using representable_of_int [OF kp k(2)] fin_within_mult [OF x, of "of_int ?p"] by simp
  then have "fin_within (of_int (k * ?p)) (go_round (x * Fin False (of_int ?p)))"
    using k(2) by (rule fin_within_round)
  then have "fin_within (of_int k) (go_round (x * Fin False (of_int ?p)) / Fin False (of_int ?p))"
    by (rule fin_within_divide) (use p k(1) k53 representable_of_int in auto)
  then show ?thesis using d pow by (simp add: roundTo_def Let_def)
qed

text \<open>The scale of a mapper: a positive integer small enough for exact tenths.\<close>

definition scale_ok :: "Mapper \<Rightarrow> int \<Rightarrow> bool" where
  "scale_ok m k \<longleftrightarrow> MaxValue m = f64_of_int k \<and> 0 < k \<and> k * 10 \<le> 2 ^ 53"

lemma scale_ok_NewMapper [simp]: "scale_ok NewMapper 100"
  by (simp add: scale_ok_def NewMapper_def)

lemma scale_within:
  assumes "scale_ok m k"
  shows "fin_within (of_int k) (MaxValue m)" and "representable (of_int k)"
    and "fin_within (of_int k) f0"
  using assms f64_of_int_exact [of k] rnd_of_int [of k] representable_of_int [of k]
  by (auto simp: scale_ok_def fin_within_def)

lemma scaled_within:
  assumes "scale_ok m k" "fin_within 1 v"
  shows "fin_within (of_int k) (v * MaxValue m)"
  using fin_within_mult [OF assms(2) scale_within(1) [OF assms(1)]] scale_within(2) [OF assms(1)]
  by simp

lemma rounded_within:
  "scale_ok m k \<Longrightarrow> fin_within (of_int k) x \<Longrightarrow> fin_within (of_int k) (roundTo x 1)"
  by (rule roundTo_within) (auto simp: scale_ok_def)

lemma ControlValue_within:
  assumes "scale_ok m k" "state_ok s"
  shows "fin_within (of_int k) (ControlValue (ToSignals m s))"
proof -
  have "fin_within 1 (clamp (Axes s ! 1) (Fin True 1) f1)" if "1 < length (Axes s)"
    using assms(2) that by (auto simp: state_ok_def list_all_length intro!: clamp_sym_unit)
  then show ?thesis using assms(1)
    by (auto simp: ToSignals_def Let_def
        intro!: rounded_within scaled_within fin_within_uminus scale_within)
qed

lemma steer_within:
  assumes "scale_ok m k" "state_ok s"
  shows "fin_within (of_int k) (steer_value m s)"
proof -
  have "fin_within 1 (clamp (Axes s ! 0) (Fin True 1) f1)" if "0 < length (Axes s)"
    using assms(2) that by (auto simp: state_ok_def list_all_length intro!: clamp_sym_unit)
  then show ?thesis using assms(1)
    by (auto simp: steer_value_def Let_def intro!: scaled_within scale_within)
qed

lemma roundTo3_within: "fin_within 1 x \<Longrightarrow> fin_within 1 (roundTo x 3)"
  using roundTo_within [of 1 x 3] by simp

section \<open>Sticks as signed bytes\<close>

text \<open>The integer a stick position \<open>q\<close> is sent as.\<close>

definition stick_int :: "rat \<Rightarrow> int" where
  "stick_int q = (if 0 \<le> q then \<lfloor>rnd (q * 127) + 1 / 2\<rfloor> else - \<lfloor>rnd (- q * 128) + 1 / 2\<rfloor>)"

lemma rnd_scaled:
  assumes "0 \<le> q" "q \<le> 1" "0 < n" "n \<le> 2 ^ 53"
  shows "0 \<le> \<lfloor>rnd (q * of_int n) + 1 / 2\<rfloor>" and "\<lfloor>rnd (q * of_int n) + 1 / 2\<rfloor> \<le> n"
proof -
  have "q * of_int n \<le> 1 * of_int n" using assms by (intro mult_right_mono) simp_all
  then have "rnd (q * of_int n) \<le> of_int n"
    using rnd_mono [of "q * of_int n" "of_int n"] rnd_of_int [of n] assms by simp
  then show "0 \<le> \<lfloor>rnd (q * of_int n) + 1 / 2\<rfloor>" and "\<lfloor>rnd (q * of_int n) + 1 / 2\<rfloor> \<le> n"
    using rnd_nonneg [of "q * of_int n"] by linarith+
qed

lemma stick_int_range: "\<bar>q\<bar> \<le> 1 \<Longrightarrow> - 128 \<le> stick_int q \<and> stick_int q \<le> 127"
  using rnd_scaled [of q 127] rnd_scaled [of "- q" 128]
  by (auto simp: stick_int_def abs_le_iff; linarith)

lemma stick_int_mono:
  assumes "p \<le> q" "\<bar>p\<bar> \<le> 1" "\<bar>q\<bar> \<le> 1"
  shows "stick_int p \<le> stick_int q"
proof -
  have pos: "\<lfloor>rnd (p * 127) + 1 / 2\<rfloor> \<le> \<lfloor>rnd (q * 127) + 1 / 2\<rfloor>"
    using rnd_mono [of "p * 127" "q * 127"] assms(1) by (intro floor_mono) simp
  have neg: "\<lfloor>rnd (- q * 128) + 1 / 2\<rfloor> \<le> \<lfloor>rnd (- p * 128) + 1 / 2\<rfloor>"
    using rnd_mono [of "- q * 128" "- p * 128"] assms(1) by (intro floor_mono) simp
  consider "0 \<le> p" | "q < 0" | "p < 0" "0 \<le> q" using assms(1) by linarith
  then show ?thesis
  proof cases
    case 1 then show ?thesis using pos assms(1) by (simp add: stick_int_def)
  next
    case 2 then show ?thesis using neg assms(1) by (simp add: stick_int_def)
  next
    case 3
    then have "0 \<le> \<lfloor>rnd (- p * of_int 128) + 1 / 2\<rfloor>" and "0 \<le> \<lfloor>rnd (q * of_int 127) + 1 / 2\<rfloor>"
      using assms(2,3) by (intro rnd_scaled; simp add: abs_le_iff)+
    then have "- \<lfloor>rnd (- p * 128) + 1 / 2\<rfloor> \<le> \<lfloor>rnd (q * 127) + 1 / 2\<rfloor>"
      unfolding of_int_numeral by linarith
    then show ?thesis using 3 by (simp add: stick_int_def)
  qed
qed

lemma stick_int_ends: "stick_int 1 = 127" "stick_int (- 1) = - 128" "stick_int 0 = 0"
  using rnd_of_int [of 127] rnd_of_int [of 128] by (simp_all add: stick_int_def floor_eq_iff)

lemma f64_to_int64_in_range:
  "f64_trunc x = Some i \<Longrightarrow> - (2 ^ 63) \<le> i \<Longrightarrow> i < 2 ^ 63 \<Longrightarrow> sint (f64_to_int64 pl x) = i"
  by (simp add: f64_to_int64_def signed_of_int signed_take_bit_int_eq_self)

lemma to_int64_round:
  assumes "\<lfloor>rnd q + 1 / 2\<rfloor> < 2 ^ 62"
  shows "sint (f64_to_int64 pl (go_round (Fin s (rnd q)))) =
     (if s then - \<lfloor>rnd q + 1 / 2\<rfloor> else \<lfloor>rnd q + 1 / 2\<rfloor>)"
proof -
  have "0 \<le> \<lfloor>rnd q + 1 / 2\<rfloor>" using rnd_nonneg [of q] by linarith
  with assms show ?thesis by (intro f64_to_int64_in_range) (simp_all, linarith+)
qed

lemma axisToInt8_eq:
  assumes "state_ok s"
  shows "axisToInt8Physical pl s i = f64_of_int (stick_int (fval (axisValue s i)))"
proof -
  obtain t v where v: "axisValue s i = Fin t v" "0 \<le> v" "v \<le> 1"
    using axisValue_within [OF assms, of i] by (auto simp: fin_within_def)
  have f: "f64_of_int 127 = Fin False 127" "f64_of_int 128 = Fin False 128"
    using f64_of_int_exact [of 127] f64_of_int_exact [of 128] by simp_all
  have m127: "\<And>t. Fin t v * Fin False 127 = Fin t (rnd (v * 127))"
    and m128: "\<And>t. Fin t v * Fin False 128 = Fin t (rnd (v * 128))"
    using v by (auto simp: times_f64_def intro!: of_mag_small)
  have r127: "0 \<le> \<lfloor>rnd (v * 127) + 1 / 2\<rfloor>" "\<lfloor>rnd (v * 127) + 1 / 2\<rfloor> \<le> 127"
    and r128: "0 \<le> \<lfloor>rnd (v * 128) + 1 / 2\<rfloor>" "\<lfloor>rnd (v * 128) + 1 / 2\<rfloor> \<le> 128"
    using rnd_scaled [OF v(2,3), of 127] rnd_scaled [OF v(2,3), of 128] by simp_all
  have i127: "sint (f64_to_int64 pl (go_round (Fin t v * Fin False 127))) =
      (if t then - \<lfloor>rnd (v * 127) + 1 / 2\<rfloor> else \<lfloor>rnd (v * 127) + 1 / 2\<rfloor>)"
    unfolding m127 using r127 by (intro to_int64_round) simp
  have i128: "sint (f64_to_int64 pl (go_round (Fin t v * Fin False 128))) =
      (if t then - \<lfloor>rnd (v * 128) + 1 / 2\<rfloor> else \<lfloor>rnd (v * 128) + 1 / 2\<rfloor>)"
    unfolding m128 using r128 by (intro to_int64_round) simp
  have le: "f0 \<le> Fin t v \<longleftrightarrow> \<not> (t \<and> v \<noteq> 0)" using v(2) by auto
  have z: "stick_int 0 = 0" using rnd_of_int [of 0] by (simp add: stick_int_def floor_eq_iff)
  show ?thesis
    unfolding axisToInt8Physical_def Let_def v(1) f i127 i128 le
    using v(2) r127 r128 z by (simp add: stick_int_def)
qed

lemma axisToInt8_within:
  assumes "state_ok s"
  shows "fin_within 128 (axisToInt8Physical pl s i)"
proof -
  have "\<bar>stick_int (fval (axisValue s i))\<bar> \<le> 128"
    using stick_int_range [OF fin_within_fval [OF axisValue_within [OF assms, of i]]] by auto
  then show ?thesis
    using f64_of_int_exact [of "stick_int (fval (axisValue s i))"]
      rnd_of_int [of "\<bar>stick_int (fval (axisValue s i))\<bar>"]
    by (auto simp: axisToInt8_eq [OF assms] fin_within_def)
qed

section \<open>Frames\<close>

definition option_ids :: "MultiMapOptions \<Rightarrow> string list" where
  "option_ids opts =
     [BaseFrameID opts, SteerFrameID opts, TriggerFrameID opts, ButtonsFrameID opts,
      GamepadMsgFrameID opts, AllAxes0FrameID opts, AllAxes1FrameID opts,
      AllButtonsPressedFrameID opts, AllButtonsValue0FrameID opts, AllButtonsValue1FrameID opts]"

lemma frame_if_ids [simp]: "map cm_FrameID (frame_if i sigs) = filter (\<lambda>i. i \<noteq> []) [i]"
  by (simp add: frame_if_def)

lemma set_frame_if: "f \<in> set (frame_if i sigs) \<longleftrightarrow> i \<noteq> [] \<and> f = \<lparr>cm_FrameID = i, cm_Signals = sigs\<rparr>"
  by (auto simp: frame_if_def)

lemma ToCommandMaps_ids:
  "map cm_FrameID (ToCommandMaps pl m s opts) = filter (\<lambda>i. i \<noteq> []) (option_ids opts)"
  by (simp add: ToCommandMaps_def option_ids_def)

text \<open>The ten signal maps a state gives.\<close>

definition signal_maps :: "go_platform \<Rightarrow> Mapper \<Rightarrow> State \<Rightarrow> MultiMapOptions \<Rightarrow> (string \<times> ctl_value) list list" where
  "signal_maps pl m s opts =
     [base_signals m s opts, steer_signals m s opts, trigger_signals m s opts, buttons_signals s opts,
      gamepadMsgSignalMap pl s, axisSignalMap s 0 4, axisSignalMap s 4 4,
      buttonPressedSignalMap s 0 16, buttonValueSignalMap s 0 8, buttonValueSignalMap s 8 8]"

lemma ToCommandMaps_signals:
  "f \<in> set (ToCommandMaps pl m s opts) \<Longrightarrow> cm_Signals f \<in> set (signal_maps pl m s opts)"
  by (auto simp: ToCommandMaps_def signal_maps_def set_frame_if)

lemma ToCommandMaps_nonempty_id: "f \<in> set (ToCommandMaps pl m s opts) \<Longrightarrow> cm_FrameID f \<noteq> []"
  by (auto simp: ToCommandMaps_def set_frame_if)

lemmas signal_map_defs =
  base_signals_def steer_signals_def trigger_signals_def buttons_signals_def gamepadMsgSignalMap_def
  axisSignalMap_def buttonPressedSignalMap_def buttonValueSignalMap_def

lemma signal_maps_distinct: "\<forall>sigs \<in> set (signal_maps pl m s opts). distinct (map fst sigs)"
  by (simp add: signal_maps_def signal_map_defs Let_def go_map_distinct)

text \<open>A value JSON can carry: a boolean, or a finite number within a bound.\<close>

fun ctl_within :: "rat \<Rightarrow> ctl_value \<Rightarrow> bool" where
  "ctl_within c (CBool b) = True"
| "ctl_within c (CNum x) = fin_within c x"

lemma ctl_within_mono: "ctl_within c v \<Longrightarrow> c \<le> d \<Longrightarrow> ctl_within d v"
  by (cases v) (auto intro: fin_within_mono)

lemma triggers_within:
  assumes "scale_ok m k" "state_ok s"
  shows "fin_within (of_int k) (roundTo (buttonValue s i * MaxValue m) 1)"
  using assms by (intro rounded_within scaled_within buttonValue_within) auto

definition values_within :: "rat \<Rightarrow> (string \<times> ctl_value) list \<Rightarrow> bool" where
  "values_within c kvs \<longleftrightarrow> list_all (\<lambda>kv. ctl_within c (snd kv)) kvs"

lemma values_within_simps [simp]:
  "values_within c []"
  "values_within c (kv # kvs) \<longleftrightarrow> ctl_within c (snd kv) \<and> values_within c kvs"
  "values_within c (kvs @ lvs) \<longleftrightarrow> values_within c kvs \<and> values_within c lvs"
  "values_within c (map (\<lambda>i. (g i, v i)) ns) \<longleftrightarrow> list_all (\<lambda>i. ctl_within c (v i)) ns"
  by (simp_all add: values_within_def list.pred_map comp_def)

lemma go_map_values_within: "values_within c kvs \<Longrightarrow> values_within c (go_map kvs)"
  using set_go_map [of kvs] by (auto simp: values_within_def list_all_iff)

lemma values_within_mono: "values_within c kvs \<Longrightarrow> c \<le> d \<Longrightarrow> values_within d kvs"
  by (auto simp: values_within_def list_all_iff intro: ctl_within_mono)

lemma scaled_frames_within:
  assumes "scale_ok m k" "state_ok s"
  shows "values_within (of_int k) (base_signals m s opts)"
    and "values_within (of_int k) (steer_signals m s opts)"
    and "values_within (of_int k) (trigger_signals m s opts)"
    and "values_within c (buttons_signals s opts)"
  using ControlValue_within [OF assms] rounded_within [OF assms(1) steer_within [OF assms]]
    triggers_within [OF assms]
  by (auto simp: signal_map_defs Let_def intro!: go_map_values_within)

lemma raw_frames_within:
  assumes "state_ok s"
  shows "values_within 128 (gamepadMsgSignalMap pl s)"
    and "values_within 1 (axisSignalMap s a n)"
    and "values_within 1 (buttonValueSignalMap s a n)"
    and "values_within c (buttonPressedSignalMap s a n)"
  unfolding signal_map_defs Let_def
  by (intro go_map_values_within;
      simp add: list_all_iff axisToInt8_within roundTo3_within axisValue_within buttonValue_within assms)+

lemma signal_maps_within:
  assumes "scale_ok m k" "state_ok s" "sigs \<in> set (signal_maps pl m s opts)"
  shows "values_within (max (of_int k) 128) sigs"
proof -
  have "1 \<le> max (of_int k) (128 :: rat)" by simp
  note bounds = scaled_frames_within [OF assms(1,2), THEN values_within_mono]
    raw_frames_within [OF assms(2), THEN values_within_mono]
  from assms(3) show ?thesis
    unfolding signal_maps_def
    by (auto intro: bounds(1,2,3) bounds(4) [of 0] bounds(5,6,7) bounds(8) [of 0])
qed

text \<open>The signals of the message \<open>GAMEPAD_MSG\<close> by name.\<close>

lemma gamepadMsg_list:
  "gamepadMsgSignalMap pl s =
     [(''StickLX'', CNum (axisToInt8Physical pl s 0)),
      (''StickLY'', CNum (axisToInt8Physical pl s 1)),
      (''StickRX'', CNum (axisToInt8Physical pl s 2)),
      (''StickRY'', CNum (axisToInt8Physical pl s 3))] @
     map (\<lambda>i. (btn_p_name i, CBool (buttonPressed s (int i)))) [0..<16]"
  using distinct_stick_btn_names unfolding gamepadMsgSignalMap_def
  by (intro go_map_distinct) (simp add: comp_def)

lemma gamepadMsg_stick:
  assumes "i < 4"
  shows "map_of (gamepadMsgSignalMap pl s) ([''StickLX'', ''StickLY'', ''StickRX'', ''StickRY''] ! i) =
     Some (CNum (axisToInt8Physical pl s (int i)))"
proof -
  have "i = 0 \<or> i = 1 \<or> i = 2 \<or> i = 3" using assms by linarith
  then show ?thesis by (auto simp: gamepadMsg_list)
qed

lemma gamepadMsg_button:
  assumes "i < 16"
  shows "map_of (gamepadMsgSignalMap pl s) (btn_p_name i) = Some (CBool (buttonPressed s (int i)))"
proof -
  have "(btn_p_name i, CBool (buttonPressed s (int i))) \<in> set (gamepadMsgSignalMap pl s)"
    using assms unfolding gamepadMsg_list by auto
  moreover have "distinct (map fst (gamepadMsgSignalMap pl s))"
    by (simp add: gamepadMsgSignalMap_def)
  ultimately show ?thesis by simp
qed

text \<open>Inside the dead zone the two driven values are zero.\<close>

lemma dead_zone_steer:
  "0 < length (Axes s) \<Longrightarrow> \<not> DeadZone m \<le> \<bar>clamp (Axes s ! 0) (Fin True 1) f1\<bar> \<Longrightarrow> steer_value m s = f0"
  by (simp add: steer_value_def Let_def)

lemma roundTo_zero: "roundTo f0 1 = f0"
  using f64_of_int_exact [of 10] rnd_of_int [of 0] of_mag_small [of 0 False]
    floor_eq_iff [of "1 / 2 :: rat" 0]
  by (simp add: roundTo_def times_f64_def divide_f64_def)

lemma dead_zone_throttle:
  "1 < length (Axes s) \<Longrightarrow> \<not> DeadZone m \<le> \<bar>clamp (Axes s ! 1) (Fin True 1) f1\<bar> \<Longrightarrow>
   ControlValue (ToSignals m s) = f0"
  by (simp add: ToSignals_def Let_def roundTo_zero)

section \<open>Properties\<close>

definition example_state :: State where
  "example_state =
     \<lparr>Axes = [Fin False (1 / 4), Fin True 1, f_half, f1],
      Buttons = [\<lparr>Pressed = True, Value = f1\<rparr>, \<lparr>Pressed = False, Value = f0\<rparr>]\<rparr>"

definition example_platform :: go_platform where
  "example_platform = \<lparr>oor_int64 = (\<lambda>_. 0), oor_uint64 = (\<lambda>_. 0)\<rparr>"

lemma example_state_ok: "state_ok example_state"
proof -
  have "rnd (1 / 4) = 1 / 4" "rnd (1 / 2) = 1 / 2" by code_simp+
  then show ?thesis
    using rnd_of_int [of 1] rnd_of_int [of 0]
    by (simp add: state_ok_def example_state_def button_ok_def f64_limit_def)
qed

text \<open>
  C17 Stick bytes: the value sent for an axis is an integer between -128 and 127, it grows with the
  axis (across states and axes), and the ends and the centre of the axis go to 127, -128 and 0.
\<close>

theorem stick_byte_scale:
  assumes "state_ok s" "state_ok t" "fval (axisValue s i) \<le> fval (axisValue t j)"
  shows "fval (axisToInt8Physical pl s i) \<le> fval (axisToInt8Physical pl t j) \<and>
    (\<exists>n. axisToInt8Physical pl s i = f64_of_int n \<and> - 128 \<le> n \<and> n \<le> 127) \<and>
    (fval (axisValue s i) = 1 \<longrightarrow> fval (axisToInt8Physical pl s i) = 127) \<and>
    (fval (axisValue s i) = - 1 \<longrightarrow> fval (axisToInt8Physical pl s i) = - 128) \<and>
    (fval (axisValue s i) = 0 \<longrightarrow> fval (axisToInt8Physical pl s i) = 0)"
proof -
  have unit: "\<bar>fval (axisValue s i)\<bar> \<le> 1" "\<bar>fval (axisValue t j)\<bar> \<le> 1"
    using fin_within_fval [OF axisValue_within] assms(1,2) by blast+
  have val: "fval (f64_of_int n) = of_int n" if "- 128 \<le> n" "n \<le> 127" for n
    using f64_of_int_exact [of n] that by simp
  show ?thesis
    unfolding axisToInt8_eq [OF assms(1)] axisToInt8_eq [OF assms(2)]
    using stick_int_range [OF unit(1)] stick_int_range [OF unit(2)] stick_int_mono [OF assms(3) unit]
    by (auto simp: val stick_int_ends intro!: exI [of _ "stick_int (fval (axisValue s i))"])
qed

lemma stick_byte_scale_witness:
  "fval (axisToInt8Physical example_platform example_state 1) = - 128 \<and>
   fval (axisToInt8Physical example_platform example_state 1) \<le> fval (axisToInt8Physical example_platform example_state 3)"
proof -
  have "axisValue example_state 1 = Fin True 1" "axisValue example_state 3 = f1"
    by (simp_all add: axisValue_def example_state_def clamp_Fin)
  then show ?thesis
    using stick_byte_scale [OF example_state_ok example_state_ok, of 1 3 example_platform] by simp
qed



text \<open>
  C8 A decoded state gives one frame per configured frame identifier, in the fixed order of the ten
  kinds; in each frame the signal names are distinct and every value can be written as JSON.
\<close>

theorem command_frames:
  assumes "decode_state j = Inr s"
  shows "map cm_FrameID (ToCommandMaps pl NewMapper s opts) = filter (\<lambda>i. i \<noteq> []) (option_ids opts) \<and>
    (\<forall>cmd \<in> set (ToCommandMaps pl NewMapper s opts).
       distinct (map fst (cm_Signals cmd)) \<and> (\<forall>(n, v) \<in> set (cm_Signals cmd). is_ok (encode_value v)))"
proof -
  have enc: "is_ok (encode_value v)" if "ctl_within c v" for c v
    using that by (cases v) (auto simp: encode_value_ok simp del: encode_value.simps intro: fin_within_imp_fin)
  have "distinct (map fst (cm_Signals cmd)) \<and> (\<forall>kv \<in> set (cm_Signals cmd). is_ok (encode_value (snd kv)))"
    if "cmd \<in> set (ToCommandMaps pl NewMapper s opts)" for cmd
  proof
    note sigs = ToCommandMaps_signals [OF that]
    show "distinct (map fst (cm_Signals cmd))" using sigs signal_maps_distinct by blast
    have "\<forall>kv \<in> set (cm_Signals cmd). ctl_within (max (of_int 100) 128) (snd kv)"
      using signal_maps_within [OF scale_ok_NewMapper decode_state_ok [OF assms] sigs]
      unfolding values_within_def list_all_iff .
    then show "\<forall>kv \<in> set (cm_Signals cmd). is_ok (encode_value (snd kv))" using enc by blast
  qed
  then show ?thesis using ToCommandMaps_ids by (simp add: case_prod_beta')
qed

lemma command_frames_witness:
  "\<exists>s. decode_state (JObj [(''axes'', JArr [JNull])]) = Inr s \<and>
     (\<forall>opts. map cm_FrameID (ToCommandMaps example_platform NewMapper s opts) =
        filter (\<lambda>i. i \<noteq> []) (option_ids opts))"
proof -
  have "decode_state (JObj [(''axes'', JArr [JNull])]) = Inr \<lparr>Axes = [f0], Buttons = []\<rparr>"
    by (simp add: decode_state_member_def match_field_def)
  with command_frames [OF this, of example_platform] show ?thesis by blast
qed

end
