(* ===== verification/Gamepad_Config.thy ===== *)
theory Gamepad_Config
  imports Gamepad_Mapper
begin

text \<open>
  \<open>internal/gamepad/mapping_config.go\<close>: the frame identifiers and signal names of a YAML file.
  Reading the file and the YAML decoder into the struct are parameters. The anonymous structs
  nested in \<open>fileMapping\<close> are flattened: \<open>fm_\<close>, the section, the field.
\<close>

record fileMapping =
  fm_base_FrameID :: string
  fm_base_ControlCommand :: string
  fm_base_ControlValue :: string
  fm_steer_FrameID :: string
  fm_steer_SteeringCommand :: string
  fm_steer_SteeringEnable :: string
  fm_trigger_FrameID :: string
  fm_trigger_BrakeCommand :: string
  fm_trigger_ThrottleCommand :: string
  fm_buttons_FrameID :: string
  fm_buttons_HornCommand :: string
  fm_buttons_LightToggle :: string
  fm_buttons_ModeNext :: string
  fm_buttons_ModePrevious :: string
  fm_GamepadMsgFrameID :: string
  fm_Axes0FrameID :: string
  fm_Axes1FrameID :: string
  fm_ButtonsPressedFrameID :: string
  fm_ButtonsValue0FrameID :: string
  fm_ButtonsValue1FrameID :: string

definition options_of :: "fileMapping \<Rightarrow> MultiMapOptions" where
  "options_of cfg =
     \<lparr>BaseFrameID = trim_space (fm_base_FrameID cfg),
      SteerFrameID = trim_space (fm_steer_FrameID cfg),
      TriggerFrameID = trim_space (fm_trigger_FrameID cfg),
      ButtonsFrameID = trim_space (fm_buttons_FrameID cfg),
      GamepadMsgFrameID = trim_space (fm_GamepadMsgFrameID cfg),
      AllAxes0FrameID = trim_space (fm_Axes0FrameID cfg),
      AllAxes1FrameID = trim_space (fm_Axes1FrameID cfg),
      AllButtonsPressedFrameID = trim_space (fm_ButtonsPressedFrameID cfg),
      AllButtonsValue0FrameID = trim_space (fm_ButtonsValue0FrameID cfg),
      AllButtonsValue1FrameID = trim_space (fm_ButtonsValue1FrameID cfg),
      BaseControlCommandSignal = trim_space (fm_base_ControlCommand cfg),
      BaseControlValueSignal = trim_space (fm_base_ControlValue cfg),
      SteerCommandSignal = trim_space (fm_steer_SteeringCommand cfg),
      SteerEnableSignal = trim_space (fm_steer_SteeringEnable cfg),
      TriggerBrakeSignal = trim_space (fm_trigger_BrakeCommand cfg),
      TriggerThrottleSignal = trim_space (fm_trigger_ThrottleCommand cfg),
      ButtonsHornSignal = trim_space (fm_buttons_HornCommand cfg),
      ButtonsLightSignal = trim_space (fm_buttons_LightToggle cfg),
      ButtonsModeNextSignal = trim_space (fm_buttons_ModeNext cfg),
      ButtonsModePrevSignal = trim_space (fm_buttons_ModePrevious cfg)\<rparr>"

definition LoadMultiMapOptionsFromYAML ::
  "(string \<Rightarrow> string result) \<Rightarrow> (string \<Rightarrow> fileMapping result) \<Rightarrow> string \<Rightarrow> MultiMapOptions result" where
  "LoadMultiMapOptionsFromYAML read_file yaml path =
     bind_result (read_file path) (\<lambda>data.
       case yaml data of
         Inl err \<Rightarrow> Inl (Wrap ''failed to parse map config: '' err)
       | Inr cfg \<Rightarrow> Inr (options_of cfg))"

text \<open>The identifiers of a loaded mapping carry no white space around them.\<close>

lemma option_ids_trimmed:
  "i \<in> set (option_ids (options_of cfg)) \<Longrightarrow> trim_space i = i"
  by (auto simp: option_ids_def options_of_def trim_space_idem)

lemma LoadMultiMapOptions_Inr:
  "LoadMultiMapOptionsFromYAML rf yaml path = Inr opts \<longleftrightarrow>
     (\<exists>data cfg. rf path = Inr data \<and> yaml data = Inr cfg \<and> opts = options_of cfg)"
proof -
  have "(case r of Inl err \<Rightarrow> Inl (Wrap m err) | Inr cfg \<Rightarrow> Inr (options_of cfg)) = Inr opts \<longleftrightarrow>
      (\<exists>cfg. r = Inr cfg \<and> opts = options_of cfg)" for r m
    by (cases r) auto
  then show ?thesis by (auto simp: LoadMultiMapOptionsFromYAML_def bind_result_eq_Inr)
qed

lemma loaded_ids_trimmed:
  "LoadMultiMapOptionsFromYAML rf yaml path = Inr opts \<Longrightarrow> i \<in> set (option_ids opts) \<Longrightarrow> trim_space i = i"
  by (auto simp: LoadMultiMapOptions_Inr option_ids_trimmed)

end
