(* ===== verification/Can_Dbc.thy ===== *)
theory Can_Dbc
  imports Go_Float
begin

text \<open>
  \<open>internal/canhandler/parser.go\<close>: the store of message descriptors built from a DBC file.
  The DBC parser and the descriptor types are the library \<open>go.einride.tech/can\<close>; the parser
  is the parameter \<open>dbc_lib\<close> (from a file's text to its definitions, plus the two methods of
  a message identifier the code calls), and the records below hold the fields the code reads
  and writes, at the widths it gives them.
\<close>

section \<open>What the DBC parser returns\<close>

record signal_def =
  sd_Name :: string
  sd_IsBigEndian :: bool
  sd_IsSigned :: bool
  sd_IsMultiplexerSwitch :: bool
  sd_IsMultiplexed :: bool
  sd_MultiplexerSwitch :: "64 word"
  sd_StartBit :: "64 word"
  sd_Size :: "64 word"
  sd_Factor :: f64
  sd_Offset :: f64
  sd_Minimum :: f64
  sd_Maximum :: f64
  sd_Unit :: string
  sd_Receivers :: "string list"

record message_def =
  md_Name :: string
  md_MessageID :: "32 word"
  md_Size :: "64 word"
  md_Transmitter :: string
  md_Signals :: "signal_def list"

datatype dbc_def =
    VersionDef string
  | MessageDef message_def
  | OtherDef

record dbc_lib =
  dbc_parse :: "string \<Rightarrow> dbc_def list result"
  to_can :: "32 word \<Rightarrow> 32 word"
  is_extended :: "32 word \<Rightarrow> bool"

section \<open>Descriptors and the store\<close>

record sig_desc =
  s_Name :: string
  s_IsBigEndian :: bool
  s_IsSigned :: bool
  s_IsMultiplexer :: bool
  s_IsMultiplexed :: bool
  s_MultiplexerValue :: "64 word"
  s_Start :: "8 word"
  s_Length :: "8 word"
  s_Scale :: f64
  s_Offset :: f64
  s_Min :: f64
  s_Max :: f64
  s_Unit :: string
  s_ReceiverNodes :: "string list"

record msg_desc =
  m_Name :: string
  m_ID :: "32 word"
  m_IsExtended :: bool
  m_Length :: "8 word"
  m_SenderNode :: string
  m_Signals :: "sig_desc list"

record DbcStore =
  Version :: string
  Msgs :: "32 word \<Rightarrow> msg_desc option"

text \<open>\<open>uint8(x)\<close> and \<open>uint(x)\<close> keep the low bits.\<close>

definition signal_of_def :: "signal_def \<Rightarrow> sig_desc" where
  "signal_of_def sd =
     \<lparr>s_Name = sd_Name sd,
      s_IsBigEndian = sd_IsBigEndian sd,
      s_IsSigned = sd_IsSigned sd,
      s_IsMultiplexer = sd_IsMultiplexerSwitch sd,
      s_IsMultiplexed = sd_IsMultiplexed sd,
      s_MultiplexerValue = sd_MultiplexerSwitch sd,
      s_Start = ucast (sd_StartBit sd),
      s_Length = ucast (sd_Size sd),
      s_Scale = sd_Factor sd,
      s_Offset = sd_Offset sd,
      s_Min = sd_Minimum sd,
      s_Max = sd_Maximum sd,
      s_Unit = sd_Unit sd,
      s_ReceiverNodes = sd_Receivers sd\<rparr>"

definition message_of_def :: "dbc_lib \<Rightarrow> message_def \<Rightarrow> msg_desc" where
  "message_of_def lib md =
     \<lparr>m_Name = md_Name md,
      m_ID = to_can lib (md_MessageID md),
      m_IsExtended = is_extended lib (md_MessageID md),
      m_Length = ucast (md_Size md),
      m_SenderNode = md_Transmitter md,
      m_Signals = map signal_of_def (md_Signals md)\<rparr>"

fun add_def :: "dbc_lib \<Rightarrow> dbc_def \<Rightarrow> DbcStore \<Rightarrow> DbcStore" where
  "add_def lib (VersionDef v) st = st\<lparr>Version := v\<rparr>"
| "add_def lib (MessageDef md) st =
     (let msg = message_of_def lib md in st\<lparr>Msgs := (Msgs st)(m_ID msg \<mapsto> msg)\<rparr>)"
| "add_def lib OtherDef st = st"

definition empty_store :: DbcStore where
  "empty_store = \<lparr>Version = [], Msgs = Map.empty\<rparr>"

text \<open>\<open>os.ReadFile\<close> is the parameter \<open>read_file\<close>.\<close>

definition ParseDbcFile :: "dbc_lib \<Rightarrow> (string \<Rightarrow> string result) \<Rightarrow> string \<Rightarrow> DbcStore result" where
  "ParseDbcFile lib read_file path =
     bind_result (read_file path) (\<lambda>datas.
     bind_result (dbc_parse lib datas) (\<lambda>defs.
       Inr (fold (add_def lib) defs empty_store)))"

section \<open>The store holds the last definition of each identifier\<close>

text \<open>The message definitions of a list that have a given CAN identifier, in order.\<close>

definition defs_with_id :: "dbc_lib \<Rightarrow> 32 word \<Rightarrow> dbc_def list \<Rightarrow> message_def list" where
  "defs_with_id lib i defs =
     [md. MessageDef md \<leftarrow> defs, to_can lib (md_MessageID md) = i]"

definition last_of :: "'a list \<Rightarrow> 'a option" where
  "last_of xs = (if xs = [] then None else Some (last xs))"

lemma last_of_simps [simp]:
  "last_of [] = None"
  "last_of [x] = Some x"
  "last_of (xs @ [x]) = Some x"
  by (simp_all add: last_of_def)

lemma last_of_append: "last_of (xs @ ys) = (if ys = [] then last_of xs else last_of ys)"
  by (simp add: last_of_def)

lemma m_ID_message_of_def [simp]: "m_ID (message_of_def lib md) = to_can lib (md_MessageID md)"
  by (simp add: message_of_def_def)

lemma defs_with_id_simps [simp]:
  "defs_with_id lib i [] = []"
  "defs_with_id lib i (xs @ ys) = defs_with_id lib i xs @ defs_with_id lib i ys"
  "defs_with_id lib i (VersionDef v # ds) = defs_with_id lib i ds"
  "defs_with_id lib i (OtherDef # ds) = defs_with_id lib i ds"
  "defs_with_id lib i (MessageDef md # ds) =
     (if to_can lib (md_MessageID md) = i then md # defs_with_id lib i ds else defs_with_id lib i ds)"
  by (simp_all add: defs_with_id_def)

lemma Msgs_fold_add_def:
  "Msgs (fold (add_def lib) defs st) i =
     (case last_of (defs_with_id lib i defs) of
        None \<Rightarrow> Msgs st i
      | Some md \<Rightarrow> Some (message_of_def lib md))"
proof (induction defs rule: rev_induct)
  case (snoc d defs)
  then show ?case by (cases d) (auto simp: Let_def last_of_append)
qed simp

lemma Version_fold_add_def:
  "Version (fold (add_def lib) defs st) =
     (case last_of [v. VersionDef v \<leftarrow> defs] of None \<Rightarrow> Version st | Some v \<Rightarrow> v)"
proof (induction defs rule: rev_induct)
  case (snoc d defs)
  then show ?case by (cases d) (auto simp: Let_def last_of_append)
qed simp

text \<open>Every message sits under its own identifier.\<close>

definition store_ok :: "DbcStore \<Rightarrow> bool" where
  "store_ok st \<longleftrightarrow> (\<forall>i m. Msgs st i = Some m \<longrightarrow> m_ID m = i)"

lemma store_ok_add_def: "store_ok st \<Longrightarrow> store_ok (add_def lib d st)"
  by (cases d) (auto simp: store_ok_def Let_def)

lemma store_ok_empty: "store_ok empty_store"
  by (simp add: store_ok_def empty_store_def)

lemma ParseDbcFile_store_ok: "ParseDbcFile lib rf path = Inr st \<Longrightarrow> store_ok st"
proof -
  assume "ParseDbcFile lib rf path = Inr st"
  then obtain defs where "st = fold (add_def lib) defs empty_store"
    by (auto simp: ParseDbcFile_def bind_result_eq_Inr)
  moreover have "store_ok s \<Longrightarrow> store_ok (fold (add_def lib) ds s)" for ds s
    by (induction ds arbitrary: s) (auto intro: store_ok_add_def)
  ultimately show ?thesis using store_ok_empty by blast
qed

section \<open>Properties\<close>

definition example_def :: "string \<Rightarrow> 32 word \<Rightarrow> message_def" where
  "example_def nm i = \<lparr>md_Name = nm, md_MessageID = i, md_Size = 8, md_Transmitter = ''ECU'', md_Signals = []\<rparr>"

definition example_dbc :: dbc_lib where
  "example_dbc =
     \<lparr>dbc_parse = (\<lambda>_. Inr [VersionDef ''1'', MessageDef (example_def ''A'' 7), OtherDef,
                            MessageDef (example_def ''B'' 0x80000007), VersionDef ''2'']),
      to_can = (\<lambda>i. take_bit 29 i), is_extended = (\<lambda>i. bit i 31)\<rparr>"



end
