(* ===== verification/App_Config.thy ===== *)
theory App_Config
  imports Go_Strings "HOL-Library.Word"
begin

text \<open>
  \<open>internal/cfg/config.go\<close>: the configuration structs, \<open>LoadConfig\<close> with the choice of the
  format by the file's extension, the defaults and the backward-compatible keys of
  \<open>normalize\<close>, and the environment overrides. Reading a file, the YAML and JSON decoders of
  the whole struct and \<open>os.Getenv\<close> (the empty string for a variable that is not set) are
  parameters.
\<close>

record SocketCanCfg =
  sc_Type :: string
  sc_Bitrate :: "32 word"
  sc_DbcPath :: string
  sc_DbcPathLegacy :: string
  sc_LatchFrameIDs :: "32 word list"

record MqttCfg =
  mc_Endpoint :: string
  mc_UserName :: string
  mc_Password :: string
  mc_UseTLS :: bool
  mc_CertPath :: string
  mc_CertFile :: string
  mc_ClientCert :: string
  mc_ClientKey :: string

record RabbitCfg =
  rc_Endpoint :: string
  rc_UserName :: string
  rc_Password :: string
  rc_Exchange :: string

record PublishCfg =
  pc_TopicPrefix :: string
  pc_IntervalMs :: int
  pc_IntervalMsTypo :: int

record SubscribeCfg =
  su_TopicPrefixes :: "string list"
  su_TopicPrefixesTypo :: "string list"

text \<open>\<open>BrokerCfg\<close> and \<open>GpsdCfg\<close> have one field each and \<open>TelemetryCfg\<close> two structs; they are flattened.\<close>

record AppCfg =
  SocketCAN :: "string \<Rightarrow> SocketCanCfg option"
  Mosquitto :: MqttCfg
  RabbitMQ :: RabbitCfg
  Broker_Type :: string
  Gpsd_Endpoint :: string
  Gpsdaemon_Endpoint :: string
  PublishMsgs :: PublishCfg
  SubscribeMsgs :: SubscribeCfg

section \<open>Environment overrides\<close>

text \<open>\<open>if v := os.Getenv(name); v != "" { field = v }\<close>, with and without \<open>TrimSpace\<close>.\<close>

definition env_or :: "(string \<Rightarrow> string) \<Rightarrow> string \<Rightarrow> string \<Rightarrow> string" where
  "env_or getenv name cur = (let v = getenv name in if v \<noteq> [] then v else cur)"

definition env_trim_or :: "(string \<Rightarrow> string) \<Rightarrow> string \<Rightarrow> string \<Rightarrow> string" where
  "env_trim_or getenv name cur = (let v = trim_space (getenv name) in if v \<noteq> [] then v else cur)"

definition env_mqtt :: "(string \<Rightarrow> string) \<Rightarrow> MqttCfg \<Rightarrow> MqttCfg" where
  "env_mqtt getenv mc =
     mc\<lparr>mc_Endpoint := env_trim_or getenv ''TELEMETRY_MQTT_ENDPOINT'' (mc_Endpoint mc),
        mc_UserName := env_or getenv ''TELEMETRY_MQTT_USERNAME'' (mc_UserName mc),
        mc_Password := env_or getenv ''TELEMETRY_MQTT_PASSWORD'' (mc_Password mc)\<rparr>"

definition env_rabbit :: "(string \<Rightarrow> string) \<Rightarrow> RabbitCfg \<Rightarrow> RabbitCfg" where
  "env_rabbit getenv rc =
     rc\<lparr>rc_Endpoint := env_trim_or getenv ''TELEMETRY_RABBITMQ_URL'' (rc_Endpoint rc),
        rc_UserName := env_or getenv ''TELEMETRY_RABBITMQ_USERNAME'' (rc_UserName rc),
        rc_Password := env_or getenv ''TELEMETRY_RABBITMQ_PASSWORD'' (rc_Password rc),
        rc_Exchange := env_trim_or getenv ''TELEMETRY_RABBITMQ_EXCHANGE'' (rc_Exchange rc)\<rparr>"

definition applyEnvOverrides :: "(string \<Rightarrow> string) \<Rightarrow> AppCfg \<Rightarrow> AppCfg" where
  "applyEnvOverrides getenv c =
     c\<lparr>Broker_Type := env_trim_or getenv ''TELEMETRY_BROKER_TYPE'' (Broker_Type c),
       Mosquitto := env_mqtt getenv (Mosquitto c),
       RabbitMQ := env_rabbit getenv (RabbitMQ c)\<rparr>"

section \<open>normalize\<close>

text \<open>The steps of \<open>normalize\<close>, one definition per block of the function.\<close>

definition norm_can :: "SocketCanCfg \<Rightarrow> SocketCanCfg" where
  "norm_can cc = (if sc_DbcPath cc = [] then cc\<lparr>sc_DbcPath := sc_DbcPathLegacy cc\<rparr> else cc)"

definition norm_mqtt :: "MqttCfg \<Rightarrow> MqttCfg" where
  "norm_mqtt mc = (if mc_CertPath mc = [] then mc\<lparr>mc_CertPath := mc_CertFile mc\<rparr> else mc)"

definition norm_interval :: "PublishCfg \<Rightarrow> PublishCfg" where
  "norm_interval pc =
     (let pc1 = (if pc_IntervalMs pc = 0 then pc\<lparr>pc_IntervalMs := pc_IntervalMsTypo pc\<rparr> else pc)
      in if pc_IntervalMs pc1 \<le> 0 then pc1\<lparr>pc_IntervalMs := 100\<rparr> else pc1)"

definition norm_topic_prefix :: "PublishCfg \<Rightarrow> PublishCfg" where
  "norm_topic_prefix pc =
     (if pc_TopicPrefix pc = [] then pc\<lparr>pc_TopicPrefix := ''state''\<rparr> else pc)"

definition norm_subscribe :: "SubscribeCfg \<Rightarrow> SubscribeCfg" where
  "norm_subscribe su =
     (let su1 = (if su_TopicPrefixes su = []
                 then su\<lparr>su_TopicPrefixes := su_TopicPrefixesTypo su\<rparr> else su)
      in if su_TopicPrefixes su1 = [] then su1\<lparr>su_TopicPrefixes := [''ctrl'']\<rparr> else su1)"

definition norm_exchange :: "RabbitCfg \<Rightarrow> RabbitCfg" where
  "norm_exchange rc = (if rc_Exchange rc = [] then rc\<lparr>rc_Exchange := ''amq.topic''\<rparr> else rc)"

definition normalize :: "(string \<Rightarrow> string) \<Rightarrow> AppCfg \<Rightarrow> AppCfg" where
  "normalize getenv c =
     (let c = c\<lparr>SocketCAN := map_option norm_can \<circ> SocketCAN c\<rparr>;
          c = c\<lparr>Mosquitto := norm_mqtt (Mosquitto c)\<rparr>;
          c = (if Gpsd_Endpoint c = [] then c\<lparr>Gpsd_Endpoint := Gpsdaemon_Endpoint c\<rparr> else c);
          c = c\<lparr>PublishMsgs := norm_topic_prefix (norm_interval (PublishMsgs c))\<rparr>;
          c = c\<lparr>SubscribeMsgs := norm_subscribe (SubscribeMsgs c)\<rparr>;
          c = (if Broker_Type c = [] then c\<lparr>Broker_Type := ''mqtt''\<rparr> else c);
          c = c\<lparr>RabbitMQ := norm_exchange (RabbitMQ c)\<rparr>
      in applyEnvOverrides getenv c)"

section \<open>LoadConfig\<close>

text \<open>\<open>filepath.Ext\<close>: from the last dot of the last path element, empty when it has none.\<close>

fun ext_rev :: "string \<Rightarrow> string \<Rightarrow> string" where
  "ext_rev [] acc = []"
| "ext_rev (c # cs) acc =
     (if c = CHR ''/'' then [] else if c = CHR ''.'' then c # acc else ext_rev cs (c # acc))"

definition path_ext :: "string \<Rightarrow> string" where
  "path_ext p = ext_rev (rev p) []"

record cfg_env =
  ce_read_file :: "string \<Rightarrow> string result"
  ce_yaml :: "string \<Rightarrow> AppCfg result"
  ce_json :: "string \<Rightarrow> AppCfg result"
  ce_getenv :: "string \<Rightarrow> string"

definition LoadConfig :: "cfg_env \<Rightarrow> string \<Rightarrow> AppCfg result" where
  "LoadConfig env path =
     bind_result (ce_read_file env path) (\<lambda>f.
       let ext = to_lower (path_ext path) in
       bind_result
         (if ext = ''.yaml'' \<or> ext = ''.yml'' then ce_yaml env f
          else if ext = ''.json'' then ce_json env f
          else Inl (Err (''unsupported file extension: '' @ ext)))
         (\<lambda>cfg. Inr (normalize (ce_getenv env) cfg)))"

section \<open>What a loaded configuration satisfies\<close>

text \<open>The facts the rest of the program relies on: a positive interval, topics and a broker type.\<close>

definition cfg_ok :: "AppCfg \<Rightarrow> bool" where
  "cfg_ok c \<longleftrightarrow>
     0 < pc_IntervalMs (PublishMsgs c) \<and>
     pc_TopicPrefix (PublishMsgs c) \<noteq> [] \<and>
     su_TopicPrefixes (SubscribeMsgs c) \<noteq> [] \<and>
     Broker_Type c \<noteq> [] \<and>
     rc_Exchange (RabbitMQ c) \<noteq> [] \<and>
     (\<forall>k cc. SocketCAN c k = Some cc \<longrightarrow> sc_DbcPath cc = [] \<longrightarrow> sc_DbcPathLegacy cc = [])"

text \<open>Each field after \<open>normalize\<close>.\<close>

lemma normalize_sel [simp]:
  "SocketCAN (normalize g c) = map_option norm_can \<circ> SocketCAN c"
  "Mosquitto (normalize g c) = env_mqtt g (norm_mqtt (Mosquitto c))"
  "RabbitMQ (normalize g c) = env_rabbit g (norm_exchange (RabbitMQ c))"
  "Broker_Type (normalize g c) =
     env_trim_or g ''TELEMETRY_BROKER_TYPE'' (if Broker_Type c = [] then ''mqtt'' else Broker_Type c)"
  "Gpsd_Endpoint (normalize g c) =
     (if Gpsd_Endpoint c = [] then Gpsdaemon_Endpoint c else Gpsd_Endpoint c)"
  "Gpsdaemon_Endpoint (normalize g c) = Gpsdaemon_Endpoint c"
  "PublishMsgs (normalize g c) = norm_topic_prefix (norm_interval (PublishMsgs c))"
  "SubscribeMsgs (normalize g c) = norm_subscribe (SubscribeMsgs c)"
  "AppCfg.more (normalize g c) = AppCfg.more c"
  by (simp_all add: normalize_def Let_def applyEnvOverrides_def)

lemma env_sel [simp]:
  "mc_CertPath (env_mqtt g mc) = mc_CertPath mc"
  "mc_CertFile (env_mqtt g mc) = mc_CertFile mc"
  "mc_UseTLS (env_mqtt g mc) = mc_UseTLS mc"
  "rc_Exchange (env_rabbit g rc) = env_trim_or g ''TELEMETRY_RABBITMQ_EXCHANGE'' (rc_Exchange rc)"
  by (simp_all add: env_mqtt_def env_rabbit_def)

lemma norm_sel [simp]:
  "sc_DbcPath (norm_can cc) = (if sc_DbcPath cc = [] then sc_DbcPathLegacy cc else sc_DbcPath cc)"
  "sc_DbcPathLegacy (norm_can cc) = sc_DbcPathLegacy cc"
  "pc_TopicPrefix (norm_topic_prefix pc) = (if pc_TopicPrefix pc = [] then ''state'' else pc_TopicPrefix pc)"
  "pc_IntervalMs (norm_topic_prefix pc) = pc_IntervalMs pc"
  "pc_TopicPrefix (norm_interval pc) = pc_TopicPrefix pc"
  by (simp_all add: norm_can_def norm_topic_prefix_def norm_interval_def Let_def)

lemma norm_interval_pos: "0 < pc_IntervalMs (norm_interval pc)"
  by (simp add: norm_interval_def Let_def)

lemma norm_subscribe_nonempty: "su_TopicPrefixes (norm_subscribe su) \<noteq> []"
  by (simp add: norm_subscribe_def Let_def)

lemma env_or_nonempty: "cur \<noteq> [] \<Longrightarrow> env_or g n cur \<noteq> []"
  by (simp add: env_or_def Let_def)

lemma env_trim_or_nonempty: "cur \<noteq> [] \<Longrightarrow> env_trim_or g n cur \<noteq> []"
  by (simp add: env_trim_or_def Let_def)

lemma normalize_cfg_ok: "cfg_ok (normalize g c)"
  by (auto simp: cfg_ok_def norm_interval_pos norm_subscribe_nonempty norm_exchange_def
      intro!: env_trim_or_nonempty split: if_splits)

lemma env_or_idem: "env_or g n (env_or g n x) = env_or g n x"
  by (simp add: env_or_def Let_def)

lemma env_trim_or_idem: "env_trim_or g n (env_trim_or g n x) = env_trim_or g n x"
  by (simp add: env_trim_or_def Let_def)

lemma norm_idem [simp]:
  "norm_can (norm_can cc) = norm_can cc"
  "norm_mqtt (norm_mqtt mc) = norm_mqtt mc"
  "norm_topic_prefix (norm_topic_prefix pc) = norm_topic_prefix pc"
  "norm_subscribe (norm_subscribe su) = norm_subscribe su"
  "norm_exchange (norm_exchange rc) = norm_exchange rc"
  by (simp_all add: norm_can_def norm_mqtt_def norm_topic_prefix_def norm_subscribe_def
      norm_exchange_def Let_def)

lemma norm_publish_idem:
  "norm_topic_prefix (norm_interval (norm_topic_prefix (norm_interval pc)))
     = norm_topic_prefix (norm_interval pc)"
  by (simp add: norm_topic_prefix_def norm_interval_def Let_def)

lemma env_mqtt_idem: "env_mqtt g (norm_mqtt (env_mqtt g (norm_mqtt mc))) = env_mqtt g (norm_mqtt mc)"
  by (cases mc) (auto simp: env_mqtt_def norm_mqtt_def env_or_idem env_trim_or_idem)

lemma env_rabbit_idem:
  "env_rabbit g (norm_exchange (env_rabbit g (norm_exchange rc))) = env_rabbit g (norm_exchange rc)"
  by (cases rc)
     (auto simp: env_rabbit_def norm_exchange_def env_or_idem env_trim_or_idem env_trim_or_nonempty)

text \<open>Normalizing an already normalized configuration changes nothing.\<close>

lemma normalize_idem: "normalize g (normalize g c) = normalize g c"
  by (rule AppCfg.equality)
     (simp_all add: fun_eq_iff option.map_comp comp_def env_mqtt_idem env_rabbit_idem
       env_trim_or_idem env_trim_or_nonempty norm_publish_idem)

lemma LoadConfig_Inr:
  "LoadConfig env path = Inr c \<longleftrightarrow>
     (\<exists>f cfg. ce_read_file env path = Inr f \<and> c = normalize (ce_getenv env) cfg \<and>
       (to_lower (path_ext path) \<in> {''.yaml'', ''.yml''} \<and> ce_yaml env f = Inr cfg \<or>
        to_lower (path_ext path) = ''.json'' \<and> ce_json env f = Inr cfg))"
  by (auto simp: LoadConfig_def Let_def bind_result_eq_Inr split: if_splits)

section \<open>Properties\<close>

definition example_app_cfg :: AppCfg where
  "example_app_cfg =
     \<lparr>SocketCAN = [''can0'' \<mapsto> \<lparr>sc_Type = [], sc_Bitrate = 0, sc_DbcPath = [], sc_DbcPathLegacy = ''a.dbc'',
                                sc_LatchFrameIDs = []\<rparr>],
      Mosquitto = \<lparr>mc_Endpoint = [], mc_UserName = [], mc_Password = [], mc_UseTLS = False, mc_CertPath = [],
                   mc_CertFile = [], mc_ClientCert = [], mc_ClientKey = []\<rparr>,
      RabbitMQ = \<lparr>rc_Endpoint = [], rc_UserName = [], rc_Password = [], rc_Exchange = []\<rparr>,
      Broker_Type = [], Gpsd_Endpoint = [], Gpsdaemon_Endpoint = [],
      PublishMsgs = \<lparr>pc_TopicPrefix = [], pc_IntervalMs = 0, pc_IntervalMsTypo = - 5\<rparr>,
      SubscribeMsgs = \<lparr>su_TopicPrefixes = [], su_TopicPrefixesTypo = []\<rparr>\<rparr>"

definition example_cfg_env :: cfg_env where
  "example_cfg_env =
     \<lparr>ce_read_file = (\<lambda>_. Inr []), ce_yaml = (\<lambda>_. Inr example_app_cfg), ce_json = (\<lambda>_. Inl (Err [])),
      ce_getenv = (\<lambda>_. [])\<rparr>"



end
