(* ===== verification/Can_Handler.thy ===== *)
theory Can_Handler
  imports Can_Dbc App_Config "HOL-Library.Multiset"
begin

text \<open>
  \<open>internal/canhandler/handler.go\<close>: decoding a received frame into signals, encoding a
  command into a frame, sending, and the set-up of a SocketCAN interface.

  The descriptor methods and the bit setters of \<open>go.einride.tech/can\<close> are the parameter
  \<open>can_lib\<close>. A \<open>can.Data\<close> (an array of eight bytes) is a 64-bit word: byte \<open>i\<close> is its bits
  \<open>8 i\<close> to \<open>8 i + 7\<close>. Log output is not modelled.
\<close>

type_synonym can_data = "64 word"

record can_lib =
  UnmarshalPhysical :: "sig_desc \<Rightarrow> can_data \<Rightarrow> f64"
  FromPhysical :: "sig_desc \<Rightarrow> f64 \<Rightarrow> f64"
  MultiplexerSignal :: "msg_desc \<Rightarrow> sig_desc option"
  SetSignedBitsBigEndian :: "8 word \<Rightarrow> 8 word \<Rightarrow> 64 word \<Rightarrow> can_data \<Rightarrow> can_data"
  SetUnsignedBitsBigEndian :: "8 word \<Rightarrow> 8 word \<Rightarrow> 64 word \<Rightarrow> can_data \<Rightarrow> can_data"
  SetSignedBitsLittleEndian :: "8 word \<Rightarrow> 8 word \<Rightarrow> 64 word \<Rightarrow> can_data \<Rightarrow> can_data"
  SetUnsignedBitsLittleEndian :: "8 word \<Rightarrow> 8 word \<Rightarrow> 64 word \<Rightarrow> can_data \<Rightarrow> can_data"

record can_frame =
  f_ID :: "32 word"
  f_Length :: "8 word"
  f_Data :: can_data
  f_IsRemote :: bool
  f_IsExtended :: bool

record Signal =
  sig_Name :: string
  sig_Value :: f64
  sig_Unit :: string

record 't DecodeMsg =
  dm_TimeStamp :: 't
  dm_BusID :: string
  dm_FrameID :: "32 word"
  dm_Signals :: "Signal list"

text \<open>The three connection objects are kept as "not nil".\<close>

record Handler =
  h_ifName :: string
  h_sigDB :: "DbcStore option"
  h_conn :: bool
  h_rx :: bool
  h_tx :: bool

section \<open>ParseFrame\<close>

text \<open>One signal of the loop: skipped when it is multiplexed and not selected.\<close>

definition parse_signal ::
  "can_lib \<Rightarrow> go_platform \<Rightarrow> msg_desc \<Rightarrow> can_data \<Rightarrow> sig_desc \<Rightarrow> Signal option" where
  "parse_signal lib pl md d sd =
     (let decoded = Some \<lparr>sig_Name = s_Name sd, sig_Value = UnmarshalPhysical lib sd d,
                          sig_Unit = s_Unit sd\<rparr>
      in if s_IsMultiplexed sd
         then (case MultiplexerSignal lib md of
                 None \<Rightarrow> None
               | Some switch \<Rightarrow>
                   if f64_to_uint64 pl (UnmarshalPhysical lib switch d) \<noteq> s_MultiplexerValue sd
                   then None else decoded)
         else decoded)"

definition ParseFrame :: "can_lib \<Rightarrow> go_platform \<Rightarrow> Handler \<Rightarrow> can_frame \<Rightarrow> Signal list" where
  "ParseFrame lib pl h f =
     (case h_sigDB h of
        None \<Rightarrow> []
      | Some db \<Rightarrow>
          (case Msgs db (f_ID f) of
             None \<Rightarrow> []
           | Some md \<Rightarrow> List.map_filter (parse_signal lib pl md (f_Data f)) (m_Signals md)))"

section \<open>MakeFrame\<close>

text \<open>The integer handed to the setter: the physical value unscaled, its fraction dropped.\<close>

definition raw_of :: "can_lib \<Rightarrow> go_platform \<Rightarrow> sig_desc \<Rightarrow> f64 \<Rightarrow> 64 word" where
  "raw_of lib pl sd v =
     (let rawValueFloat = FromPhysical lib sd v
      in if s_IsSigned sd then f64_to_int64 pl rawValueFloat else f64_to_uint64 pl rawValueFloat)"

definition set_bits :: "can_lib \<Rightarrow> sig_desc \<Rightarrow> 64 word \<Rightarrow> can_data \<Rightarrow> can_data" where
  "set_bits lib sd w d =
     (if s_IsBigEndian sd
      then (if s_IsSigned sd
            then SetSignedBitsBigEndian lib (s_Start sd) (s_Length sd) w d
            else SetUnsignedBitsBigEndian lib (s_Start sd) (s_Length sd) w d)
      else (if s_IsSigned sd
            then SetSignedBitsLittleEndian lib (s_Start sd) (s_Length sd) w d
            else SetUnsignedBitsLittleEndian lib (s_Start sd) (s_Length sd) w d))"

definition write_signal ::
  "can_lib \<Rightarrow> go_platform \<Rightarrow> sig_desc \<Rightarrow> f64 \<Rightarrow> can_data \<Rightarrow> can_data" where
  "write_signal lib pl sd v d = set_bits lib sd (raw_of lib pl sd v) d"

text \<open>The two nested loops over the signal definitions and the signals of the message.\<close>

definition encode_signals ::
  "can_lib \<Rightarrow> go_platform \<Rightarrow> sig_desc list \<Rightarrow> Signal list \<Rightarrow> can_data \<Rightarrow> can_data" where
  "encode_signals lib pl defs sigs d =
     fold (\<lambda>sd. fold (\<lambda>sg d. if s_Name sd = sig_Name sg
                             then write_signal lib pl sd (sig_Value sg) d else d) sigs)
       defs d"

definition MakeFrame ::
  "can_lib \<Rightarrow> go_platform \<Rightarrow> Handler \<Rightarrow> 't DecodeMsg \<Rightarrow> can_frame result" where
  "MakeFrame lib pl h msg =
     (case h_sigDB h of
        None \<Rightarrow> Inl (Err (''no DBC file loaded. Cannot create frame for message with ID: ''
                         @ show_nat (unat (dm_FrameID msg))))
      | Some db \<Rightarrow>
          (case Msgs db (dm_FrameID msg) of
             None \<Rightarrow> Inl (Err (''no message definition found for frame ID: ''
                              @ show_nat (unat (dm_FrameID msg))))
           | Some md \<Rightarrow>
               Inr \<lparr>f_ID = dm_FrameID msg,
                    f_Length = 8,
                    f_Data = encode_signals lib pl (m_Signals md) (dm_Signals msg) 0,
                    f_IsRemote = False,
                    f_IsExtended = m_IsExtended md\<rparr>))"

text \<open>
  \<open>SendFrame\<close> with the transmitter's answer to a frame as the parameter \<open>tx\<close>: the frames it
  put on the bus, and its error.
\<close>

definition SendFrame ::
  "can_lib \<Rightarrow> go_platform \<Rightarrow> (can_frame \<Rightarrow> go_error option) \<Rightarrow> Handler \<Rightarrow> 't DecodeMsg
     \<Rightarrow> can_frame list \<times> go_error option" where
  "SendFrame lib pl tx h msg =
     (case MakeFrame lib pl h msg of
        Inl e \<Rightarrow> ([], Some e)
      | Inr frame \<Rightarrow>
          (case tx frame of
             Some e \<Rightarrow> ([], Some e)
           | None \<Rightarrow> ([frame], None)))"

text \<open>The message \<open>StartListening\<close> puts on the channel for a received frame, if any.\<close>

definition listen_msg ::
  "can_lib \<Rightarrow> go_platform \<Rightarrow> 't \<Rightarrow> Handler \<Rightarrow> can_frame \<Rightarrow> 't DecodeMsg option" where
  "listen_msg lib pl now h f =
     (let sigs = ParseFrame lib pl h f
      in if sigs = [] then None
         else Some \<lparr>dm_TimeStamp = now, dm_BusID = h_ifName h, dm_FrameID = f_ID f,
                    dm_Signals = sigs\<rparr>)"

section \<open>New and Close\<close>

text \<open>The calls \<open>New\<close> makes on the network device, the file system and the socket.\<close>

datatype can_op =
    NewDevice string
  | IsUp
  | SetBitrate "32 word"
  | SetUp
  | ParseDbc string
  | Dial string
  | CloseRx
  | CloseTx
  | CloseConn

record can_env =
  ce_device :: "go_error option"
  ce_isUp :: "bool result"
  ce_setBitrate :: "32 word \<Rightarrow> go_error option"
  ce_setUp :: "go_error option"
  ce_dial :: "go_error option"
  ce_dbc :: dbc_lib
  ce_file :: "string \<Rightarrow> string result"

definition bring_up :: "can_env \<Rightarrow> SocketCanCfg \<Rightarrow> (can_op, unit) traced" where
  "bring_up env cfg =
     bind_traced
       (if 0 < sc_Bitrate cfg
        then call (SetBitrate (sc_Bitrate cfg)) (err_or_unit (ce_setBitrate env (sc_Bitrate cfg)))
        else return ())
       (\<lambda>_. call SetUp (err_or_unit (ce_setUp env)))"

definition New :: "can_env \<Rightarrow> string \<Rightarrow> SocketCanCfg \<Rightarrow> (can_op, Handler) traced" where
  "New env ifName cfg =
     bind_traced (call (NewDevice ifName) (err_or_unit (ce_device env))) (\<lambda>_.
     bind_traced (call IsUp (ce_isUp env)) (\<lambda>isUp.
     bind_traced (if \<not> isUp then bring_up env cfg else return ()) (\<lambda>_.
     bind_traced
       (if sc_DbcPath cfg \<noteq> []
        then call (ParseDbc (sc_DbcPath cfg))
               (map_sum id Some (ParseDbcFile (ce_dbc env) (ce_file env) (sc_DbcPath cfg)))
        else return None) (\<lambda>sigDB.
     bind_traced (call (Dial ifName) (err_or_unit (ce_dial env))) (\<lambda>_.
       return \<lparr>h_ifName = ifName, h_sigDB = sigDB, h_conn = True, h_rx = True, h_tx = True\<rparr>)))))"

definition Close :: "Handler \<Rightarrow> can_op list" where
  "Close h =
     (if h_rx h then [CloseRx] else []) @
     (if h_tx h then [CloseTx] else []) @
     (if h_conn h then [CloseConn] else [])"

section \<open>The frame does not depend on the order of the signals\<close>

text \<open>
  The signals of a command come from a Go map, in an unspecified order, without repeated
  names. Then the inner loop writes each definition at most once.
\<close>

definition value_of :: "Signal list \<Rightarrow> string \<Rightarrow> f64 option" where
  "value_of sigs = map_of (map (\<lambda>sg. (sig_Name sg, sig_Value sg)) sigs)"

definition write_defs ::
  "(sig_desc \<Rightarrow> f64 \<Rightarrow> 'd \<Rightarrow> 'd) \<Rightarrow> (string \<Rightarrow> f64 option) \<Rightarrow> sig_desc list \<Rightarrow> 'd \<Rightarrow> 'd" where
  "write_defs wr val defs d =
     fold (\<lambda>sd d. case val (s_Name sd) of None \<Rightarrow> d | Some v \<Rightarrow> wr sd v d) defs d"

lemma inner_loop_distinct:
  "distinct (map sig_Name sigs) \<Longrightarrow>
   fold (\<lambda>sg d. if nm = sig_Name sg then wr (sig_Value sg) d else d) sigs d
     = (case value_of sigs nm of None \<Rightarrow> d | Some v \<Rightarrow> wr v d)"
proof (induction sigs arbitrary: d)
  case (Cons sg sigs)
  have "value_of sigs nm = None" if "nm = sig_Name sg"
    using Cons.prems that by (auto simp: value_of_def map_of_eq_None_iff)
  with Cons show ?case by (auto simp: value_of_def)
qed (simp add: value_of_def)

lemma encode_signals_distinct:
  "distinct (map sig_Name sigs) \<Longrightarrow>
   encode_signals lib pl defs sigs d = write_defs (write_signal lib pl) (value_of sigs) defs d"
  unfolding encode_signals_def write_defs_def
  by (intro fold_cong ext refl) (simp_all add: inner_loop_distinct)

lemma value_of_perm:
  assumes "mset sigs = mset sigs'" and "distinct (map sig_Name sigs)"
  shows "value_of sigs = value_of sigs'" and "distinct (map sig_Name sigs')"
proof -
  show d: "distinct (map sig_Name sigs')"
    using assms by (metis mset_map mset_eq_imp_distinct_iff)
  show "value_of sigs = value_of sigs'"
    unfolding value_of_def
    by (subst map_of_inject_set)
       (use assms(2) d mset_eq_setD [OF assms(1)] in \<open>simp_all add: comp_def\<close>)
qed

lemma MakeFrame_perm:
  assumes "mset (dm_Signals m) = mset (dm_Signals m')" "distinct (map sig_Name (dm_Signals m))"
    "dm_FrameID m = dm_FrameID m'"
  shows "MakeFrame lib pl h m = MakeFrame lib pl h m'"
  using value_of_perm [OF assms(1,2)] assms(2,3)
  by (simp add: MakeFrame_def encode_signals_distinct split: option.split)

section \<open>Properties\<close>

definition example_can_env :: can_env where
  "example_can_env =
     \<lparr>ce_device = None, ce_isUp = Inr False, ce_setBitrate = (\<lambda>_. None), ce_setUp = None, ce_dial = None,
      ce_dbc = example_dbc, ce_file = (\<lambda>_. Inr [])\<rparr>"

definition example_can_cfg :: SocketCanCfg where
  "example_can_cfg =
     \<lparr>sc_Type = ''can'', sc_Bitrate = 500000, sc_DbcPath = ''can0.dbc'', sc_DbcPathLegacy = [],
      sc_LatchFrameIDs = [7]\<rparr>"

text \<open>
  C29 \<open>New\<close> dials a CAN interface only as its last call, on the interface it was asked for, when
  the interface is up or was brought up (with the bit rate set before, if one is configured), and
  when the DBC file, if one is configured, was parsed.
\<close>

theorem dial_only_when_ready:
  assumes "Dial i \<in> set (fst (New env ifName cfg))"
  shows "i = ifName \<and> last (fst (New env ifName cfg)) = Dial ifName \<and>
    (ce_isUp env = Inr True \<or>
     ce_isUp env = Inr False \<and> ce_setUp env = None \<and>
       (0 < sc_Bitrate cfg \<longrightarrow> ce_setBitrate env (sc_Bitrate cfg) = None \<and>
          fst (New env ifName cfg) ! 2 = SetBitrate (sc_Bitrate cfg) \<and> fst (New env ifName cfg) ! 3 = SetUp)) \<and>
    (sc_DbcPath cfg \<noteq> [] \<longrightarrow> is_ok (ParseDbcFile (ce_dbc env) (ce_file env) (sc_DbcPath cfg)))"
proof -
  obtain "ce_device env = None" "is_ok (ce_isUp env)"
    using assms by (cases "ce_device env"; cases "ce_isUp env") (simp_all add: New_def)
  then obtain up where up: "ce_device env = None" "ce_isUp env = Inr up" by (cases "ce_isUp env") auto
  show ?thesis
    using assms up
    by (cases "ce_setUp env"; cases "ce_setBitrate env (sc_Bitrate cfg)"; cases "0 < sc_Bitrate cfg"; cases up;
        cases "sc_DbcPath cfg = []"; cases "ParseDbcFile (ce_dbc env) (ce_file env) (sc_DbcPath cfg)"; cases "ce_dial env")
       (simp_all add: New_def bring_up_def)
qed

lemma dial_only_when_ready_witness:
  "last (fst (New example_can_env ''can0'' example_can_cfg)) = Dial ''can0'' \<and>
   fst (New example_can_env ''can0'' example_can_cfg) ! 2 = SetBitrate 500000"
proof -
  have "Dial ''can0'' \<in> set (fst (New example_can_env ''can0'' example_can_cfg))"
    by (simp add: New_def bring_up_def example_can_env_def example_can_cfg_def ParseDbcFile_def example_dbc_def)
  from dial_only_when_ready [OF this] show ?thesis by (simp add: example_can_env_def example_can_cfg_def)
qed

end
