(* ===== verification/Mq_Command.thy ===== *)
theory Mq_Command
  imports Can_Handler Go_Json
begin

text \<open>
  \<open>internal/mq/topic.go\<close> and \<open>internal/mq/command_parser.go\<close>: topic names, and the conversion
  of a control command in JSON into the internal command.

  Parameters (\<open>cmd_env\<close>): the JSON reader from a payload to its syntax tree, the RFC 3339
  parser of package \<open>time\<close>, the clock, and the order in which Go ranges over a map, which the
  language leaves open (\<open>range_order\<close> returns a permutation of the entries).
\<close>

section \<open>BuildTopic\<close>

definition trim_slash :: "string \<Rightarrow> string" where
  "trim_slash = trim_chars (\<lambda>c. c = CHR ''/'')"

definition BuildTopic :: "string \<Rightarrow> string \<Rightarrow> string \<Rightarrow> string" where
  "BuildTopic direction deviceID pfx =
     (let d = trim_slash direction; dev = trim_slash deviceID; p = trim_slash pfx
      in if p = [] then ''/'' @ d @ ''/'' @ dev
         else ''/'' @ d @ ''/'' @ dev @ ''/'' @ p)"

lemma trim_slash_idem [simp]: "trim_slash (trim_slash s) = trim_slash s"
  by (simp add: trim_slash_def trim_chars_idem)

lemma trim_slash_ends: "trim_slash s \<noteq> [] \<Longrightarrow> hd (trim_slash s) \<noteq> CHR ''/'' \<and> last (trim_slash s) \<noteq> CHR ''/''"
  using hd_trim_chars [of "\<lambda>c. c = CHR ''/''" s] last_trim_chars [of "\<lambda>c. c = CHR ''/''" s]
  by (simp add: trim_slash_def)

section \<open>parseFrameID\<close>

definition parseFrameID :: "string \<Rightarrow> 32 word result" where
  "parseFrameID raw =
     (let s = trim_space raw
      in if s = [] then Inl (Err ''frame_id is empty'')
         else
           (let (base, s) = (if has_prefix (to_lower s) ''0x'' then (16, drop 2 s) else (10, s))
            in case parse_uint s base 32 of
                 Inl err \<Rightarrow> Inl (Wrap ''invalid frame_id: '' err)
               | Inr n \<Rightarrow> Inr (word_of_nat n)))"

section \<open>signalToFloat64\<close>

text \<open>A \<open>float32\<close> is a \<open>float64\<close> value already; integers are rounded to the nearest float.\<close>

fun signalToFloat64 :: "iface \<Rightarrow> f64 option" where
  "signalToFloat64 (IBool vv) = Some (if vv then f64_of_int 1 else f64_of_int 0)"
| "signalToFloat64 (IFloat64 vv) = Some vv"
| "signalToFloat64 (IFloat32 vv) = Some vv"
| "signalToFloat64 (IInt vv) = Some (f64_of_int (sint vv))"
| "signalToFloat64 (IInt8 vv) = Some (f64_of_int (sint vv))"
| "signalToFloat64 (IInt16 vv) = Some (f64_of_int (sint vv))"
| "signalToFloat64 (IInt32 vv) = Some (f64_of_int (sint vv))"
| "signalToFloat64 (IInt64 vv) = Some (f64_of_int (sint vv))"
| "signalToFloat64 (IUint vv) = Some (f64_of_int (uint vv))"
| "signalToFloat64 (IUint8 vv) = Some (f64_of_int (uint vv))"
| "signalToFloat64 (IUint16 vv) = Some (f64_of_int (uint vv))"
| "signalToFloat64 (IUint32 vv) = Some (f64_of_int (uint vv))"
| "signalToFloat64 (IUint64 vv) = Some (f64_of_int (uint vv))"
| "signalToFloat64 _ = None"

section \<open>ParseControlCommand\<close>

record controlCommandPayload =
  cp_Timestamp :: string
  cp_BusID :: string
  cp_FrameID :: string
  cp_Signals :: "(string \<times> iface) list"

definition empty_payload :: controlCommandPayload where
  "empty_payload = \<lparr>cp_Timestamp = [], cp_BusID = [], cp_FrameID = [], cp_Signals = []\<rparr>"

definition payload_fields :: "string list" where
  "payload_fields = [''Timestamp'', ''bus_id'', ''frame_id'', ''signals'']"

text \<open>One member of the JSON object, stored into the struct field its key selects.\<close>

definition decode_payload_member ::
  "string \<times> json \<Rightarrow> controlCommandPayload \<Rightarrow> controlCommandPayload result" where
  "decode_payload_member kv p =
     (case match_field payload_fields (fst kv) of
        None \<Rightarrow> Inr p
      | Some f \<Rightarrow>
          if f = ''Timestamp'' then
            bind_result (decode_string (cp_Timestamp p) (snd kv)) (\<lambda>s. Inr (p\<lparr>cp_Timestamp := s\<rparr>))
          else if f = ''bus_id'' then
            bind_result (decode_string (cp_BusID p) (snd kv)) (\<lambda>s. Inr (p\<lparr>cp_BusID := s\<rparr>))
          else if f = ''frame_id'' then
            bind_result (decode_string (cp_FrameID p) (snd kv)) (\<lambda>s. Inr (p\<lparr>cp_FrameID := s\<rparr>))
          else
            bind_result (decode_map (cp_Signals p) (snd kv)) (\<lambda>m. Inr (p\<lparr>cp_Signals := m\<rparr>)))"

fun decode_payload :: "json \<Rightarrow> controlCommandPayload result" where
  "decode_payload JNull = Inr empty_payload"
| "decode_payload (JObj ms) = fold_result decode_payload_member ms empty_payload"
| "decode_payload j = Inl type_error"

record 't cmd_env =
  json_read :: "string \<Rightarrow> json result"
  parse_rfc3339 :: "string \<Rightarrow> 't option"
  time_now :: 't
  range_order :: "(string \<times> iface) list \<Rightarrow> (string \<times> iface) list"

text \<open>The loop over the signals: the first value that is no number or boolean ends it.\<close>

fun convert_signals :: "(string \<times> iface) list \<Rightarrow> Signal list result" where
  "convert_signals [] = Inr []"
| "convert_signals ((key, val) # rest) =
     (case signalToFloat64 val of
        None \<Rightarrow> Inl (Err (''unsupported signal type for '' @ key))
      | Some converted \<Rightarrow>
          bind_result (convert_signals rest) (\<lambda>sigs.
            Inr (\<lparr>sig_Name = key, sig_Value = converted, sig_Unit = []\<rparr> # sigs)))"

definition ParseControlCommand :: "'t cmd_env \<Rightarrow> string \<Rightarrow> 't DecodeMsg result" where
  "ParseControlCommand env payload =
     bind_result (bind_result (json_read env payload) decode_payload) (\<lambda>inp.
     if trim_space (cp_BusID inp) = [] then Inl (Err ''bus_id is required'')
     else if trim_space (cp_FrameID inp) = [] then Inl (Err ''frame_id is required'')
     else
       bind_result (parseFrameID (cp_FrameID inp)) (\<lambda>frameID.
       let ts = (if cp_Timestamp inp \<noteq> []
                 then (case parse_rfc3339 env (cp_Timestamp inp) of
                         Some parsed \<Rightarrow> parsed
                       | None \<Rightarrow> time_now env)
                 else time_now env)
       in bind_result (convert_signals (range_order env (cp_Signals inp))) (\<lambda>signals.
            Inr \<lparr>dm_TimeStamp = ts, dm_BusID = cp_BusID inp, dm_FrameID = frameID,
                 dm_Signals = signals\<rparr>)))"

section \<open>Lemmas\<close>

lemma unat_word32_of_nat: "n < 2 ^ 32 \<Longrightarrow> unat (word_of_nat n :: 32 word) = n"
  by (simp add: unsigned_of_nat take_bit_nat_eq_self)

lemma parseFrameID_Inr:
  "parseFrameID raw = Inr w \<longleftrightarrow>
     (let s = trim_space raw; hex = has_prefix (to_lower s) ''0x''
      in s \<noteq> [] \<and>
         parse_uint (if hex then drop 2 s else s) (if hex then 16 else 10) 32 = Inr (unat w))"
proof -
  have "(case r of Inl err \<Rightarrow> Inl (Wrap m err) | Inr n \<Rightarrow> Inr (word_of_nat n)) = Inr w \<longleftrightarrow> r = Inr (unat w)"
    if "\<And>n. r = Inr n \<Longrightarrow> n < 2 ^ 32" for r m
    using that by (cases r) (auto simp: unat_word32_of_nat)
  from this [OF parse_uint_bound] show ?thesis
    by (simp add: parseFrameID_def Let_def)
qed

text \<open>The values the loop accepts, and what it makes of them.\<close>

lemma convert_signals_Inr:
  "convert_signals kvs = Inr sigs \<longleftrightarrow>
     list_all2 (\<lambda>(k, v) sg. signalToFloat64 v = Some (sig_Value sg) \<and> sig_Name sg = k \<and> sig_Unit sg = [])
       kvs sigs"
proof (induction kvs arbitrary: sigs)
  case (Cons kv kvs)
  obtain k v where kv: "kv = (k, v)" by (cases kv)
  show ?case
  proof (cases sigs)
    case Nil
    then show ?thesis by (auto simp: kv bind_result_eq_Inr split: option.splits)
  next
    case (Cons sg rest)
    then show ?thesis using Cons.IH
      by (cases sg) (auto simp: kv bind_result_eq_Inr split: option.splits)
  qed
qed auto

lemma convert_signals_ok:
  "is_ok (convert_signals kvs) \<longleftrightarrow> (\<forall>(k, v)\<in>set kvs. signalToFloat64 v \<noteq> None)"
proof (induction kvs)
  case (Cons kv kvs)
  then show ?case
    by (cases kv; cases "convert_signals kvs") (auto split: option.splits)
qed simp

lemma convert_signals_names:
  "convert_signals kvs = Inr sigs \<Longrightarrow> map sig_Name sigs = map fst kvs"
  by (induction kvs arbitrary: sigs) (auto simp: bind_result_eq_Inr split: option.splits)

lemma convert_signals_map:
  "convert_signals kvs = Inr sigs \<Longrightarrow>
   sigs = map (\<lambda>(k, v). \<lparr>sig_Name = k, sig_Value = the (signalToFloat64 v), sig_Unit = []\<rparr>) kvs"
  by (induction kvs arbitrary: sigs) (auto simp: bind_result_eq_Inr split: option.splits)

text \<open>The signals map has one entry per key.\<close>

lemma decode_map_distinct:
  "decode_map cur j = Inr m \<Longrightarrow> distinct (map fst cur) \<Longrightarrow> distinct (map fst m)"
  by (cases j) (auto intro: decode_members_distinct_keys)

lemma decode_payload_member_distinct:
  "decode_payload_member kv p = Inr q \<Longrightarrow> distinct (map fst (cp_Signals p)) \<Longrightarrow>
   distinct (map fst (cp_Signals q))"
  by (auto simp: decode_payload_member_def bind_result_eq_Inr split: option.splits if_splits
      intro: decode_map_distinct)

lemma decode_payload_distinct:
  assumes "decode_payload j = Inr p"
  shows "distinct (map fst (cp_Signals p))"
proof (cases j)
  case (JObj ms)
  with assms have "fold_result decode_payload_member ms empty_payload = Inr p" by simp
  then show ?thesis
    by (rule fold_result_invariant) (auto simp: empty_payload_def decode_payload_member_distinct)
qed (use assms in \<open>auto simp: empty_payload_def\<close>)

text \<open>An accepted command: every stage of the parser succeeded.\<close>

lemma ParseControlCommand_InrE:
  assumes "ParseControlCommand env payload = Inr msg"
  obtains j inp where
    "json_read env payload = Inr j" "decode_payload j = Inr inp"
    "trim_space (cp_BusID inp) \<noteq> []" "trim_space (cp_FrameID inp) \<noteq> []"
    "parseFrameID (cp_FrameID inp) = Inr (dm_FrameID msg)"
    "convert_signals (range_order env (cp_Signals inp)) = Inr (dm_Signals msg)"
    "dm_BusID msg = cp_BusID inp"
proof -
  from assms obtain j inp where "json_read env payload = Inr j" "decode_payload j = Inr inp"
    by (auto simp: ParseControlCommand_def bind_result_eq_Inr)
  moreover from this assms have "trim_space (cp_BusID inp) \<noteq> []" "trim_space (cp_FrameID inp) \<noteq> []"
    by (auto simp: ParseControlCommand_def split: if_splits)
  moreover from calculation assms obtain w sigs where
    "parseFrameID (cp_FrameID inp) = Inr w"
    "convert_signals (range_order env (cp_Signals inp)) = Inr sigs"
    "dm_BusID msg = cp_BusID inp" "dm_FrameID msg = w" "dm_Signals msg = sigs"
    by (auto simp: ParseControlCommand_def bind_result_eq_Inr Let_def)
  ultimately show thesis using that by simp
qed

lemma ParseControlCommand_eq:
  "json_read env payload = Inr j \<Longrightarrow> decode_payload j = Inr inp \<Longrightarrow>
   trim_space (cp_BusID inp) \<noteq> [] \<Longrightarrow> trim_space (cp_FrameID inp) \<noteq> [] \<Longrightarrow>
   parseFrameID (cp_FrameID inp) = Inr w \<Longrightarrow>
   convert_signals (range_order env (cp_Signals inp)) = Inr sigs \<Longrightarrow>
   \<exists>ts. ParseControlCommand env payload =
     Inr \<lparr>dm_TimeStamp = ts, dm_BusID = cp_BusID inp, dm_FrameID = w, dm_Signals = sigs\<rparr>"
  by (simp add: ParseControlCommand_def)

text \<open>Numerals are visible text, so trimming leaves them alone.\<close>

lemma visible_digit: "d < 16 \<Longrightarrow> visible (digit_char d)"
proof -
  have "list_all (\<lambda>d. visible (digit_char d)) [0..<16]" by code_simp
  then show "d < 16 \<Longrightarrow> visible (digit_char d)" by (simp add: list_all_iff)
qed

lemma show_base_digits: "1 < b \<Longrightarrow> b \<le> 16 \<Longrightarrow> c \<in> set (show_base b n) \<Longrightarrow> \<exists>d<b. c = digit_char d"
proof (induction b n rule: show_base.induct)
  case (1 b n)
  show ?case
  proof (cases "n < b")
    case True
    with "1.prems" show ?thesis by (auto simp: show_base.simps [of b n])
  next
    case False
    then have "c \<in> set (show_base b (n div b)) \<or> c = digit_char (n mod b)"
      using "1.prems" by (auto simp: show_base.simps [of b n])
    moreover have "n mod b < b" using "1.prems" by simp
    ultimately show ?thesis using "1.IH" "1.prems"(1,2) False by (metis not_le)
  qed
qed

lemma show_base_visible: "1 < b \<Longrightarrow> b \<le> 16 \<Longrightarrow> c \<in> set (show_base b n) \<Longrightarrow> visible c"
  by (frule (2) show_base_digits) (auto intro: visible_digit)

lemma trim_show_base: "1 < b \<Longrightarrow> b \<le> 16 \<Longrightarrow> trim_space (show_base b n) = show_base b n"
  by (intro trim_space_visible) (simp_all add: show_base_visible [of b _ n])

lemma trim_hex: "trim_space (''0x'' @ show_base 16 n) = ''0x'' @ show_base 16 n"
  using show_base_visible [of 16 _ n] by (intro trim_space_visible) (simp_all add: visible_def)

lemma decimal_no_0x: "\<not> has_prefix (to_lower (show_base 10 n)) ''0x''"
proof -
  have dig: "\<forall>c\<in>set (show_base 10 n). \<exists>d<10. c = digit_char d" using show_base_digits [of 10] by simp
  have d: "list_all (\<lambda>d. 48 \<le> (of_char (digit_char d) :: nat) \<and> (of_char (digit_char d) :: nat) \<le> 57) [0..<10]"
    by code_simp
  have low: "to_lower s = s" if "\<forall>c\<in>set s. \<exists>d<10. c = digit_char d" for s
    using that
  proof (induction s)
    case (Cons c s)
    then obtain k where k: "k < 10" "c = digit_char k" by auto
    have c: "48 \<le> (of_char c :: nat)" "(of_char c :: nat) \<le> 57"
      using d k by (auto simp: list_all_iff)
    then have "c \<noteq> CHR 0xC4" "c \<noteq> CHR 0xE2" by auto
    then show ?case using Cons c by (simp add: has_prefix_def Let_def)
  qed simp
  have "CHR ''x'' \<notin> set (show_base 10 n)"
  proof
    assume "CHR ''x'' \<in> set (show_base 10 n)"
    then obtain k where "k < 10" "CHR ''x'' = digit_char k" using dig by blast
    moreover from this have "(of_char (digit_char k) :: nat) \<le> 57" using d by (simp add: list_all_iff)
    moreover have "(of_char CHR ''x'' :: nat) = 120" by simp
    ultimately show False by simp
  qed
  then show ?thesis unfolding low [OF dig] by (auto simp: has_prefix_prefix prefix_def)
qed

lemma to_lower_0x: "has_prefix (to_lower (''0x'' @ s)) ''0x''" "has_prefix (to_lower (''0X'' @ s)) ''0x''"
proof -
  have "(char_of (120 :: nat) :: char) = CHR ''x''" by code_simp
  then show "has_prefix (to_lower (''0x'' @ s)) ''0x''" "has_prefix (to_lower (''0X'' @ s)) ''0x''"
    by (simp_all add: has_prefix_def Let_def)
qed

text \<open>The identifier of a numeral, printed either way.\<close>

lemma parseFrameID_decimal:
  "parseFrameID (show_base 10 n) =
     (if n < 2 ^ 32 then Inr (word_of_nat n) else Inl (Wrap ''invalid frame_id: '' (NumError ErrRange)))"
  using trim_show_base [of 10 n] decimal_no_0x [of n] parse_digits_show_base [of 10 n "2 ^ 32 - 1"]
    parse_digits_too_large [of 10 "2 ^ 32 - 1" n]
  by (auto simp: parseFrameID_def Let_def parse_uint_def)

lemma parseFrameID_hex:
  "parseFrameID (''0x'' @ show_base 16 n) =
     (if n < 2 ^ 32 then Inr (word_of_nat n) else Inl (Wrap ''invalid frame_id: '' (NumError ErrRange)))"
  using trim_hex [of n] to_lower_0x(1) [of "show_base 16 n"] parse_digits_show_base [of 16 n "2 ^ 32 - 1"]
    parse_digits_too_large [of 16 "2 ^ 32 - 1" n]
  by (auto simp: parseFrameID_def Let_def parse_uint_def)

section \<open>Properties\<close>

text \<open>A reader that returns a given document, for examples.\<close>

definition example_env :: "json \<Rightarrow> nat cmd_env" where
  "example_env j = \<lparr>json_read = (\<lambda>_. Inr j), parse_rfc3339 = (\<lambda>_. None), time_now = 0, range_order = id\<rparr>"

definition example_command :: json where
  "example_command =
     JObj [(''bus_id'', JStr ''can0''), (''frame_id'', JStr ''0x210''),
           (''signals'', JObj [(''ControlCommand'', JBool True), (''ControlValue'', JNum True (1 / 2))])]"

lemma example_decoded:
  "decode_payload example_command =
     Inr \<lparr>cp_Timestamp = [], cp_BusID = ''can0'', cp_FrameID = ''0x210'',
          cp_Signals = [(''ControlCommand'', IBool True), (''ControlValue'', IFloat64 (Fin True (1 / 2)))]\<rparr>"
proof -
  have "parse_float True (1 / 2) = Inr (Fin True (1 / 2))" by code_simp
  then show ?thesis
    by (simp add: example_command_def decode_payload_member_def match_field_def payload_fields_def
        empty_payload_def)
qed

lemma example_frame_id: "parseFrameID ''0x210'' = Inr 528"
proof -
  have "show_base 16 528 = ''210''" by code_simp
  then show ?thesis using parseFrameID_hex [of 528] by simp
qed

lemma example_bus: "trim_space ''can0'' \<noteq> []"
  by (subst trim_space_visible) (simp_all add: visible_def)

lemma convert_signals_perm:
  assumes "mset kvs = mset lvs" "convert_signals kvs = Inr sigs"
  obtains sigs' where "convert_signals lvs = Inr sigs'" "mset sigs' = mset sigs"
proof -
  have "is_ok (convert_signals lvs)"
    using assms convert_signals_ok [of kvs] convert_signals_ok [of lvs] mset_eq_setD [OF assms(1)]
    by (simp add: isl_def)
  then obtain sigs' where s: "convert_signals lvs = Inr sigs'" by (cases "convert_signals lvs") auto
  have "mset sigs' = mset sigs"
    unfolding convert_signals_map [OF s] convert_signals_map [OF assms(2)] mset_map assms(1) by simp
  with s show thesis by (rule that)
qed



text \<open>
  C20 The order in which Go ranges over the signals map does not matter: under any other order
  the payload is accepted too, and the frame built from it is the same.
\<close>

theorem range_order_irrelevant:
  assumes "\<And>kvs. mset (range_order env kvs) = mset kvs" "\<And>kvs. mset (ro kvs) = mset kvs"
    and "ParseControlCommand env payload = Inr msg"
  shows "\<exists>msg'. ParseControlCommand (env\<lparr>range_order := ro\<rparr>) payload = Inr msg' \<and>
    dm_BusID msg' = dm_BusID msg \<and> MakeFrame lib pl h msg' = MakeFrame lib pl h msg"
proof -
  obtain j inp where inp: "json_read env payload = Inr j" "decode_payload j = Inr inp"
    "trim_space (cp_BusID inp) \<noteq> []" "trim_space (cp_FrameID inp) \<noteq> []"
    "parseFrameID (cp_FrameID inp) = Inr (dm_FrameID msg)"
    "convert_signals (range_order env (cp_Signals inp)) = Inr (dm_Signals msg)"
    "dm_BusID msg = cp_BusID inp"
    by (rule ParseControlCommand_InrE [OF assms(3)])
  have perm: "mset (range_order env (cp_Signals inp)) = mset (ro (cp_Signals inp))" by (simp add: assms)
  obtain sigs where sigs: "convert_signals (ro (cp_Signals inp)) = Inr sigs" "mset sigs = mset (dm_Signals msg)"
    by (rule convert_signals_perm [OF perm inp(6)])
  let ?env = "env\<lparr>range_order := ro\<rparr>"
  obtain ts where msg': "ParseControlCommand ?env payload =
      Inr \<lparr>dm_TimeStamp = ts, dm_BusID = cp_BusID inp, dm_FrameID = dm_FrameID msg, dm_Signals = sigs\<rparr>"
    using ParseControlCommand_eq [of ?env payload j inp "dm_FrameID msg" sigs] inp sigs by auto
  have "mset (map sig_Name sigs) = mset (map fst (cp_Signals inp))"
    using assms(2) by (simp only: convert_signals_names [OF sigs(1)] mset_map)
  then have "distinct (map sig_Name sigs)"
    using decode_payload_distinct [OF inp(2)] mset_eq_imp_distinct_iff by blast
  then show ?thesis using msg' inp(7) sigs(2) MakeFrame_perm
    by (intro exI [of _ "\<lparr>dm_TimeStamp = ts, dm_BusID = cp_BusID inp, dm_FrameID = dm_FrameID msg, dm_Signals = sigs\<rparr>"])
       (auto intro: MakeFrame_perm)
qed

lemma range_order_irrelevant_witness:
  "\<exists>msg msg'. ParseControlCommand (example_env example_command) [] = Inr msg \<and>
     ParseControlCommand ((example_env example_command)\<lparr>range_order := rev\<rparr>) [] = Inr msg' \<and>
     dm_BusID msg' = dm_BusID msg"
proof -
  have "is_ok (ParseControlCommand (example_env example_command) [])"
    by (simp add: ParseControlCommand_def example_env_def example_decoded example_frame_id example_bus
        trim_space_visible visible_def)
  then obtain msg where "ParseControlCommand (example_env example_command) [] = Inr msg"
    by (cases "ParseControlCommand (example_env example_command) []") auto
  moreover from range_order_irrelevant [OF _ _ this, of rev]
  have "\<exists>msg'. ParseControlCommand ((example_env example_command)\<lparr>range_order := rev\<rparr>) [] = Inr msg' \<and>
      dm_BusID msg' = dm_BusID msg" for lib :: can_lib and pl :: go_platform and h :: Handler
    by (fastforce simp: example_env_def)
  ultimately show ?thesis by blast
qed

text \<open>
  C34 A frame identifier printed in decimal, or in hexadecimal after \<open>0x\<close>, is read back as
  itself when it has at most 32 bits, and refused as out of range otherwise.
\<close>

theorem frame_id_numerals:
  "parseFrameID (show_base 10 n) =
     (if n < 2 ^ 32 then Inr (word_of_nat n) else Inl (Wrap ''invalid frame_id: '' (NumError ErrRange))) \<and>
   parseFrameID (''0x'' @ show_base 16 n) =
     (if n < 2 ^ 32 then Inr (word_of_nat n) else Inl (Wrap ''invalid frame_id: '' (NumError ErrRange)))"
  using parseFrameID_decimal parseFrameID_hex by blast

text \<open>
  C36 Topics: slashes at the ends of the parts do not matter, and two prefixes give the same
  topic of a device only if they are the same up to such slashes.
\<close>

theorem topic_of_parts:
  "BuildTopic d v p = BuildTopic (trim_slash d) (''/'' @ trim_slash v @ ''/'') (trim_slash p) \<and>
   (BuildTopic d v p = BuildTopic d v q \<longleftrightarrow> trim_slash p = trim_slash q)"
proof
  have "trim_slash (''/'' @ trim_slash v @ ''/'') = trim_slash v"
  proof (cases "trim_slash v = []")
    case True
    have "trim_slash (''/'' @ [] @ ''/'') = []" by (simp add: trim_slash_def trim_chars_def)
    then show ?thesis unfolding True .
  next
    case False
    then show ?thesis
      using trim_slash_ends [OF False] unfolding trim_slash_def by (intro trim_chars_surround) simp_all
  qed
  then show "BuildTopic d v p = BuildTopic (trim_slash d) (''/'' @ trim_slash v @ ''/'') (trim_slash p)"
    unfolding BuildTopic_def Let_def by (simp only: trim_slash_idem)
  show "BuildTopic d v p = BuildTopic d v q \<longleftrightarrow> trim_slash p = trim_slash q"
    by (cases "trim_slash p = []"; cases "trim_slash q = []") (simp_all only: BuildTopic_def Let_def if_True if_False same_append_eq append_eq_append_conv append_Nil2 list.distinct simp_thms, auto)
qed

text \<open>The integer inside a value of an integer type.\<close>

fun int_value :: "iface \<Rightarrow> int option" where
  "int_value (IInt v) = Some (sint v)"
| "int_value (IInt8 v) = Some (sint v)"
| "int_value (IInt16 v) = Some (sint v)"
| "int_value (IInt32 v) = Some (sint v)"
| "int_value (IInt64 v) = Some (sint v)"
| "int_value (IUint v) = Some (uint v)"
| "int_value (IUint8 v) = Some (uint v)"
| "int_value (IUint16 v) = Some (uint v)"
| "int_value (IUint32 v) = Some (uint v)"
| "int_value (IUint64 v) = Some (uint v)"
| "int_value _ = None"

text \<open>
  C35 An integer of any of the ten integer types becomes a float of the same value as long as its
  magnitude is at most \<open>2^53\<close>.
\<close>

theorem integer_signal_exact:
  assumes "int_value v = Some n" "\<bar>n\<bar> \<le> 2 ^ 53"
  shows "\<exists>x. signalToFloat64 v = Some x \<and> is_fin x \<and> fval x = of_int n"
proof -
  have "signalToFloat64 v = Some (f64_of_int n)" using assms(1) by (cases v) auto
  then show ?thesis using f64_of_int_exact [OF assms(2)] by simp
qed

lemma integer_signal_exact_witness: "\<exists>x. signalToFloat64 (IInt8 (- 128)) = Some x \<and> is_fin x \<and> fval x = - 128"
  using integer_signal_exact [of "IInt8 (- 128)" "- 128"] by simp

end
