(* ===== verification/Mq_Broker.thy ===== *)
theory Mq_Broker
  imports Mq_Command
begin

text \<open>
  \<open>internal/mq/mqtt_handler.go\<close>, \<open>rabbit_handler.go\<close> and \<open>broker.go\<close>: the two message brokers
  behind one interface.

  The MQTT and AMQP client libraries are parameters: an environment record holds what each
  library call returns, and every function is the list of the calls it makes, in order, with
  its result. Log output is not modelled.
\<close>

section \<open>Endpoints\<close>

definition has_scheme :: "string list \<Rightarrow> string \<Rightarrow> bool" where
  "has_scheme schemes e = list_ex (has_prefix e) schemes"

definition mqtt_schemes :: "string list" where
  "mqtt_schemes = [''tcp://'', ''ssl://'', ''tls://'', ''ws://'', ''wss://'']"

definition normalizeBrokerEndpoint :: "string \<Rightarrow> bool \<Rightarrow> string" where
  "normalizeBrokerEndpoint endpoint useTLS =
     (let e = trim_space endpoint
      in if has_scheme mqtt_schemes e then e
         else if useTLS then ''ssl://'' @ e
         else ''tcp://'' @ e)"

definition normalizeRabbitURL :: "string \<Rightarrow> string \<Rightarrow> string \<Rightarrow> string" where
  "normalizeRabbitURL endpoint user pass =
     (let e = trim_space endpoint
      in if has_scheme [''amqp://'', ''amqps://''] e then e
         else if user \<noteq> [] then
           (if pass \<noteq> [] then ''amqp://'' @ user @ '':'' @ pass @ ''@'' @ e @ ''/''
            else ''amqp://'' @ user @ ''@'' @ e @ ''/'')
         else ''amqp://'' @ e @ ''/'')"

section \<open>The MQTT handler\<close>

text \<open>A TLS configuration: the CA file's text, the client certificate, \<open>InsecureSkipVerify\<close>.\<close>

record tls_cfg =
  tls_RootCAs :: string
  tls_Certificate :: string
  tls_InsecureSkipVerify :: bool

record mqtt_opts =
  mo_ClientID :: string
  mo_Broker :: string
  mo_Username :: string
  mo_Password :: string
  mo_TLS :: "tls_cfg option"
  mo_AutoReconnect :: bool
  mo_ConnectRetry :: bool
  mo_RetryInterval_ms :: nat

datatype mqtt_op =
    ReadCA string
  | LoadKeyPair string string
  | MConnect mqtt_opts
  | MPublish string nat bool string
  | MSubscribe "string list"
  | MDisconnect nat

text \<open>What one round of the subscribe loop meets; a token error comes with its text.\<close>

datatype sub_attempt =
    NotConnected
  | SubWaitTimeout
  | SubError string
  | SubDone

record mqtt_env =
  me_read_file :: "string \<Rightarrow> string result"
  me_keypair :: "string \<Rightarrow> string \<Rightarrow> string result"
  me_connect :: "mqtt_opts \<Rightarrow> go_error option"
  me_connected :: bool
  me_publish :: "string \<Rightarrow> string \<Rightarrow> go_error option"
  me_attempt :: "nat \<Rightarrow> sub_attempt"
  me_delay :: "nat \<Rightarrow> nat"

record mqtt_handler =
  mh_deviceID :: string

definition newTLSCfg :: "mqtt_env \<Rightarrow> string \<Rightarrow> string \<Rightarrow> string \<Rightarrow> (mqtt_op, tls_cfg) traced" where
  "newTLSCfg env caCertPath clientCertPath clientKeyPath =
     bind_traced (call (ReadCA caCertPath) (me_read_file env caCertPath)) (\<lambda>ca.
     bind_traced (call (LoadKeyPair clientCertPath clientKeyPath)
                    (me_keypair env clientCertPath clientKeyPath)) (\<lambda>clientKeyPair.
       return \<lparr>tls_RootCAs = ca, tls_Certificate = clientKeyPair, tls_InsecureSkipVerify = True\<rparr>))"

definition mqtt_New :: "mqtt_env \<Rightarrow> string \<Rightarrow> MqttCfg \<Rightarrow> (mqtt_op, mqtt_handler) traced" where
  "mqtt_New env deviceID cfg =
     bind_traced
       (if mc_UseTLS cfg
        then bind_traced (newTLSCfg env (mc_CertPath cfg) (mc_ClientCert cfg) (mc_ClientKey cfg))
               (\<lambda>t. return (Some t))
        else return None)
       (\<lambda>tls.
         let opts = \<lparr>mo_ClientID = deviceID,
                     mo_Broker = normalizeBrokerEndpoint (mc_Endpoint cfg) (mc_UseTLS cfg),
                     mo_Username = mc_UserName cfg, mo_Password = mc_Password cfg,
                     mo_TLS = tls, mo_AutoReconnect = True, mo_ConnectRetry = True,
                     mo_RetryInterval_ms = 500\<rparr>
         in bind_traced
              (call (MConnect opts)
                 (case me_connect env opts of
                    None \<Rightarrow> Inr ()
                  | Some err \<Rightarrow> Inl (Wrap ''Failed to connect to MQTT broker: '' err)))
              (\<lambda>_. return \<lparr>mh_deviceID = deviceID\<rparr>))"

definition mqtt_Close :: "(mqtt_op, unit) traced" where
  "mqtt_Close = call (MDisconnect 250) (Inr ())"

text \<open>\<open>Handler.Publish\<close> returns nothing: without a connection, or after a failure, it logs.\<close>

definition mqtt_Publish :: "mqtt_env \<Rightarrow> string \<Rightarrow> nat \<Rightarrow> bool \<Rightarrow> string \<Rightarrow> (mqtt_op, unit) traced" where
  "mqtt_Publish env topic qos retained payload =
     (if \<not> me_connected env then return ()
      else call (MPublish topic qos retained payload) (Inr ()))"

fun str_contains :: "string \<Rightarrow> string \<Rightarrow> bool" where
  "str_contains [] sub = (sub = [])"
| "str_contains (c # cs) sub = (has_prefix (c # cs) sub \<or> str_contains cs sub)"

definition retry_error :: "string \<Rightarrow> bool" where
  "retry_error msg =
     (let errMsg = to_lower msg
      in str_contains errMsg ''not currently connected'' \<or>
         str_contains errMsg ''connection lost before subscribe completed'')"

text \<open>
  The loop of \<open>Handler.Subscribe\<close>, \<open>remaining\<close> milliseconds before the deadline: the \<open>k\<close>-th
  round meets \<open>me_attempt k\<close>; before the next one 100 ms are slept and \<open>me_delay k\<close> more pass
  in the round. The deadline is 5 seconds away at the start.
\<close>

function sub_loop :: "mqtt_env \<Rightarrow> string list \<Rightarrow> nat \<Rightarrow> int \<Rightarrow> (mqtt_op, unit) traced" where
  "sub_loop env topics k remaining =
     (if remaining \<le> 0
      then ([], Inl (Err ''mqtt client is not connected; subscribe timeout''))
      else
        (let again = (\<lambda>u :: unit. sub_loop env topics (Suc k) (remaining - 100 - int (me_delay env k)))
         in case me_attempt env k of
              NotConnected \<Rightarrow> again ()
            | SubWaitTimeout \<Rightarrow>
                ([MSubscribe topics],
                 Inl (Err ''failed to subscribe to topics: timeout waiting for subscribe completion''))
            | SubError msg \<Rightarrow>
                if retry_error msg then (case again () of (tr, r) \<Rightarrow> (MSubscribe topics # tr, r))
                else ([MSubscribe topics], Inl (Wrap ''failed to subscribe to topics: '' (Err msg)))
            | SubDone \<Rightarrow> ([MSubscribe topics], Inr ())))"
  by pat_completeness auto
termination by (relation "measure (\<lambda>(env, topics, k, remaining). nat remaining)") auto

declare sub_loop.simps [simp del]

definition mqtt_Subscribe :: "mqtt_env \<Rightarrow> string list \<Rightarrow> (mqtt_op, unit) traced" where
  "mqtt_Subscribe env topics = sub_loop env topics 0 5000"

section \<open>The RabbitMQ handler\<close>

datatype rabbit_op =
    RDial string
  | RChannel
  | RExchangeDeclare string string
  | RPublish string string string
  | RQueueDeclare
  | RQueueBind string string string
  | RConsume string
  | RCloseChannel
  | RCloseConn

record rabbit_env =
  re_dial :: "string \<Rightarrow> go_error option"
  re_channel :: "go_error option"
  re_exchange :: "string \<Rightarrow> go_error option"
  re_publish :: "string \<Rightarrow> string \<Rightarrow> go_error option"
  re_queue :: "string result"
  re_bind :: "string \<Rightarrow> go_error option"
  re_consume :: "go_error option"

record RabbitHandler =
  rh_exchange :: string
  rh_conn :: bool
  rh_ch :: bool

text \<open>A failing call, the calls that undo what was opened, and the wrapped error.\<close>

definition fail_with :: "'o list \<Rightarrow> string \<Rightarrow> go_error \<Rightarrow> ('o, 'a) traced" where
  "fail_with undo m err = (undo, Inl (Wrap m err))"

definition rabbit_New :: "rabbit_env \<Rightarrow> RabbitCfg \<Rightarrow> (rabbit_op, RabbitHandler) traced" where
  "rabbit_New env cfg =
     (let url = normalizeRabbitURL (rc_Endpoint cfg) (rc_UserName cfg) (rc_Password cfg);
          exchange = (if trim_space (rc_Exchange cfg) = [] then ''amq.topic'' else rc_Exchange cfg)
      in bind_traced (call (RDial url) (Inr (re_dial env url))) (\<lambda>e1. case e1 of
           Some err \<Rightarrow> fail_with [] ''rabbitmq dial failed: '' err
         | None \<Rightarrow>
         bind_traced (call RChannel (Inr (re_channel env))) (\<lambda>e2. case e2 of
           Some err \<Rightarrow> fail_with [RCloseConn] ''rabbitmq channel open failed: '' err
         | None \<Rightarrow>
         bind_traced (call (RExchangeDeclare exchange ''topic'') (Inr (re_exchange env exchange))) (\<lambda>e3.
           case e3 of
           Some err \<Rightarrow> fail_with [RCloseChannel, RCloseConn] ''rabbitmq exchange declare failed: '' err
         | None \<Rightarrow> return \<lparr>rh_exchange = exchange, rh_conn = True, rh_ch = True\<rparr>))))"

definition rabbit_Publish :: "rabbit_env \<Rightarrow> RabbitHandler \<Rightarrow> string \<Rightarrow> string \<Rightarrow> (rabbit_op, unit) traced" where
  "rabbit_Publish env r topic payload =
     call (RPublish (rh_exchange r) topic payload) (err_or_unit (re_publish env topic payload))"

fun bind_topics :: "rabbit_env \<Rightarrow> RabbitHandler \<Rightarrow> string \<Rightarrow> string list \<Rightarrow> (rabbit_op, unit) traced" where
  "bind_topics env r q [] = return ()"
| "bind_topics env r q (topic # topics) =
     bind_traced
       (call (RQueueBind q topic (rh_exchange r))
          (case re_bind env topic of
             None \<Rightarrow> Inr ()
           | Some err \<Rightarrow> Inl (Wrap (''rabbitmq queue bind failed for '' @ topic @ '': '') err)))
       (\<lambda>_. bind_topics env r q topics)"

definition rabbit_Subscribe :: "rabbit_env \<Rightarrow> RabbitHandler \<Rightarrow> string list \<Rightarrow> (rabbit_op, unit) traced" where
  "rabbit_Subscribe env r topics =
     bind_traced
       (call RQueueDeclare
          (case re_queue env of
             Inr q \<Rightarrow> Inr q
           | Inl err \<Rightarrow> Inl (Wrap ''rabbitmq queue declare failed: '' err))) (\<lambda>q.
     bind_traced (bind_topics env r q topics) (\<lambda>_.
       call (RConsume q)
         (case re_consume env of
            None \<Rightarrow> Inr ()
          | Some err \<Rightarrow> Inl (Wrap ''rabbitmq consume failed: '' err))))"

definition rabbit_Close :: "RabbitHandler \<Rightarrow> rabbit_op list" where
  "rabbit_Close r =
     (if rh_ch r then [RCloseChannel] else []) @ (if rh_conn r then [RCloseConn] else [])"

section \<open>Broker\<close>

text \<open>The interface value: an MQTT handler in its wrapper, or a RabbitMQ handler.\<close>

datatype broker = MqttBroker mqtt_handler | RabbitBroker RabbitHandler

datatype broker_op = MOp mqtt_op | ROp rabbit_op

definition lift_traced :: "('o \<Rightarrow> 'p) \<Rightarrow> ('a \<Rightarrow> 'b) \<Rightarrow> ('o, 'a) traced \<Rightarrow> ('p, 'b) traced" where
  "lift_traced f g m = (map f (fst m), map_sum id g (snd m))"

definition NewBroker ::
  "mqtt_env \<Rightarrow> rabbit_env \<Rightarrow> string \<Rightarrow> string \<Rightarrow> MqttCfg \<Rightarrow> RabbitCfg \<Rightarrow> (broker_op, broker) traced" where
  "NewBroker me re deviceID brokerType mqttCfg rabbitCfg =
     (let t = to_lower (trim_space brokerType)
      in if t \<in> set [[], ''mqtt'', ''mosquitto'']
         then lift_traced MOp MqttBroker (mqtt_New me deviceID mqttCfg)
         else if t \<in> set [''rabbitmq'', ''amqp'']
         then lift_traced ROp RabbitBroker (rabbit_New re rabbitCfg)
         else ([], Inl (Err (''unsupported broker type: '' @ brokerType))))"

text \<open>\<open>mqttBroker.Subscribe\<close> collects the topics as the keys of a map, all with QoS 0.\<close>

definition topic_map :: "string list \<Rightarrow> (string \<times> nat) list" where
  "topic_map topics = go_map (map (\<lambda>t. (t, 0)) topics)"

fun broker_Publish :: "mqtt_env \<Rightarrow> rabbit_env \<Rightarrow> broker \<Rightarrow> string \<Rightarrow> string \<Rightarrow> (broker_op, unit) traced" where
  "broker_Publish me re (MqttBroker h) topic payload =
     lift_traced MOp id (bind_traced (mqtt_Publish me topic 0 False payload) (\<lambda>_. return ()))"
| "broker_Publish me re (RabbitBroker r) topic payload =
     lift_traced ROp id (rabbit_Publish re r topic payload)"

fun broker_Subscribe :: "mqtt_env \<Rightarrow> rabbit_env \<Rightarrow> broker \<Rightarrow> string list \<Rightarrow> (broker_op, unit) traced" where
  "broker_Subscribe me re (MqttBroker h) topics =
     lift_traced MOp id (mqtt_Subscribe me (map fst (topic_map topics)))"
| "broker_Subscribe me re (RabbitBroker r) topics = lift_traced ROp id (rabbit_Subscribe re r topics)"

fun broker_Close :: "broker \<Rightarrow> broker_op list" where
  "broker_Close (MqttBroker h) = map MOp (fst mqtt_Close)"
| "broker_Close (RabbitBroker r) = map ROp (rabbit_Close r)"

section \<open>The contract of the interface\<close>

text \<open>
  What a caller of \<open>Broker\<close> may rely on. \<open>wire\<close> reads from the calls a publish made the messages
  the library accepted, \<open>bound\<close> the topics it subscribed. A publish puts its message on the wire
  at most once and nothing else; a \<open>Subscribe\<close> that returns no error has subscribed exactly the
  topics it was given.
\<close>

definition publish_all :: "('e \<Rightarrow> string \<Rightarrow> string \<Rightarrow> ('o, unit) traced) \<Rightarrow> string \<Rightarrow> ('e \<times> string) list \<Rightarrow> ('e \<times> 'o) list" where
  "publish_all publish topic ps =
     concat (map (\<lambda>(e, p). map (Pair e) (fst (publish e topic p))) ps)"

locale publisher =
  fixes publish :: "'e \<Rightarrow> string \<Rightarrow> string \<Rightarrow> ('o, unit) traced"
    and wire :: "'e \<Rightarrow> 'o \<Rightarrow> (string \<times> string) list"
  assumes at_most_once:
    "concat (map (wire e) (fst (publish e t p))) \<in> {[], [(t, p)]}"
begin

text \<open>However the calls fare, what reaches the wire is a part of what was published, in order.\<close>

lemma publish_all_subseq:
  "subseq (concat (map (\<lambda>(e, op). wire e op) (publish_all publish topic ps)))
     (map (\<lambda>(e, p). (topic, p)) ps)"
proof (induction ps)
  case (Cons ep ps)
  obtain e p where ep: "ep = (e, p)" by (cases ep)
  let ?w = "\<lambda>ops. concat (map (\<lambda>(e, op). wire e op) ops)"
  have "?w (publish_all publish topic (ep # ps)) =
      concat (map (wire e) (fst (publish e topic p))) @ ?w (publish_all publish topic ps)"
    by (simp add: publish_all_def ep comp_def)
  moreover have "subseq (concat (map (wire e) (fst (publish e topic p)))) [(topic, p)]"
    using at_most_once [of e topic p]
    by (metis empty_iff insert_iff list_emb_Nil subseq_order.order_refl)
  ultimately show ?case
    using list_emb_append_mono [OF _ Cons.IH, of _ "[(topic, p)]"] by (simp add: ep)
qed (simp add: publish_all_def)

end

text \<open>A publisher whose missing error is a confirmation.\<close>

locale confirming_publisher = publisher +
  assumes confirmed: "snd (publish e t p) = Inr () \<Longrightarrow> concat (map (wire e) (fst (publish e t p))) = [(t, p)]"
begin

lemma publish_all_confirmed:
  "\<forall>(e, p)\<in>set ps. snd (publish e topic p) = Inr () \<Longrightarrow>
   concat (map (\<lambda>(e, op). wire e op) (publish_all publish topic ps)) = map (\<lambda>(e, p). (topic, p)) ps"
proof (induction ps)
  case (Cons ep ps)
  then show ?case using confirmed [of "fst ep" topic "snd ep"]
    by (cases ep) (simp add: publish_all_def comp_def)
qed (simp add: publish_all_def)

end

locale subscriber =
  fixes subscribe :: "'e \<Rightarrow> string list \<Rightarrow> ('o, unit) traced"
    and bound :: "'o \<Rightarrow> string list"
  assumes subscribed: "snd (subscribe e ts) = Inr () \<Longrightarrow> set (concat (map bound (fst (subscribe e ts)))) = set ts"
    and only_asked: "set (concat (map bound (fst (subscribe e ts)))) \<subseteq> set ts"
begin

lemma subscribed_mono:
  "snd (subscribe e ts) = Inr () \<Longrightarrow> set us \<subseteq> set ts \<Longrightarrow>
   set us \<subseteq> set (concat (map bound (fst (subscribe e ts))))"
  by (simp only: subscribed)

end

section \<open>The subscribe loop\<close>

definition retriable :: "sub_attempt \<Rightarrow> bool" where
  "retriable a \<longleftrightarrow> (case a of NotConnected \<Rightarrow> True | SubError msg \<Rightarrow> retry_error msg | _ \<Rightarrow> False)"

text \<open>The time a round takes that is followed by another one.\<close>

definition round_ms :: "mqtt_env \<Rightarrow> nat \<Rightarrow> int" where
  "round_ms env k = 100 + int (me_delay env k)"

lemma sub_loop_timeout: "remaining \<le> 0 \<Longrightarrow>
    sub_loop env ts k remaining = ([], Inl (Err ''mqtt client is not connected; subscribe timeout''))"
  by (simp add: sub_loop.simps)

lemma sub_loop_retry:
  assumes "0 < remaining" "retriable (me_attempt env k)"
  shows "snd (sub_loop env ts k remaining) = snd (sub_loop env ts (Suc k) (remaining - round_ms env k))"
    and "fst (sub_loop env ts k remaining) =
      (if me_attempt env k = NotConnected then [] else [MSubscribe ts]) @
      fst (sub_loop env ts (Suc k) (remaining - round_ms env k))"
  using assms
  by (subst sub_loop.simps;
      auto simp: retriable_def round_ms_def Let_def algebra_simps split: sub_attempt.splits prod.splits)+

lemma sub_loop_final:
  assumes "0 < remaining" "\<not> retriable (me_attempt env k)"
  shows "fst (sub_loop env ts k remaining) = [MSubscribe ts]"
    and "snd (sub_loop env ts k remaining) = Inr () \<longleftrightarrow> me_attempt env k = SubDone"
  using assms
  by (subst sub_loop.simps; auto simp: retriable_def Let_def split: sub_attempt.splits if_splits)+

text \<open>Induction over the rounds: the time left goes down by at least 100 ms.\<close>

lemma sub_loop_rounds [case_names timeout retry final]:
  fixes P :: "nat \<Rightarrow> int \<Rightarrow> bool"
  assumes "\<And>k r. r \<le> 0 \<Longrightarrow> P k r"
    and "\<And>k r. 0 < r \<Longrightarrow> retriable (me_attempt env k) \<Longrightarrow> P (Suc k) (r - round_ms env k) \<Longrightarrow> P k r"
    and "\<And>k r. 0 < r \<Longrightarrow> \<not> retriable (me_attempt env k) \<Longrightarrow> P k r"
  shows "P k r"
proof (induction "nat r" arbitrary: k r rule: less_induct)
  case less
  consider "r \<le> 0" | "0 < r" "retriable (me_attempt env k)" | "0 < r" "\<not> retriable (me_attempt env k)"
    by linarith
  then show ?case
  proof cases
    case 2
    then have "nat (r - round_ms env k) < nat r" by (simp add: round_ms_def)
    with less 2 assms(2) show ?thesis by blast
  qed (use assms(1,3) in blast)+
qed

lemma sub_loop_ops: "set (fst (sub_loop env ts k r)) \<subseteq> {MSubscribe ts}"
  by (induction k r rule: sub_loop_rounds [of _ env])
     (auto simp: sub_loop_timeout sub_loop_retry sub_loop_final)

lemma sub_loop_success: "snd (sub_loop env ts k r) = Inr () \<Longrightarrow> MSubscribe ts \<in> set (fst (sub_loop env ts k r))"
  by (induction k r rule: sub_loop_rounds [of _ env])
     (auto simp: sub_loop_timeout sub_loop_retry sub_loop_final)

text \<open>At most one request per started 100 ms.\<close>

lemma sub_loop_calls: "0 \<le> r \<Longrightarrow> 100 * int (length (fst (sub_loop env ts k r))) \<le> r + 99"
proof (induction k r rule: sub_loop_rounds [of _ env])
  case (retry k r)
  show ?case
  proof (cases "0 \<le> r - round_ms env k")
    case True
    then show ?thesis using retry
      by (simp add: sub_loop_retry) (simp add: round_ms_def)
  next
    case False
    then show ?thesis using retry by (simp add: sub_loop_retry sub_loop_timeout)
  qed
qed (simp_all add: sub_loop_timeout sub_loop_final)

text \<open>A connection that comes up in time is used.\<close>

lemma sub_loop_reaches:
  "\<forall>i<n. retriable (me_attempt env (k + i)) \<Longrightarrow> me_attempt env (k + n) = SubDone \<Longrightarrow>
   (\<Sum>i<n. round_ms env (k + i)) < r \<Longrightarrow> snd (sub_loop env ts k r) = Inr ()"
proof (induction n arbitrary: k r)
  case 0
  then show ?case by (simp add: sub_loop_final retriable_def)
next
  case (Suc n)
  have "0 \<le> (\<Sum>i<n. round_ms env (Suc k + i))" by (intro sum_nonneg) (simp add: round_ms_def)
  moreover have split: "(\<Sum>i<Suc n. round_ms env (k + i)) = round_ms env k + (\<Sum>i<n. round_ms env (Suc k + i))"
    by (subst sum.lessThan_Suc_shift) simp
  moreover have "0 < round_ms env k" by (simp add: round_ms_def)
  ultimately have r: "0 < r" using Suc.prems(3) by linarith
  have "retriable (me_attempt env k)" using Suc.prems(1) by (metis add.right_neutral zero_less_Suc)
  moreover have "\<forall>i<n. retriable (me_attempt env (Suc k + i))"
    using Suc.prems(1) by (metis add_Suc_shift Suc_mono)
  ultimately show ?case using Suc.IH [of "Suc k" "r - round_ms env k"] Suc.prems(2,3) r split
    by (simp add: sub_loop_retry)
qed

section \<open>Set-up and tear-down of the RabbitMQ handler\<close>

lemma rabbit_New_failure:
  assumes "rabbit_New env cfg = (tr, Inl e)"
  shows "RChannel \<in> set tr \<longleftrightarrow> last tr = RCloseConn"
    and "(\<exists>ex k. RExchangeDeclare ex k \<in> set tr) \<longleftrightarrow> RCloseChannel \<in> set tr"
  using assms
  by (auto simp: rabbit_New_def fail_with_def Let_def split: option.splits)

lemma rabbit_New_success:
  assumes "rabbit_New env cfg = (tr, Inr r)"
  shows "rh_exchange r = (if trim_space (rc_Exchange cfg) = [] then ''amq.topic'' else rc_Exchange cfg)"
    and "rh_conn r" "rh_ch r" "RCloseChannel \<notin> set tr" "RCloseConn \<notin> set tr"
    and "RExchangeDeclare (rh_exchange r) ''topic'' = last tr"
  using assms
  by (auto simp: rabbit_New_def fail_with_def Let_def split: option.splits if_splits)

lemma bind_topics_Inr:
  "snd (bind_topics env r q ts) = Inr () \<Longrightarrow>
   fst (bind_topics env r q ts) = map (\<lambda>t. RQueueBind q t (rh_exchange r)) ts"
proof (induction ts)
  case (Cons t ts)
  then show ?case by (cases "re_bind env t") auto
qed simp

lemma bind_topics_prefix:
  "prefix (fst (bind_topics env r q ts)) (map (\<lambda>t. RQueueBind q t (rh_exchange r)) ts)"
proof (induction ts)
  case (Cons t ts)
  then show ?case by (cases "re_bind env t") auto
qed simp

section \<open>Both brokers provide the interface\<close>

fun mqtt_wire :: "mqtt_env \<Rightarrow> mqtt_op \<Rightarrow> (string \<times> string) list" where
  "mqtt_wire env (MPublish t q r p) = (if me_publish env t p = None then [(t, p)] else [])"
| "mqtt_wire env _ = []"

fun rabbit_wire :: "rabbit_env \<Rightarrow> rabbit_op \<Rightarrow> (string \<times> string) list" where
  "rabbit_wire env (RPublish ex t p) = (if re_publish env t p = None then [(t, p)] else [])"
| "rabbit_wire env _ = []"

fun broker_wire :: "mqtt_env \<times> rabbit_env \<Rightarrow> broker_op \<Rightarrow> (string \<times> string) list" where
  "broker_wire (me, re) (MOp op) = mqtt_wire me op"
| "broker_wire (me, re) (ROp op) = rabbit_wire re op"

fun broker_bound :: "broker_op \<Rightarrow> string list" where
  "broker_bound (MOp (MSubscribe ts)) = ts"
| "broker_bound (ROp (RQueueBind q t ex)) = [t]"
| "broker_bound _ = []"

lemma lift_traced_simps [simp]:
  "fst (lift_traced f g m) = map f (fst m)"
  "snd (lift_traced f g m) = Inr y \<longleftrightarrow> (\<exists>x. snd m = Inr x \<and> y = g x)"
  by (auto simp: lift_traced_def map_sum_def split: sum.splits)

lemma set_topic_map: "set (map fst (topic_map topics)) = set topics"
proof -
  have "dom (map_of (topic_map topics)) = set topics"
    by (simp add: topic_map_def map_of_go_map dom_map_of_conv_image_fst image_image)
  then show ?thesis by (simp add: dom_map_of_conv_image_fst)
qed

lemma broker_bound_mqtt: "set (concat (map (broker_bound \<circ> MOp) ops)) = \<Union> (set ` {ts. MSubscribe ts \<in> set ops})"
proof (induction ops)
  case (Cons op ops)
  then show ?case by (cases op) auto
qed simp

lemma sub_loop_bound:
  "set (concat (map (broker_bound \<circ> MOp) (fst (sub_loop env ts k r)))) \<subseteq> set ts"
  using sub_loop_ops [of env ts k r] unfolding broker_bound_mqtt by auto

lemma sub_loop_bound_success:
  "snd (sub_loop env ts k r) = Inr () \<Longrightarrow>
   set (concat (map (broker_bound \<circ> MOp) (fst (sub_loop env ts k r)))) = set ts"
  using sub_loop_ops [of env ts k r] sub_loop_success [of env ts k r] unfolding broker_bound_mqtt by auto

lemma bound_binds [simp]:
  "concat (map (broker_bound \<circ> ROp) (map (\<lambda>t. RQueueBind q t ex) ts)) = ts"
  by (induction ts) simp_all

lemma rabbit_Subscribe_bound:
  "set (concat (map (broker_bound \<circ> ROp) (fst (rabbit_Subscribe env r ts)))) \<subseteq> set ts"
proof (cases "re_queue env")
  case (Inr q)
  let ?b = "bind_topics env r q ts"
  obtain rest where "map (\<lambda>t. RQueueBind q t (rh_exchange r)) ts = fst ?b @ rest"
    using bind_topics_prefix [of env r q ts] by (auto simp: prefix_def)
  then have "set (concat (map (broker_bound \<circ> ROp) (fst ?b))) \<subseteq>
      set (concat (map (broker_bound \<circ> ROp) (map (\<lambda>t. RQueueBind q t (rh_exchange r)) ts)))"
    by (simp only: map_append concat_append set_append Un_upper1)
  then have "set (concat (map (broker_bound \<circ> ROp) (fst ?b))) \<subseteq> set ts" unfolding bound_binds .
  then show ?thesis using Inr
    by (cases ?b; cases "snd ?b"; auto simp: rabbit_Subscribe_def)
qed (simp add: rabbit_Subscribe_def)

lemma rabbit_Subscribe_success:
  assumes "snd (rabbit_Subscribe env r ts) = Inr ()"
  shows "set (concat (map (broker_bound \<circ> ROp) (fst (rabbit_Subscribe env r ts)))) = set ts"
proof (cases "re_queue env")
  case (Inr q)
  let ?b = "bind_topics env r q ts"
  have b: "snd ?b = Inr ()" using assms Inr
    by (cases ?b; cases "snd ?b") (auto simp: rabbit_Subscribe_def)
  then have "?b = (map (\<lambda>t. RQueueBind q t (rh_exchange r)) ts, Inr ())"
    by (simp add: prod_eq_iff bind_topics_Inr)
  then show ?thesis using Inr by (simp add: rabbit_Subscribe_def flip: map_map)
qed (use assms in \<open>simp add: rabbit_Subscribe_def\<close>)

lemma broker_Publish_wire:
  "concat (map (broker_wire (me, re)) (fst (broker_Publish me re b t p))) \<in> {[], [(t, p)]}"
  by (cases b) (auto simp: mqtt_Publish_def rabbit_Publish_def)

lemma broker_Subscribe_bound:
  "set (concat (map broker_bound (fst (broker_Subscribe me re b ts)))) \<subseteq> set ts"
  using sub_loop_bound [of me "map fst (topic_map ts)" 0 5000] rabbit_Subscribe_bound [of re _ ts]
  by (cases b) (simp_all add: mqtt_Subscribe_def set_topic_map del: set_map set_concat)

lemma broker_Subscribe_success:
  "snd (broker_Subscribe me re b ts) = Inr () \<Longrightarrow>
   set (concat (map broker_bound (fst (broker_Subscribe me re b ts)))) = set ts"
  using sub_loop_bound_success [of me "map fst (topic_map ts)" 0 5000] rabbit_Subscribe_success [of re _ ts]
  by (cases b) (simp_all add: mqtt_Subscribe_def set_topic_map del: set_map set_concat)

interpretation brk: publisher
  "\<lambda>(b, me, re). broker_Publish me re b" "\<lambda>(b, e). broker_wire e"
  by unfold_locales (use broker_Publish_wire in \<open>fastforce split: prod.splits\<close>)

interpretation rab: confirming_publisher
  "\<lambda>(r, re). rabbit_Publish re r" "\<lambda>(r, re). rabbit_wire re"
  by unfold_locales (auto simp: rabbit_Publish_def err_or_unit_def split: option.splits prod.splits)

interpretation subs: subscriber "\<lambda>(b, me, re). broker_Subscribe me re b" broker_bound
  by unfold_locales
     (simp_all only: split_paired_all prod.case broker_Subscribe_success broker_Subscribe_bound)

section \<open>Properties\<close>

definition example_mqtt :: "(nat \<Rightarrow> sub_attempt) \<Rightarrow> bool \<Rightarrow> mqtt_env" where
  "example_mqtt att up =
     \<lparr>me_read_file = (\<lambda>_. Inr []), me_keypair = (\<lambda>_ _. Inr []), me_connect = (\<lambda>_. None), me_connected = up,
      me_publish = (\<lambda>_ _. None), me_attempt = att, me_delay = (\<lambda>_. 0)\<rparr>"

definition example_rabbit :: "go_error option \<Rightarrow> rabbit_env" where
  "example_rabbit err =
     \<lparr>re_dial = (\<lambda>_. None), re_channel = None, re_exchange = (\<lambda>_. err), re_publish = (\<lambda>_ _. None),
      re_queue = Inr ''q'', re_bind = (\<lambda>_. None), re_consume = None\<rparr>"

definition example_rabbit_cfg :: RabbitCfg where
  "example_rabbit_cfg = \<lparr>rc_Endpoint = ''h:5672'', rc_UserName = [], rc_Password = [], rc_Exchange = '' ''\<rparr>"

text \<open>
  C26 Whatever happens to the single calls, the messages the client library accepts from a broker
  are, in order and each at most once, messages that were published.
\<close>

theorem broker_publishes_in_order:
  "subseq
     (concat (map (\<lambda>((b, e), op). broker_wire e op)
       (publish_all (\<lambda>(b, me, re). broker_Publish me re b) topic ps)))
     (map (\<lambda>(e, p). (topic, p)) ps)"
  using brk.publish_all_subseq [of topic ps] by (simp add: case_prod_beta')

text \<open>
  C27 A RabbitMQ publish that returns no error is a confirmation: when none of a sequence of
  publishes fails, exactly these messages reach the library, in this order.
\<close>

theorem rabbit_publish_confirmed:
  assumes "\<forall>((r, re), p) \<in> set ps. snd (rabbit_Publish re r topic p) = Inr ()"
  shows "concat (map (\<lambda>((r, re), op). rabbit_wire re op)
       (publish_all (\<lambda>(r, re). rabbit_Publish re r) topic ps)) = map (\<lambda>(e, p). (topic, p)) ps"
  using rab.publish_all_confirmed [of ps topic] assms by (simp add: case_prod_beta')

lemma rabbit_publish_confirmed_witness:
  "concat (map (\<lambda>((r, re), op). rabbit_wire re op)
     (publish_all (\<lambda>(r, re). rabbit_Publish re r) ''/tx/d''
       [((\<lparr>rh_exchange = ''x'', rh_conn = True, rh_ch = True\<rparr>, example_rabbit None), ''p''),
        ((\<lparr>rh_exchange = ''x'', rh_conn = True, rh_ch = True\<rparr>, example_rabbit None), ''q'')])) =
   [(''/tx/d'', ''p''), (''/tx/d'', ''q'')]"
  by (subst rabbit_publish_confirmed) (simp_all add: rabbit_Publish_def example_rabbit_def)

text \<open>
  C40 An MQTT publish never reports a failure: without a connection nothing is sent, and with one a
  publish the library refuses is lost, both without an error.
\<close>

theorem mqtt_publish_silent:
  "snd (broker_Publish me re (MqttBroker h) topic payload) = Inr () \<and>
   (concat (map (broker_wire (me, re)) (fst (broker_Publish me re (MqttBroker h) topic payload))) \<noteq> [] \<longleftrightarrow>
      me_connected me \<and> me_publish me topic payload = None)"
  by (auto simp: mqtt_Publish_def lift_traced_def)



text \<open>
  C23 The MQTT subscribe loop ends: at most fifty requests are made, all for the given topics, and
  it fails only with the timeout, a request that was not answered in time, or an error of the
  library that is not one of the two it retries on.
\<close>

theorem subscribe_terminates:
  "length (fst (mqtt_Subscribe env ts)) \<le> 50 \<and> set (fst (mqtt_Subscribe env ts)) \<subseteq> {MSubscribe ts} \<and>
   (snd (mqtt_Subscribe env ts) = Inr () \<or>
    snd (mqtt_Subscribe env ts) = Inl (Err ''mqtt client is not connected; subscribe timeout'') \<or>
    (\<exists>k. me_attempt env k = SubWaitTimeout \<or> (\<exists>msg. me_attempt env k = SubError msg \<and> \<not> retry_error msg)))"
proof -
  have "snd (sub_loop env ts k r) = Inr () \<or>
      snd (sub_loop env ts k r) = Inl (Err ''mqtt client is not connected; subscribe timeout'') \<or>
      (\<exists>k. me_attempt env k = SubWaitTimeout \<or> (\<exists>msg. me_attempt env k = SubError msg \<and> \<not> retry_error msg))"
    for k r
  proof (induction k r rule: sub_loop_rounds [of _ env])
    case (final k r)
    then show ?case
      using sub_loop_final [of r env k ts] by (cases "me_attempt env k") (auto simp: retriable_def)
  qed (simp_all add: sub_loop_timeout sub_loop_retry)
  moreover have "length (fst (mqtt_Subscribe env ts)) \<le> 50"
    using sub_loop_calls [of 5000 env ts 0] by (simp add: mqtt_Subscribe_def)
  ultimately show ?thesis using sub_loop_ops [of env ts 0 5000] by (simp add: mqtt_Subscribe_def)
qed

text \<open>
  C24 A connection that comes up in time is used: when every round before the \<open>n\<close>-th can be retried,
  these rounds take less than five seconds and the \<open>n\<close>-th request succeeds, so does the subscription.
\<close>

theorem subscribe_reaches:
  assumes "\<forall>i<n. retriable (me_attempt env i)" "me_attempt env n = SubDone" "(\<Sum>i<n. round_ms env i) < 5000"
  shows "snd (mqtt_Subscribe env ts) = Inr ()"
  using sub_loop_reaches [of n env 0 5000 ts] assms by (simp add: mqtt_Subscribe_def)

lemma subscribe_reaches_witness:
  "snd (mqtt_Subscribe (example_mqtt (\<lambda>i. if i < 49 then NotConnected else SubDone) False) [''/rx/d'']) = Inr ()"
  by (rule subscribe_reaches [of 49]) (simp_all add: example_mqtt_def retriable_def round_ms_def)

text \<open>
  C25 \<open>NewRabbit\<close> leaves nothing open when it fails: the connection is closed, after the channel, if
  and only if they were opened; when it succeeds nothing is closed and the exchange is declared.
\<close>

theorem rabbit_New_cleans_up:
  assumes "rabbit_New env cfg = (tr, r)"
  shows "(RCloseConn \<in> set tr \<longleftrightarrow> \<not> is_ok r \<and> re_dial env (normalizeRabbitURL (rc_Endpoint cfg) (rc_UserName cfg) (rc_Password cfg)) = None) \<and>
    (RCloseChannel \<in> set tr \<longleftrightarrow> \<not> is_ok r \<and> RCloseConn \<in> set tr \<and> re_channel env = None) \<and>
    (\<not> is_ok r \<and> RCloseConn \<in> set tr \<longrightarrow> last tr = RCloseConn) \<and>
    (\<forall>h. r = Inr h \<longrightarrow> last tr = RExchangeDeclare (rh_exchange h) ''topic'' \<and> trim_space (rh_exchange h) \<noteq> [])"
proof -
  have "trim_space ''amq.topic'' \<noteq> []" by (subst trim_space_visible) (simp_all add: visible_def)
  then show ?thesis using assms
    by (cases "trim_space (rc_Exchange cfg) = []";
        cases "re_dial env (normalizeRabbitURL (rc_Endpoint cfg) (rc_UserName cfg) (rc_Password cfg))"; cases "re_channel env";
        cases "re_exchange env (if trim_space (rc_Exchange cfg) = [] then ''amq.topic'' else rc_Exchange cfg)")
       (auto simp: rabbit_New_def fail_with_def Let_def)
qed

lemma rabbit_New_cleans_up_witness:
  "RCloseConn \<in> set (fst (rabbit_New (example_rabbit (Some (Err ''no''))) example_rabbit_cfg))"
proof -
  obtain tr r where t: "rabbit_New (example_rabbit (Some (Err ''no''))) example_rabbit_cfg = (tr, r)"
    by (rule prod.exhaust)
  have "\<not> is_ok r" using t by (auto simp: rabbit_New_def fail_with_def example_rabbit_def Let_def)
  with rabbit_New_cleans_up [OF t] show ?thesis by (simp add: t) (simp add: example_rabbit_def)
qed

end
