(* ===== verification/Go_Json_Map.thy ===== *)
theory Go_Json_Map
  imports Go_Json "HOL-Library.List_Lexorder" "HOL-Library.Char_ord"
begin

text \<open>
  \<open>json.Marshal\<close> of a Go map with string keys: the members in ascending byte order of their
  keys, and the first value that cannot be encoded ends it with its error.
\<close>

fun encode_members :: "('v \<Rightarrow> json result) \<Rightarrow> (string \<times> 'v) list \<Rightarrow> (string \<times> json) list result" where
  "encode_members enc [] = Inr []"
| "encode_members enc ((k, v) # kvs) =
     bind_result (enc v) (\<lambda>j. bind_result (encode_members enc kvs) (\<lambda>ms. Inr ((k, j) # ms)))"

definition encode_go_map :: "('v \<Rightarrow> json result) \<Rightarrow> (string \<times> 'v) list \<Rightarrow> json result" where
  "encode_go_map enc m =
     bind_result (encode_members enc (sort_key fst m)) (\<lambda>ms. Inr (JObj ms))"

lemma encode_members_Inr:
  "encode_members enc kvs = Inr ms \<longleftrightarrow>
     list_all2 (\<lambda>(k, v) (k', j). k' = k \<and> enc v = Inr j) kvs ms"
proof (induction kvs arbitrary: ms)
  case (Cons kv kvs)
  show ?case
  proof (cases ms)
    case Nil
    then show ?thesis by (cases kv) (auto simp: bind_result_eq_Inr)
  next
    case (Cons m ms')
    then show ?thesis using Cons.IH by (cases kv; cases m) (auto simp: bind_result_eq_Inr)
  qed
qed auto

lemma encode_members_keys: "encode_members enc kvs = Inr ms \<Longrightarrow> map fst ms = map fst kvs"
  by (induction kvs arbitrary: ms) (auto simp: bind_result_eq_Inr)

lemma encode_members_ok:
  "is_ok (encode_members enc kvs) \<longleftrightarrow> (\<forall>kv \<in> set kvs. is_ok (enc (snd kv)))"
proof (induction kvs)
  case (Cons kv kvs)
  obtain k v where kv: "kv = (k, v)" by (cases kv)
  show ?case using Cons.IH
    by (cases "enc v"; cases "encode_members enc kvs") (simp_all add: kv)
qed simp

lemma encode_members_map_of:
  "encode_members enc kvs = Inr ms \<Longrightarrow>
   map_of ms k = (case map_of kvs k of None \<Rightarrow> None | Some v \<Rightarrow> Some (projr (enc v)))"
  by (induction kvs arbitrary: ms) (auto simp: bind_result_eq_Inr split: option.splits)

lemma map_of_sort_key: "distinct (map fst m) \<Longrightarrow> map_of (sort_key fst m) = map_of m"
  by (subst map_of_inject_set) (simp_all add: distinct_map inj_on_def)

lemma distinct_keys_sort_key: "distinct (map fst m) \<Longrightarrow> distinct (map fst (sort_key fst m))"
  by (simp add: distinct_map)

lemma encode_go_map_ok: "is_ok (encode_go_map enc m) \<longleftrightarrow> (\<forall>kv \<in> set m. is_ok (enc (snd kv)))"
proof -
  have "is_ok (encode_go_map enc m) = is_ok (encode_members enc (sort_key fst m))"
    by (cases "encode_members enc (sort_key fst m)") (simp_all add: encode_go_map_def)
  then show ?thesis by (simp add: encode_members_ok)
qed

text \<open>The members: sorted and distinct keys, each with the encoding of its value.\<close>

lemma encode_go_map_InrE:
  assumes "encode_go_map enc m = Inr j" "distinct (map fst m)"
  obtains ms where "j = JObj ms" "sorted_wrt (<) (map fst ms)" "set (map fst ms) = set (map fst m)"
    "\<And>k. map_of ms k = map_option (\<lambda>v. projr (enc v)) (map_of m k)"
proof -
  obtain ms where ms: "encode_members enc (sort_key fst m) = Inr ms" "j = JObj ms"
    using assms(1) by (auto simp: encode_go_map_def bind_result_eq_Inr)
  have keys: "map fst ms = map fst (sort_key fst m)" using encode_members_keys [OF ms(1)] .
  have "sorted_wrt (<) (map fst ms)"
    using distinct_keys_sort_key [OF assms(2)] unfolding keys strict_sorted_iff by simp
  moreover have "map_of ms k = map_option (\<lambda>v. projr (enc v)) (map_of m k)" for k
    using encode_members_map_of [OF ms(1), of k] map_of_sort_key [OF assms(2)]
    by (auto split: option.splits)
  moreover have "set (map fst ms) = set (map fst m)" unfolding keys by simp
  ultimately show thesis using that ms(2) by blast
qed

end
