(* ===== verification/Gamepad_Web.thy ===== *)
theory Gamepad_Web
  imports Gamepad_Config Mq_Broker Go_Json_Map
begin

text \<open>
  \<open>cmd/gamepadweb/main.go\<close>: the options from the flags, the origin check of the websocket
  upgrade, and the two handlers that turn a gamepad state into command messages.

  Parameters: \<open>url.Parse\<close> followed by \<open>Hostname\<close>, the JSON reader, the formatted clock at each
  call (\<open>we_now\<close>) and the answer of the MQTT client to each publish (\<open>we_publish\<close>), both by the
  number of publishes before. A published payload is its JSON tree. The files
  embedded into the binary and the file server of the library are parameters too.
\<close>

section \<open>Options\<close>

definition normalizeEndpoint :: "string \<Rightarrow> string" where
  "normalizeEndpoint endpoint =
     (let e = trim_space endpoint
      in if has_scheme mqtt_schemes e then e else ''tcp://'' @ e)"

record web_flags =
  wf_mqtt :: string
  wf_device :: string
  wf_topic_prefix :: string
  wf_map_config :: string
  wf_bus :: string
  wf_frame :: string
  wf_frame_steer :: string
  wf_frame_trigger :: string
  wf_frame_buttons :: string

text \<open>The frame flags override what the file says; without any frame the base frame is \<open>0x2\<close>.\<close>

definition default_frame :: "MultiMapOptions \<Rightarrow> MultiMapOptions" where
  "default_frame opts =
     (if BaseFrameID opts = [] \<and> GamepadMsgFrameID opts = [] \<and> AllAxes0FrameID opts = [] \<and>
         AllAxes1FrameID opts = [] \<and> AllButtonsPressedFrameID opts = [] \<and>
         AllButtonsValue0FrameID opts = [] \<and> AllButtonsValue1FrameID opts = []
      then opts\<lparr>BaseFrameID := ''0x2''\<rparr> else opts)"

definition override_options :: "web_flags \<Rightarrow> MultiMapOptions \<Rightarrow> MultiMapOptions" where
  "override_options fl o0 =
     (let o1 = (if wf_frame fl \<noteq> [] then o0\<lparr>BaseFrameID := wf_frame fl\<rparr> else o0);
          o2 = (if wf_frame_steer fl \<noteq> [] then o1\<lparr>SteerFrameID := wf_frame_steer fl\<rparr> else o1);
          o3 = (if wf_frame_trigger fl \<noteq> [] then o2\<lparr>TriggerFrameID := wf_frame_trigger fl\<rparr> else o2);
          o4 = (if wf_frame_buttons fl \<noteq> [] then o3\<lparr>ButtonsFrameID := wf_frame_buttons fl\<rparr> else o3)
      in default_frame o4)"

definition no_options :: MultiMapOptions where
  "no_options =
     \<lparr>BaseFrameID = [], SteerFrameID = [], TriggerFrameID = [], ButtonsFrameID = [],
      GamepadMsgFrameID = [], AllAxes0FrameID = [], AllAxes1FrameID = [],
      AllButtonsPressedFrameID = [], AllButtonsValue0FrameID = [], AllButtonsValue1FrameID = [],
      BaseControlCommandSignal = [], BaseControlValueSignal = [], SteerCommandSignal = [],
      SteerEnableSignal = [], TriggerBrakeSignal = [], TriggerThrottleSignal = [],
      ButtonsHornSignal = [], ButtonsLightSignal = [], ButtonsModeNextSignal = [],
      ButtonsModePrevSignal = []\<rparr>"

record server =
  mapper :: Mapper
  srv_topic :: string
  srv_busID :: string
  mapOpts :: MultiMapOptions

text \<open>
  \<open>main\<close> up to the registration of the handlers: an error is the text of its panic. The nanoseconds
  of the clock are the parameter \<open>nano\<close>.
\<close>

definition web_main ::
  "(mqtt_opts \<Rightarrow> go_error option) \<Rightarrow> nat \<Rightarrow> (string \<Rightarrow> string result) \<Rightarrow> (string \<Rightarrow> fileMapping result)
     \<Rightarrow> web_flags \<Rightarrow> server result" where
  "web_main connect nano read_file yaml fl =
     (let topic = BuildTopic ''rx'' (wf_device fl) (wf_topic_prefix fl);
          opts = \<lparr>mo_ClientID = ''gamepad-web-'' @ show_nat nano,
                  mo_Broker = normalizeEndpoint (wf_mqtt fl), mo_Username = [], mo_Password = [],
                  mo_TLS = None, mo_AutoReconnect = True, mo_ConnectRetry = True,
                  mo_RetryInterval_ms = 500\<rparr>
      in case connect opts of
           Some err \<Rightarrow> Inl (Wrap ''failed to connect MQTT: '' err)
         | None \<Rightarrow>
             bind_result
               (if wf_map_config fl \<noteq> []
                then (case LoadMultiMapOptionsFromYAML read_file yaml (wf_map_config fl) of
                        Inl err \<Rightarrow> Inl (Wrap ''failed to load map config: '' err)
                      | Inr loaded \<Rightarrow> Inr loaded)
                else Inr no_options)
               (\<lambda>loaded. Inr \<lparr>mapper = NewMapper, srv_topic = topic, srv_busID = wf_bus fl,
                             mapOpts = override_options fl loaded\<rparr>))"

section \<open>The origin check\<close>

definition isLoopbackHost :: "string \<Rightarrow> bool" where
  "isLoopbackHost host =
     (let h = trim_chars (\<lambda>c. c = CHR ''['' \<or> c = CHR '']'') (to_lower host)
      in h = ''localhost'' \<or> h = ''127.0.0.1'' \<or> h = ''::1'')"

fun index_of :: "char \<Rightarrow> string \<Rightarrow> nat option" where
  "index_of c [] = None"
| "index_of c (d # ds) = (if c = d then Some 0 else map_option Suc (index_of c ds))"

fun last_index_of :: "char \<Rightarrow> string \<Rightarrow> nat option" where
  "last_index_of c [] = None"
| "last_index_of c (d # ds) =
     (case last_index_of c ds of
        Some i \<Rightarrow> Some (Suc i)
      | None \<Rightarrow> if c = d then Some 0 else None)"

text \<open>\<open>net.SplitHostPort\<close>: the host of \<open>host:port\<close> or \<open>[host]:port\<close>, \<open>None\<close> for an error.\<close>

definition split_host_port :: "string \<Rightarrow> string option" where
  "split_host_port hp =
     (case last_index_of CHR '':'' hp of
        None \<Rightarrow> None
      | Some i \<Rightarrow>
          if hd hp = CHR ''['' then
            (case index_of CHR '']'' hp of
               None \<Rightarrow> None
             | Some e \<Rightarrow>
                 if e + 1 = i \<and> CHR ''['' \<notin> set (drop 1 hp) \<and> CHR '']'' \<notin> set (drop (e + 1) hp)
                 then Some (drop 1 (take e hp)) else None)
          else
            (let host = take i hp
             in if CHR '':'' \<in> set host \<or> CHR ''['' \<in> set hp \<or> CHR '']'' \<in> set hp then None
                else Some host))"

text \<open>\<open>strings.EqualFold\<close>, with the folding of ASCII letters that \<open>fold_name\<close> does.\<close>

definition equal_fold :: "string \<Rightarrow> string \<Rightarrow> bool" where
  "equal_fold s t \<longleftrightarrow> fold_name s = fold_name t"

definition CheckOrigin :: "(string \<Rightarrow> string option) \<Rightarrow> string \<Rightarrow> string \<Rightarrow> bool" where
  "CheckOrigin url_hostname origin host =
     (if origin = [] then True
      else case url_hostname origin of
             None \<Rightarrow> False
           | Some originHost \<Rightarrow>
               let requestHost = (case split_host_port host of Some h \<Rightarrow> h | None \<Rightarrow> host)
               in if equal_fold originHost requestHost then True
                  else isLoopbackHost originHost \<and> isLoopbackHost requestHost)"

section \<open>publishState\<close>

record controlPayload =
  wp_Timestamp :: string
  wp_BusID :: string
  wp_FrameID :: string
  wp_Signals :: "(string \<times> ctl_value) list"

definition encode_payload :: "controlPayload \<Rightarrow> json result" where
  "encode_payload p =
     bind_result (encode_go_map encode_value (wp_Signals p)) (\<lambda>sigs.
       Inr (JObj [(''Timestamp'', JStr (wp_Timestamp p)), (''bus_id'', JStr (wp_BusID p)),
                  (''frame_id'', JStr (wp_FrameID p)), (''signals'', sigs)]))"

record web_env =
  we_platform :: go_platform
  we_json_read :: "string \<Rightarrow> json result"
  we_now :: "nat \<Rightarrow> string"
  we_publish :: "nat \<Rightarrow> string \<Rightarrow> json \<Rightarrow> go_error option"

text \<open>A publish on the MQTT client: the topic, the quality of service 0, not retained, and the payload.\<close>

datatype web_pub = WebPublish string json

fun publish_maps ::
  "web_env \<Rightarrow> server \<Rightarrow> nat \<Rightarrow> CommandMap list \<Rightarrow> (web_pub, controlPayload list) traced" where
  "publish_maps env srv n [] = return []"
| "publish_maps env srv n (cmd # cmds) =
     (let payload = \<lparr>wp_Timestamp = we_now env n, wp_BusID = srv_busID srv,
                     wp_FrameID = cm_FrameID cmd, wp_Signals = cm_Signals cmd\<rparr>
      in case encode_payload payload of
           Inl err \<Rightarrow> ([], Inl err)
         | Inr b \<Rightarrow>
             bind_traced
               (call (WebPublish (srv_topic srv) b)
                  (err_or_unit (we_publish env n (srv_topic srv) b)))
               (\<lambda>_. bind_traced (publish_maps env srv (Suc n) cmds) (\<lambda>published.
                 return (payload # published))))"

definition publishState :: "web_env \<Rightarrow> server \<Rightarrow> nat \<Rightarrow> State \<Rightarrow> (web_pub, controlPayload list) traced" where
  "publishState env srv n st =
     publish_maps env srv n (ToCommandMaps (we_platform env) (mapper srv) st (mapOpts srv))"

section \<open>The handlers\<close>

text \<open>A response: an error with its status, one payload, or a list of them.\<close>

datatype web_reply =
    WebError nat go_error
  | WebOne controlPayload
  | WebMany "controlPayload list"

definition reply_of :: "controlPayload list \<Rightarrow> web_reply" where
  "reply_of published = (case published of [p] \<Rightarrow> WebOne p | ps \<Rightarrow> WebMany ps)"

definition handleAPI :: "web_env \<Rightarrow> server \<Rightarrow> nat \<Rightarrow> string \<Rightarrow> string \<Rightarrow> web_pub list \<times> web_reply" where
  "handleAPI env srv n meth body =
     (if meth \<noteq> ''POST'' then ([], WebError 405 (Err ''method not allowed''))
      else case bind_result (we_json_read env body) decode_state of
             Inl err \<Rightarrow> ([], WebError 400 err)
           | Inr st \<Rightarrow>
               (case publishState env srv n st of
                  (ops, Inl err) \<Rightarrow> (ops, WebError 400 err)
                | (ops, Inr published) \<Rightarrow> (ops, reply_of published)))"

text \<open>
  The loop of \<open>handleWS\<close> after the upgrade, on the messages of the connection: it returns at the
  first one that is no state, and answers every other. A failed publish does not end it; its
  answer has \<open>ok: false\<close> and the error, here \<open>WebError 0\<close>.
\<close>

fun handleWS :: "web_env \<Rightarrow> server \<Rightarrow> nat \<Rightarrow> string list \<Rightarrow> web_pub list \<times> web_reply list" where
  "handleWS env srv n [] = ([], [])"
| "handleWS env srv n (msg # msgs) =
     (case bind_result (we_json_read env msg) decode_state of
        Inl err \<Rightarrow> ([], [])
      | Inr st \<Rightarrow>
          (case publishState env srv n st of (ops, r) \<Rightarrow>
             (case handleWS env srv (n + length ops) msgs of (ops', replies) \<Rightarrow>
                (ops @ ops',
                 (case r of Inl err \<Rightarrow> WebError 0 err | Inr published \<Rightarrow> reply_of published) # replies))))"

text \<open>
  The page and the assets. Of a response: its status, the headers the handler sets itself and the
  body (\<open>http.Error\<close> sends its text). For an asset: the caching header that is set and the path
  the library's file server is asked for, \<open>None\<close> if \<open>StripPrefix\<close> answers 404.
\<close>

datatype page = Page nat "(string \<times> string) list" string

definition handleIndex :: "(string \<Rightarrow> string result) \<Rightarrow> page" where
  "handleIndex embedded =
     (case embedded ''assets/index.html'' of
        Inl err \<Rightarrow> Page 500 [] ''failed to load index''
      | Inr indexBody \<Rightarrow> Page 200 [(''Content-Type'', ''text/html; charset=utf-8'')] indexBody)"

definition assetsHandler :: "string \<Rightarrow> string \<times> string option" where
  "assetsHandler path =
     (if suffix ''.js'' path then ''no-cache'' else ''public, max-age=3600'',
      if prefix ''/assets/'' path then Some (drop (length ''/assets/'') path) else None)"

section \<open>Lemmas\<close>

text \<open>Host and port of the two forms.\<close>

lemma last_index_of_None: "c \<notin> set xs \<Longrightarrow> last_index_of c xs = None"
  by (induction xs) auto

lemma last_index_of_last: "c \<notin> set ys \<Longrightarrow> last_index_of c (xs @ c # ys) = Some (length xs)"
  by (induction xs) (auto simp: last_index_of_None)

lemma index_of_first: "c \<notin> set xs \<Longrightarrow> index_of c (xs @ c # ys) = Some (length xs)"
  by (induction xs) auto

lemma split_host_port_plain:
  assumes "set host \<inter> {CHR '':'', CHR ''['', CHR '']''} = {}" "set port \<inter> {CHR '':'', CHR ''['', CHR '']''} = {}"
  shows "split_host_port (host @ CHR '':'' # port) = Some host"
proof -
  have "last_index_of CHR '':'' (host @ CHR '':'' # port) = Some (length host)"
    using assms(2) by (intro last_index_of_last) auto
  moreover have "hd (host @ CHR '':'' # port) \<noteq> CHR ''[''" using assms(1) by (cases host) auto
  ultimately show ?thesis using assms by (auto simp: split_host_port_def Let_def)
qed

lemma split_host_port_bracketed:
  assumes "set host \<inter> {CHR ''['', CHR '']''} = {}" "set port \<inter> {CHR '':'', CHR ''['', CHR '']''} = {}"
  shows "split_host_port (CHR ''['' # host @ CHR '']'' # CHR '':'' # port) = Some host"
proof -
  have "last_index_of CHR '':'' ((CHR ''['' # host @ [CHR '']'']) @ CHR '':'' # port) =
      Some (length (CHR ''['' # host @ [CHR '']'']))"
    using assms(2) by (intro last_index_of_last) auto
  moreover have "index_of CHR '']'' ((CHR ''['' # host) @ CHR '']'' # CHR '':'' # port) = Some (length (CHR ''['' # host))"
    using assms(1) by (intro index_of_first) auto
  ultimately show ?thesis using assms by (auto simp: split_host_port_def)
qed

lemma default_frame_some: "\<exists>i\<in>set (option_ids (default_frame opts)). i \<noteq> []"
proof (rule ccontr)
  assume "\<not> ?thesis"
  then have e: "list_all (\<lambda>i. i = []) (option_ids (default_frame opts))" by (simp add: list_all_iff)
  let ?p = "BaseFrameID opts = [] \<and> GamepadMsgFrameID opts = [] \<and> AllAxes0FrameID opts = [] \<and>
    AllAxes1FrameID opts = [] \<and> AllButtonsPressedFrameID opts = [] \<and>
    AllButtonsValue0FrameID opts = [] \<and> AllButtonsValue1FrameID opts = []"
  show False
  proof (cases ?p)
    case True
    then have "default_frame opts = opts\<lparr>BaseFrameID := ''0x2''\<rparr>" by (simp add: default_frame_def)
    then show False using e by (simp add: option_ids_def)
  next
    case False
    then have "default_frame opts = opts" unfolding default_frame_def by (rule if_not_P)
    then show False using e False by (simp add: option_ids_def)
  qed
qed

lemma override_options_frame: "\<exists>i\<in>set (option_ids (override_options fl o0)). i \<noteq> []"
  unfolding override_options_def Let_def by (rule default_frame_some)

text \<open>Payloads of finite values can be encoded, and a reader gets them back.\<close>

lemma encode_payload_ok: "values_within c (wp_Signals p) \<Longrightarrow> is_ok (encode_payload p)"
proof -
  assume *: "values_within c (wp_Signals p)"
  have "is_ok (encode_value v)" if "ctl_within c v" for v
    using that by (cases v) (auto simp: encode_value_ok simp del: encode_value.simps intro: fin_within_imp_fin)
  with * have "is_ok (encode_go_map encode_value (wp_Signals p))"
    by (auto simp: encode_go_map_ok values_within_def list_all_iff)
  then show ?thesis by (cases "encode_go_map encode_value (wp_Signals p)") (simp_all add: encode_payload_def)
qed

lemma decode_encoded_members:
  assumes "encode_members encode_value kvs = Inr ms" "values_within c kvs" "representable c"
    "distinct (map fst kvs)"
  shows "decode_members ms [] = Inr (map (\<lambda>(k, v). (k, iface_of v)) kvs)"
proof -
  have "list_all2 (\<lambda>(k, v) (k', j). k' = k \<and> encode_value v = Inr j) kvs ms"
    using assms(1) by (simp add: encode_members_Inr)
  moreover have "wf_f64 x" if "(k, CNum x) \<in> set kvs" for k x
  proof -
    have "ctl_within c (snd (k, CNum x))" using assms(2) that unfolding values_within_def list_all_iff by blast
    then show ?thesis using assms(3) by (simp add: fin_within_imp_wf)
  qed
  ultimately have "list_all2 (\<lambda>(k, j) (k', v). k = k' \<and> decode_iface j = Inr v) ms
      (map (\<lambda>(k, v). (k, iface_of v)) kvs)"
    by (auto simp: list_all2_conv_all_nth split: prod.splits
        intro!: decode_encode_value dest: nth_mem) (metis nth_mem)
  then show ?thesis
    using decode_members_distinct [of ms "map (\<lambda>(k, v). (k, iface_of v)) kvs" "[]"] assms(4)
    by (simp add: comp_def case_prod_beta)
qed

lemma decode_payload_encoded:
  assumes "encode_payload p = Inr j" "values_within c (wp_Signals p)" "representable c"
    "distinct (map fst (wp_Signals p))"
  shows "decode_payload j =
    Inr \<lparr>cp_Timestamp = wp_Timestamp p, cp_BusID = wp_BusID p, cp_FrameID = wp_FrameID p,
         cp_Signals = map (\<lambda>(k, v). (k, iface_of v)) (sort_key fst (wp_Signals p))\<rparr>"
proof -
  obtain ms where ms: "encode_members encode_value (sort_key fst (wp_Signals p)) = Inr ms"
    and j: "j = JObj [(''Timestamp'', JStr (wp_Timestamp p)), (''bus_id'', JStr (wp_BusID p)),
                  (''frame_id'', JStr (wp_FrameID p)), (''signals'', JObj ms)]"
    using assms(1) by (auto simp: encode_payload_def encode_go_map_def bind_result_eq_Inr)
  have "decode_members ms [] = Inr (map (\<lambda>(k, v). (k, iface_of v)) (sort_key fst (wp_Signals p)))"
    using assms(2-4)
    by (intro decode_encoded_members [OF ms, of c])
       (auto simp: values_within_def list_all_iff distinct_keys_sort_key)
  then show ?thesis
    by (simp add: j decode_payload_member_def match_field_def payload_fields_def empty_payload_def)
qed

text \<open>The payloads of a list of commands, the first one published as number \<open>n\<close>.\<close>

fun payloads_of :: "web_env \<Rightarrow> server \<Rightarrow> nat \<Rightarrow> CommandMap list \<Rightarrow> controlPayload list" where
  "payloads_of env srv n [] = []"
| "payloads_of env srv n (cmd # cmds) =
     \<lparr>wp_Timestamp = we_now env n, wp_BusID = srv_busID srv, wp_FrameID = cm_FrameID cmd,
      wp_Signals = cm_Signals cmd\<rparr> # payloads_of env srv (Suc n) cmds"

lemma payloads_of_sel [simp]:
  "length (payloads_of env srv n cmds) = length cmds"
  "map wp_FrameID (payloads_of env srv n cmds) = map cm_FrameID cmds"
  "map wp_Signals (payloads_of env srv n cmds) = map cm_Signals cmds"
  by (induction cmds arbitrary: n) simp_all

lemma payloads_of_bus: "p \<in> set (payloads_of env srv n cmds) \<Longrightarrow> wp_BusID p = srv_busID srv"
  by (induction cmds arbitrary: n) auto

text \<open>The publish of one payload.\<close>

definition pub_of :: "server \<Rightarrow> controlPayload \<Rightarrow> web_pub" where
  "pub_of srv p = WebPublish (srv_topic srv) (projr (encode_payload p))"

lemma publish_maps_Cons:
  assumes "encode_payload \<lparr>wp_Timestamp = we_now env n, wp_BusID = srv_busID srv,
      wp_FrameID = cm_FrameID cmd, wp_Signals = cm_Signals cmd\<rparr> = Inr b"
  shows "publish_maps env srv n (cmd # cmds) =
     (case we_publish env n (srv_topic srv) b of
        Some e \<Rightarrow> ([WebPublish (srv_topic srv) b], Inl e)
      | None \<Rightarrow>
          (WebPublish (srv_topic srv) b # fst (publish_maps env srv (Suc n) cmds),
           map_sum id (\<lambda>ps. \<lparr>wp_Timestamp = we_now env n, wp_BusID = srv_busID srv,
             wp_FrameID = cm_FrameID cmd, wp_Signals = cm_Signals cmd\<rparr> # ps)
             (snd (publish_maps env srv (Suc n) cmds))))"
  using assms
  by (cases "publish_maps env srv (Suc n) cmds"; cases "snd (publish_maps env srv (Suc n) cmds)")
     (auto simp: Let_def split: option.splits)

text \<open>
  Commands whose payloads can be encoded: what is published is a part of the payloads from the
  first on, all of them unless a publish fails, and then the failed one is the last.
\<close>

lemma publish_maps_ops:
  assumes "\<forall>p\<in>set (payloads_of env srv n cmds). is_ok (encode_payload p)"
  shows "prefix (fst (publish_maps env srv n cmds)) (map (pub_of srv) (payloads_of env srv n cmds))"
    and "snd (publish_maps env srv n cmds) = Inr ps \<Longrightarrow>
      ps = payloads_of env srv n cmds \<and>
      fst (publish_maps env srv n cmds) = map (pub_of srv) (payloads_of env srv n cmds)"
    and "snd (publish_maps env srv n cmds) = Inl e \<Longrightarrow>
      \<exists>k b. k < length cmds \<and> length (fst (publish_maps env srv n cmds)) = Suc k \<and>
        fst (publish_maps env srv n cmds) ! k = WebPublish (srv_topic srv) b \<and>
        we_publish env (n + k) (srv_topic srv) b = Some e"
  using assms
proof (induction cmds arbitrary: n ps)
  case (Cons cmd cmds)
  let ?p = "\<lambda>n. \<lparr>wp_Timestamp = we_now env n, wp_BusID = srv_busID srv,
    wp_FrameID = cm_FrameID cmd, wp_Signals = cm_Signals cmd\<rparr>"
  have rest: "\<forall>p\<in>set (payloads_of env srv (Suc n) cmds). is_ok (encode_payload p)"
    if "\<forall>p\<in>set (payloads_of env srv n (cmd # cmds)). is_ok (encode_payload p)" for n using that by simp
  have b: "\<exists>b. encode_payload (?p n) = Inr b"
    if "\<forall>p\<in>set (payloads_of env srv n (cmd # cmds)). is_ok (encode_payload p)" for n
    using that by (cases "encode_payload (?p n)") auto
  {
    case 1
    obtain b where b: "encode_payload (?p n) = Inr b" using b [OF 1] by (elim exE)
    show ?case using Cons.IH(1) [OF rest [OF 1]] unfolding publish_maps_Cons [of env n srv cmd b, OF b]
      by (simp add: pub_of_def b split: option.split)
  next
    case 2
    obtain b where b: "encode_payload (?p n) = Inr b" using b [OF 2(2)] by (elim exE)
    show ?case using 2 Cons.IH(2) [OF _ rest [OF 2(2)]]
      unfolding publish_maps_Cons [of env n srv cmd b, OF b]
      by (cases "snd (publish_maps env srv (Suc n) cmds)")
         (auto simp: pub_of_def b split: option.splits)
  next
    case 3
    obtain b where b: "encode_payload (?p n) = Inr b" using b [OF 3(2)] by (elim exE)
    show ?case
    proof (cases "we_publish env n (srv_topic srv) b")
      case None
      with 3 b have "snd (publish_maps env srv (Suc n) cmds) = Inl e"
        unfolding publish_maps_Cons [of env n srv cmd b, OF b]
        by (cases "snd (publish_maps env srv (Suc n) cmds)") auto
      from Cons.IH(3) [OF this rest [OF 3(2)]] obtain k c where
        "k < length cmds" "length (fst (publish_maps env srv (Suc n) cmds)) = Suc k"
        "fst (publish_maps env srv (Suc n) cmds) ! k = WebPublish (srv_topic srv) c"
        "we_publish env (Suc n + k) (srv_topic srv) c = Some e" by blast
      then show ?thesis using None unfolding publish_maps_Cons [of env n srv cmd b, OF b]
        by (intro exI [of _ "Suc k"]) auto
    next
      case (Some e')
      then show ?thesis using 3 b unfolding publish_maps_Cons [of env n srv cmd b, OF b]
        by (intro exI [of _ 0]) auto
    qed
  }
qed (simp_all add: return_def)

lemma publish_maps_topic:
  "set (fst (publish_maps env srv n cmds)) \<subseteq> range (WebPublish (srv_topic srv))"
proof (induction cmds arbitrary: n)
  case (Cons cmd cmds)
  show ?case
  proof (cases "encode_payload \<lparr>wp_Timestamp = we_now env n, wp_BusID = srv_busID srv,
      wp_FrameID = cm_FrameID cmd, wp_Signals = cm_Signals cmd\<rparr>")
    case (Inr b)
    show ?thesis unfolding publish_maps_Cons [OF Inr]
      using Cons.IH [of "Suc n"] by (simp split: option.split)
  qed simp
qed (simp add: return_def)

text \<open>The mapped state of a decoded input.\<close>

lemma ToCommandMaps_within:
  assumes "scale_ok m k" "state_ok s" "cmd \<in> set (ToCommandMaps pl m s opts)"
  shows "values_within (max (of_int k) 128) (cm_Signals cmd)" "distinct (map fst (cm_Signals cmd))"
  using ToCommandMaps_signals [OF assms(3)] signal_maps_within [OF assms(1,2)] signal_maps_distinct
  by blast+

lemma payloads_of_mem:
  "p \<in> set (payloads_of env srv n cmds) \<Longrightarrow>
   \<exists>cmd\<in>set cmds. wp_FrameID p = cm_FrameID cmd \<and> wp_Signals p = cm_Signals cmd"
  by (induction cmds arbitrary: n) auto

lemma payloads_of_cmd:
  "cmd \<in> set cmds \<Longrightarrow>
   \<exists>p\<in>set (payloads_of env srv n cmds). wp_FrameID p = cm_FrameID cmd \<and> wp_Signals p = cm_Signals cmd"
  by (induction cmds arbitrary: n) auto

lemma mapped_payload_ok:
  assumes "scale_ok m k" "state_ok s" "p \<in> set (payloads_of env srv n (ToCommandMaps pl m s opts))"
  shows "values_within (max (of_int k) 128) (wp_Signals p)" "distinct (map fst (wp_Signals p))"
    "is_ok (encode_payload p)"
proof -
  obtain cmd where cmd: "cmd \<in> set (ToCommandMaps pl m s opts)" "wp_Signals p = cm_Signals cmd"
    using payloads_of_mem [OF assms(3)] by blast
  show w: "values_within (max (of_int k) 128) (wp_Signals p)" "distinct (map fst (wp_Signals p))"
    using ToCommandMaps_within [OF assms(1,2) cmd(1)] by (simp_all add: cmd(2))
  show "is_ok (encode_payload p)" using encode_payload_ok [OF w(1)] .
qed

section \<open>Properties\<close>

definition example_web_env :: "(nat \<Rightarrow> go_error option) \<Rightarrow> web_env" where
  "example_web_env err =
     \<lparr>we_platform = example_platform, we_json_read = (\<lambda>_. Inr (JObj [])), we_now = (\<lambda>_. ''now''),
      we_publish = (\<lambda>n t b. err n)\<rparr>"

definition example_server :: "MultiMapOptions \<Rightarrow> server" where
  "example_server opts = \<lparr>mapper = NewMapper, srv_topic = ''/rx/d/ctrl'', srv_busID = ''can0'', mapOpts = opts\<rparr>"

text \<open>The payloads of a state, the first one published as number \<open>n\<close>.\<close>

definition state_payloads :: "web_env \<Rightarrow> server \<Rightarrow> nat \<Rightarrow> State \<Rightarrow> controlPayload list" where
  "state_payloads env srv n st =
     payloads_of env srv n (ToCommandMaps (we_platform env) (mapper srv) st (mapOpts srv))"

lemma decoded_payloads_ok:
  assumes "decode_state j = Inr st" "mapper srv = NewMapper"
  shows "\<forall>p\<in>set (state_payloads env srv n st). is_ok (encode_payload p)"
  using mapped_payload_ok(3) [of "mapper srv" 100 st] decode_state_ok [OF assms(1)] assms(2)
  by (auto simp: state_payloads_def)

text \<open>
  C21 For a decoded state \<open>publishState\<close> publishes the payloads of its frames in order on the server's
  topic, beginning with the first: all of them, and then it returns them, or up to one whose publish
  failed, and then it returns that failure. No payload fails to be encoded.
\<close>

theorem publishState_outcome:
  assumes "decode_state j = Inr st" "mapper srv = NewMapper"
  shows "map wp_FrameID (state_payloads env srv n st) = filter (\<lambda>i. i \<noteq> []) (option_ids (mapOpts srv)) \<and>
    prefix (fst (publishState env srv n st)) (map (pub_of srv) (state_payloads env srv n st)) \<and>
    (case snd (publishState env srv n st) of
       Inr published \<Rightarrow> published = state_payloads env srv n st \<and>
         fst (publishState env srv n st) = map (pub_of srv) published
     | Inl e \<Rightarrow> \<exists>k b. k < length (state_payloads env srv n st) \<and>
         length (fst (publishState env srv n st)) = Suc k \<and>
         fst (publishState env srv n st) ! k = WebPublish (srv_topic srv) b \<and>
         we_publish env (n + k) (srv_topic srv) b = Some e)"
proof -
  note ok = decoded_payloads_ok [OF assms, of env n]
  note ops = publish_maps_ops [OF ok [unfolded state_payloads_def], folded state_payloads_def publishState_def]
  have len: "length (state_payloads env srv n st) =
      length (ToCommandMaps (we_platform env) (mapper srv) st (mapOpts srv))"
    by (simp add: state_payloads_def)
  have "map wp_FrameID (state_payloads env srv n st) = filter (\<lambda>i. i \<noteq> []) (option_ids (mapOpts srv))"
    by (simp add: state_payloads_def ToCommandMaps_ids)
  then show ?thesis using ops by (auto simp: len split: sum.split)
qed

lemma publishState_outcome_witness:
  "length (fst (publishState (example_web_env (\<lambda>n. if n = 1 then Some (Err ''x'') else None))
      (example_server (no_options\<lparr>BaseFrameID := ''2'', SteerFrameID := ''3''\<rparr>)) 0 \<lparr>Axes = [], Buttons = []\<rparr>)) \<le> 2"
proof -
  let ?srv = "example_server (no_options\<lparr>BaseFrameID := ''2'', SteerFrameID := ''3''\<rparr>)"
  let ?env = "example_web_env (\<lambda>n. if n = 1 then Some (Err ''x'') else None)"
  have d: "decode_state JNull = Inr \<lparr>Axes = [], Buttons = []\<rparr>" by simp
  have m: "mapper ?srv = NewMapper" by (simp add: example_server_def)
  have "length (state_payloads ?env ?srv 0 \<lparr>Axes = [], Buttons = []\<rparr>) = 2"
    using publishState_outcome [OF d m, of ?env 0, THEN conjunct1, THEN arg_cong [where f = length]]
    by (simp add: example_server_def no_options_def option_ids_def)
  moreover have "length (fst (publishState ?env ?srv 0 \<lparr>Axes = [], Buttons = []\<rparr>)) \<le>
      length (map (pub_of ?srv) (state_payloads ?env ?srv 0 \<lparr>Axes = [], Buttons = []\<rparr>))"
    using publishState_outcome [OF d m, of ?env 0] by (intro prefix_length_le) (elim conjE)
  ultimately show ?thesis by simp
qed



text \<open>
  C33 A websocket connection gets one answer for each message up to the first that is no gamepad
  state, failed publishes included, and that message ends it: nothing of it or of what follows is
  published. What is published all goes to the server's topic.
\<close>

theorem handleWS_answers:
  "length (snd (handleWS env srv n msgs)) =
     length (takeWhile (\<lambda>m. is_ok (bind_result (we_json_read env m) decode_state)) msgs) \<and>
   handleWS env srv n msgs =
     handleWS env srv n (takeWhile (\<lambda>m. is_ok (bind_result (we_json_read env m) decode_state)) msgs) \<and>
   set (fst (handleWS env srv n msgs)) \<subseteq> range (WebPublish (srv_topic srv))"
proof (induction msgs arbitrary: n)
  case (Cons m msgs)
  show ?case
  proof (cases "bind_result (we_json_read env m) decode_state")
    case (Inr st)
    obtain ops r where p: "publishState env srv n st = (ops, r)" by (rule prod.exhaust)
    obtain ops' rs where h: "handleWS env srv (n + length ops) msgs = (ops', rs)" by (rule prod.exhaust)
    have "set ops \<subseteq> range (WebPublish (srv_topic srv))"
      using publish_maps_topic [of env srv n] p by (simp add: publishState_def) (metis fst_conv)
    moreover have "length rs = length (takeWhile (\<lambda>m. is_ok (bind_result (we_json_read env m) decode_state)) msgs)"
      "handleWS env srv (n + length ops)
         (takeWhile (\<lambda>m. is_ok (bind_result (we_json_read env m) decode_state)) msgs) = (ops', rs)"
      "set ops' \<subseteq> range (WebPublish (srv_topic srv))"
      using Cons.IH [of "n + length ops"] unfolding h by simp_all
    ultimately show ?thesis using Inr p h by simp
  qed simp
qed simp

text \<open>
  C39 The origin check. For a request to \<open>host:port\<close>, or to \<open>[address]:port\<close> for an address with
  colons, an upgrade that names an origin is accepted if and only if the origin parses and its host
  is the requested host up to letter case, or both are names of the local machine; the port plays
  no part.
\<close>

theorem origin_checked:
  assumes "origin \<noteq> []" "set port \<inter> {CHR '':'', CHR ''['', CHR '']''} = {}"
    and "set host \<inter> {CHR ''['', CHR '']''} = {}"
  shows "CheckOrigin url_hostname origin
      (if CHR '':'' \<in> set host then CHR ''['' # host @ CHR '']'' # CHR '':'' # port else host @ CHR '':'' # port) \<longleftrightarrow>
    (case url_hostname origin of
       None \<Rightarrow> False
     | Some oh \<Rightarrow> fold_name oh = fold_name host \<or> isLoopbackHost oh \<and> isLoopbackHost host)"
proof -
  have "split_host_port (CHR ''['' # host @ CHR '']'' # CHR '':'' # port) = Some host"
    by (rule split_host_port_bracketed) (use assms in auto)
  moreover have "split_host_port (host @ CHR '':'' # port) = Some host" if "CHR '':'' \<notin> set host"
    by (rule split_host_port_plain) (use assms that in auto)
  ultimately show ?thesis using assms(1)
    by (auto simp: CheckOrigin_def Let_def equal_fold_def split: option.split)
qed

lemma origin_checked_witness:
  "CheckOrigin (\<lambda>_. Some ''LOCALHOST'') ''http://LOCALHOST:1'' ''[::1]:8088'' \<and>
   \<not> CheckOrigin (\<lambda>_. Some ''evil'') ''http://evil'' ''pi:8088''"
proof -
  have "isLoopbackHost ''LOCALHOST''" "isLoopbackHost ''::1''" "\<not> isLoopbackHost ''evil''"
    "fold_name ''evil'' \<noteq> fold_name ''pi''" by code_simp+
  then show ?thesis
    using origin_checked [of "''http://LOCALHOST:1''" "''8088''" "''::1''" "\<lambda>_. Some ''LOCALHOST''"]
      origin_checked [of "''http://evil''" "''8088''" "''pi''" "\<lambda>_. Some ''evil''"]
    by simp
qed




definition example_mapping :: fileMapping where
  "example_mapping =
     \<lparr>fm_base_FrameID = [], fm_base_ControlCommand = [], fm_base_ControlValue = [],
      fm_steer_FrameID = [], fm_steer_SteeringCommand = [], fm_steer_SteeringEnable = [],
      fm_trigger_FrameID = [], fm_trigger_BrakeCommand = [], fm_trigger_ThrottleCommand = [],
      fm_buttons_FrameID = [], fm_buttons_HornCommand = [], fm_buttons_LightToggle = [],
      fm_buttons_ModeNext = [], fm_buttons_ModePrevious = [], fm_GamepadMsgFrameID = '' 0x210 '',
      fm_Axes0FrameID = [], fm_Axes1FrameID = [], fm_ButtonsPressedFrameID = [],
      fm_ButtonsValue0FrameID = [], fm_ButtonsValue1FrameID = []\<rparr>"


end
