(* ===== verification/Can_Codec.thy ===== *)
theory Can_Codec
  imports Can_Handler
begin

text \<open>
  The contract between the frame builder and the bit library, and what follows from it.

  \<open>can_library\<close> states what the code relies on in \<open>go.einride.tech/can\<close>: a signal reads back
  what was written into its bits, and writing a signal leaves the signals whose bits lie
  apart alone. \<open>signal_codec\<close> is the same contract for physical values, which the loops of
  \<open>MakeFrame\<close> need; the model's own \<open>write_signal\<close> meets it wherever the library meets its.
  The last section meets the contract with concrete functions on the 64 bits of a frame.
\<close>

section \<open>The contract for physical values\<close>

locale signal_codec =
  fixes wr :: "sig_desc \<Rightarrow> f64 \<Rightarrow> 'd \<Rightarrow> 'd"
    and rd :: "sig_desc \<Rightarrow> 'd \<Rightarrow> f64"
    and quant :: "sig_desc \<Rightarrow> f64 \<Rightarrow> f64"
    and fits :: "sig_desc \<Rightarrow> bool"
    and apart :: "sig_desc \<Rightarrow> sig_desc \<Rightarrow> bool"
  assumes rd_wr: "fits s \<Longrightarrow> rd s (wr s v d) = quant s v"
    and rd_wr_apart: "fits s \<Longrightarrow> fits t \<Longrightarrow> apart s t \<Longrightarrow> rd t (wr s v d) = rd t d"
begin

lemma rd_write_defs_apart:
  "(\<And>s. s \<in> set defs \<Longrightarrow> fits s \<and> apart s t) \<Longrightarrow> fits t
   \<Longrightarrow> rd t (write_defs wr val defs d) = rd t d"
proof (induction defs arbitrary: d)
  case (Cons s defs)
  then show ?case by (simp add: write_defs_def rd_wr_apart split: option.split)
qed (simp add: write_defs_def)

text \<open>After all writes every signal reads its own value, or what the data held before.\<close>

lemma rd_write_defs:
  assumes "t \<in> set defs" and "distinct defs" and "\<And>s. s \<in> set defs \<Longrightarrow> fits s"
    and "\<And>s u. s \<in> set defs \<Longrightarrow> u \<in> set defs \<Longrightarrow> s \<noteq> u \<Longrightarrow> apart s u"
  shows "rd t (write_defs wr val defs d) =
         (case val (s_Name t) of None \<Rightarrow> rd t d | Some v \<Rightarrow> quant t v)"
  using assms
proof (induction defs arbitrary: d)
  case (Cons s defs)
  let ?d = "case val (s_Name s) of None \<Rightarrow> d | Some v \<Rightarrow> wr s v d"
  have step: "write_defs wr val (s # defs) d = write_defs wr val defs ?d"
    by (simp add: write_defs_def)
  show ?case
  proof (cases "t = s")
    case True
    have "rd t (write_defs wr val defs ?d) = rd t ?d"
      using Cons.prems True by (intro rd_write_defs_apart) (simp, metis, simp)
    then show ?thesis
      using Cons.prems True unfolding step by (simp add: rd_wr split: option.split)
  next
    case False
    with Cons.prems have "rd t (write_defs wr val defs ?d) =
        (case val (s_Name t) of None \<Rightarrow> rd t ?d | Some v \<Rightarrow> quant t v)"
      by (intro Cons.IH) simp_all
    moreover have "rd t ?d = rd t d"
      using Cons.prems False by (simp add: rd_wr_apart split: option.split)
    ultimately show ?thesis unfolding step by (simp only:)
  qed
qed simp

end

section \<open>The contract of the library\<close>

locale can_library =
  fixes lib :: can_lib
    and pl :: go_platform
    and phys :: "sig_desc \<Rightarrow> 64 word \<Rightarrow> f64"
    and fits :: "sig_desc \<Rightarrow> bool"
    and apart :: "sig_desc \<Rightarrow> sig_desc \<Rightarrow> bool"
  assumes unmarshal_set: "fits s \<Longrightarrow> UnmarshalPhysical lib s (set_bits lib s w d) = phys s w"
    and unmarshal_set_apart: "fits s \<Longrightarrow> fits t \<Longrightarrow> apart s t \<Longrightarrow>
      UnmarshalPhysical lib t (set_bits lib s w d) = UnmarshalPhysical lib t d"

sublocale can_library \<subseteq> codec: signal_codec
  "write_signal lib pl" "UnmarshalPhysical lib" "\<lambda>s v. phys s (raw_of lib pl s v)" fits apart
  by unfold_locales (simp_all add: write_signal_def unmarshal_set unmarshal_set_apart)

text \<open>The bits of a message's signals do not overlap.\<close>

definition layout_ok :: "(sig_desc \<Rightarrow> bool) \<Rightarrow> (sig_desc \<Rightarrow> sig_desc \<Rightarrow> bool) \<Rightarrow> sig_desc list \<Rightarrow> bool" where
  "layout_ok fits apart defs \<longleftrightarrow>
     distinct defs \<and> list_all fits defs \<and>
     list_all (\<lambda>s. list_all (\<lambda>t. s \<noteq> t \<longrightarrow> apart s t) defs) defs"

text \<open>What a signal of a frame that \<open>MakeFrame\<close> built from \<open>sigs\<close> reads as.\<close>

definition expected ::
  "can_lib \<Rightarrow> go_platform \<Rightarrow> (sig_desc \<Rightarrow> 64 word \<Rightarrow> f64) \<Rightarrow> Signal list \<Rightarrow> sig_desc \<Rightarrow> f64" where
  "expected lib pl phys sigs sd =
     (case value_of sigs (s_Name sd) of
        None \<Rightarrow> UnmarshalPhysical lib sd 0
      | Some v \<Rightarrow> phys sd (raw_of lib pl sd v))"

definition selected ::
  "can_lib \<Rightarrow> go_platform \<Rightarrow> (sig_desc \<Rightarrow> f64) \<Rightarrow> msg_desc \<Rightarrow> sig_desc \<Rightarrow> bool" where
  "selected lib pl val md sd \<longleftrightarrow>
     s_IsMultiplexed sd \<longrightarrow>
     (case MultiplexerSignal lib md of
        None \<Rightarrow> False
      | Some switch \<Rightarrow> f64_to_uint64 pl (val switch) = s_MultiplexerValue sd)"

lemma parse_signal_eq:
  "parse_signal lib pl md d sd =
     (if selected lib pl (\<lambda>s. UnmarshalPhysical lib s d) md sd
      then Some \<lparr>sig_Name = s_Name sd, sig_Value = UnmarshalPhysical lib sd d,
                 sig_Unit = s_Unit sd\<rparr>
      else None)"
  by (simp add: parse_signal_def selected_def Let_def split: option.split)

lemma map_filter_if:
  "List.map_filter (\<lambda>x. if P x then Some (f x) else None) xs = map f (filter P xs)"
  by (induction xs) (simp_all add: List.map_filter_def)

lemma ParseFrame_eq:
  "h_sigDB h = Some db \<Longrightarrow> Msgs db (f_ID f) = Some md \<Longrightarrow>
   ParseFrame lib pl h f =
     map (\<lambda>sd. \<lparr>sig_Name = s_Name sd, sig_Value = UnmarshalPhysical lib sd (f_Data f),
                sig_Unit = s_Unit sd\<rparr>)
       (filter (selected lib pl (\<lambda>s. UnmarshalPhysical lib s (f_Data f)) md) (m_Signals md))"
  by (simp add: ParseFrame_def parse_signal_eq [abs_def] map_filter_if)

context can_library
begin

lemma unmarshal_encoded:
  assumes "distinct (map sig_Name sigs)" and "layout_ok fits apart defs" and "sd \<in> set defs"
  shows "UnmarshalPhysical lib sd (encode_signals lib pl defs sigs 0) = expected lib pl phys sigs sd"
  using assms codec.rd_write_defs [of sd defs "value_of sigs" 0]
  by (simp add: encode_signals_distinct layout_ok_def list_all_iff expected_def)

text \<open>Decoding an encoded command: the selected signals, in the order of the definitions.\<close>

lemma parse_make:
  assumes "h_sigDB h = Some db" and "Msgs db (dm_FrameID msg) = Some md"
    and "MakeFrame lib pl h msg = Inr f"
    and "distinct (map sig_Name (dm_Signals msg))"
    and "layout_ok fits apart (m_Signals md)"
    and "\<And>switch. MultiplexerSignal lib md = Some switch \<Longrightarrow> switch \<in> set (m_Signals md)"
  shows "ParseFrame lib pl h f =
         map (\<lambda>sd. \<lparr>sig_Name = s_Name sd,
                    sig_Value = expected lib pl phys (dm_Signals msg) sd,
                    sig_Unit = s_Unit sd\<rparr>)
           (filter (selected lib pl (expected lib pl phys (dm_Signals msg)) md) (m_Signals md))"
proof -
  let ?val = "\<lambda>s. UnmarshalPhysical lib s (f_Data f)"
  have f: "f_ID f = dm_FrameID msg" "f_Data f = encode_signals lib pl (m_Signals md) (dm_Signals msg) 0"
    using assms(1-3) by (auto simp: MakeFrame_def)
  have val: "?val sd = expected lib pl phys (dm_Signals msg) sd" if "sd \<in> set (m_Signals md)" for sd
    using unmarshal_encoded [OF assms(4,5) that] by (simp add: f)
  have "selected lib pl ?val md sd = selected lib pl (expected lib pl phys (dm_Signals msg)) md sd" for sd
    using val assms(6) by (simp add: selected_def split: option.split)
  then show ?thesis
    using assms(1,2) val by (simp add: ParseFrame_eq f(1) cong: filter_cong map_cong)
qed

end

section \<open>The contract met on the bits of a frame\<close>

text \<open>
  The bit positions of a signal from its least significant bit up, for both byte orders of a
  DBC file: an Intel signal starts at its least significant bit and goes up; a Motorola
  signal starts at its most significant bit and goes down, from bit 0 of a byte to bit 7 of
  the next one.
\<close>

fun motorola :: "nat \<Rightarrow> nat \<Rightarrow> nat list" where
  "motorola p 0 = []"
| "motorola p (Suc n) = p # motorola (if p mod 8 = 0 then p + 15 else p - 1) n"

definition bit_positions :: "bool \<Rightarrow> 8 word \<Rightarrow> 8 word \<Rightarrow> nat list" where
  "bit_positions be start len =
     (if be then rev (motorola (unat start) (unat len))
      else [unat start ..< unat start + unat len])"

fun put_bits :: "nat list \<Rightarrow> 64 word \<Rightarrow> can_data \<Rightarrow> can_data" where
  "put_bits [] w d = d"
| "put_bits (p # ps) w d =
     put_bits ps (drop_bit 1 w) (if bit w 0 then set_bit p d else unset_bit p d)"

definition get_bits :: "nat list \<Rightarrow> can_data \<Rightarrow> 64 word" where
  "get_bits ps d = horner_sum of_bool 2 (map (bit d) ps)"

definition sig_positions :: "sig_desc \<Rightarrow> nat list" where
  "sig_positions sd = bit_positions (s_IsBigEndian sd) (s_Start sd) (s_Length sd)"

definition bits_fit :: "sig_desc \<Rightarrow> bool" where
  "bits_fit sd \<longleftrightarrow> distinct (sig_positions sd) \<and> list_all (\<lambda>p. p < 64) (sig_positions sd)"

definition bits_apart :: "sig_desc \<Rightarrow> sig_desc \<Rightarrow> bool" where
  "bits_apart s t \<longleftrightarrow> list_all (\<lambda>p. p \<notin> set (sig_positions t)) (sig_positions s)"

text \<open>The number in a signal's bits (two's complement when signed), scaled; no offset.\<close>

definition bits_phys :: "sig_desc \<Rightarrow> 64 word \<Rightarrow> f64" where
  "bits_phys sd w =
     (let n = unat (s_Length sd); u = take_bit n (uint w);
          i = (if s_IsSigned sd \<and> 0 < n \<and> bit u (n - 1) then u - 2 ^ n else u)
      in f64_of_int i * s_Scale sd)"

definition bits_lib :: can_lib where
  "bits_lib =
     \<lparr>UnmarshalPhysical = (\<lambda>sd d. bits_phys sd (get_bits (sig_positions sd) d)),
      FromPhysical = (\<lambda>sd v. v / s_Scale sd),
      MultiplexerSignal = (\<lambda>md. find s_IsMultiplexer (m_Signals md)),
      SetSignedBitsBigEndian = (\<lambda>start len. put_bits (bit_positions True start len)),
      SetUnsignedBitsBigEndian = (\<lambda>start len. put_bits (bit_positions True start len)),
      SetSignedBitsLittleEndian = (\<lambda>start len. put_bits (bit_positions False start len)),
      SetUnsignedBitsLittleEndian = (\<lambda>start len. put_bits (bit_positions False start len))\<rparr>"

definition saturating :: go_platform where
  "saturating =
     \<lparr>oor_int64 = (\<lambda>x. case x of NaN \<Rightarrow> 0
                       | Inf s \<Rightarrow> if s then word_of_int (- (2 ^ 63)) else word_of_int (2 ^ 63 - 1)
                       | Fin s m \<Rightarrow> if s then word_of_int (- (2 ^ 63)) else word_of_int (2 ^ 63 - 1)),
      oor_uint64 = (\<lambda>x. case x of NaN \<Rightarrow> 0
                        | Inf s \<Rightarrow> if s then 0 else word_of_int (2 ^ 64 - 1)
                        | Fin s m \<Rightarrow> if s then 0 else word_of_int (2 ^ 64 - 1))\<rparr>"

lemma set_bits_bits_lib: "set_bits bits_lib sd w d = put_bits (sig_positions sd) w d"
  by (simp add: set_bits_def bits_lib_def sig_positions_def)

lemma bit_put_bits_notin: "p \<notin> set ps \<Longrightarrow> bit (put_bits ps w d) p = bit d p"
  by (induction ps w d rule: put_bits.induct) (auto simp: bit_set_bit_iff bit_unset_bit_iff)

lemma bit_put_bits_nth:
  "distinct ps \<Longrightarrow> \<forall>p\<in>set ps. p < 64 \<Longrightarrow> i < length ps \<Longrightarrow> bit (put_bits ps w d) (ps ! i) = bit w i"
proof (induction ps w d arbitrary: i rule: put_bits.induct)
  case (2 p ps w d)
  show ?case
  proof (cases i)
    case 0
    then show ?thesis using 2
      by (auto simp: bit_put_bits_notin bit_set_bit_iff bit_unset_bit_iff)
  next
    case (Suc j)
    then show ?thesis using 2 by (simp add: bit_drop_bit_eq)
  qed
qed simp

lemma get_put_bits:
  assumes "distinct ps" "\<forall>p\<in>set ps. p < 64"
  shows "get_bits ps (put_bits ps w d) = take_bit (length ps) w"
  by (rule bit_word_eqI)
     (use bit_put_bits_nth [OF assms] in
       \<open>auto simp: get_bits_def bit_horner_sum_bit_word_iff bit_take_bit_iff\<close>)

lemma length_motorola [simp]: "length (motorola p n) = n"
  by (induction p n rule: motorola.induct) simp_all

lemma length_sig_positions [simp]: "length (sig_positions sd) = unat (s_Length sd)"
  by (simp add: sig_positions_def bit_positions_def)

lemma bits_phys_take_bit: "bits_phys sd (take_bit (unat (s_Length sd)) w) = bits_phys sd w"
  by (simp add: bits_phys_def Let_def unsigned_take_bit_eq)

interpretation bits: can_library bits_lib saturating bits_phys bits_fit bits_apart
proof unfold_locales
  fix s w d
  assume "bits_fit s"
  then show "UnmarshalPhysical bits_lib s (set_bits bits_lib s w d) = bits_phys s w"
    unfolding set_bits_bits_lib
    by (simp add: bits_lib_def bits_fit_def list_all_iff get_put_bits bits_phys_take_bit)
next
  fix s t w d
  assume "bits_apart s t"
  then have "map (bit (put_bits (sig_positions s) w d)) (sig_positions t) = map (bit d) (sig_positions t)"
    by (auto simp: bits_apart_def list_all_iff intro!: bit_put_bits_notin)
  then show "UnmarshalPhysical bits_lib t (set_bits bits_lib s w d) = UnmarshalPhysical bits_lib t d"
    unfolding set_bits_bits_lib by (simp add: bits_lib_def get_bits_def del: map_eq_conv)
qed

section \<open>Properties\<close>

text \<open>A message with a multiplexer and two multiplexed signals, one of them Motorola and signed.\<close>

definition example_signal ::
  "string \<Rightarrow> bool \<Rightarrow> bool \<Rightarrow> 64 word option \<Rightarrow> 8 word \<Rightarrow> 8 word \<Rightarrow> f64 \<Rightarrow> sig_desc" where
  "example_signal nm be sg mux start len scale =
     \<lparr>s_Name = nm, s_IsBigEndian = be, s_IsSigned = sg, s_IsMultiplexer = (nm = ''Mode''),
      s_IsMultiplexed = (mux \<noteq> None), s_MultiplexerValue = (case mux of None \<Rightarrow> 0 | Some m \<Rightarrow> m),
      s_Start = start, s_Length = len, s_Scale = scale, s_Offset = Fin False 0, s_Min = Fin False 0,
      s_Max = Fin False 0, s_Unit = ''km/h'', s_ReceiverNodes = []\<rparr>"

definition example_msg :: msg_desc where
  "example_msg =
     \<lparr>m_Name = ''M'', m_ID = 100, m_IsExtended = False, m_Length = 8, m_SenderNode = ''ECU'',
      m_Signals = [example_signal ''Mode'' False False None 0 4 (Fin False 1),
                   example_signal ''A'' False False (Some 0) 8 8 (Fin False 1),
                   example_signal ''B'' True True (Some 3) 23 16 (Fin False (1 / 2))]\<rparr>"

definition example_handler :: "msg_desc \<Rightarrow> Handler" where
  "example_handler md =
     \<lparr>h_ifName = ''can0'', h_sigDB = Some \<lparr>Version = [], Msgs = [m_ID md \<mapsto> md]\<rparr>,
      h_conn = True, h_rx = True, h_tx = True\<rparr>"

definition example_cmd :: "nat DecodeMsg" where
  "example_cmd =
     \<lparr>dm_TimeStamp = 0, dm_BusID = ''can0'', dm_FrameID = 100,
      dm_Signals = [\<lparr>sig_Name = ''B'', sig_Value = Fin True 20, sig_Unit = []\<rparr>,
                    \<lparr>sig_Name = ''Mode'', sig_Value = Fin False 3, sig_Unit = []\<rparr>]\<rparr>"

text \<open>
  C4 Round trip: with a library that reads back the bits it wrote, and signals whose bits do not
  overlap, a frame built from a command decodes to the command's values, each as its signal
  can represent it: the signals of the message in their order, a multiplexed one only where the
  multiplexer's value selects it, and a signal the command does not name as it reads from zeros.
\<close>

theorem frame_round_trip:
  assumes "can_library lib phys fits apart"
    and "h_sigDB h = Some db" "Msgs db (dm_FrameID msg) = Some md" "MakeFrame lib pl h msg = Inr f"
    and "distinct (map sig_Name (dm_Signals msg))" "layout_ok fits apart (m_Signals md)"
    and "\<And>switch. MultiplexerSignal lib md = Some switch \<Longrightarrow> switch \<in> set (m_Signals md)"
  shows "ParseFrame lib pl h f =
    map (\<lambda>sd. \<lparr>sig_Name = s_Name sd, sig_Value = expected lib pl phys (dm_Signals msg) sd, sig_Unit = s_Unit sd\<rparr>)
      (filter (selected lib pl (expected lib pl phys (dm_Signals msg)) md) (m_Signals md))"
  by (rule can_library.parse_make [OF assms])

lemma frame_round_trip_witness:
  "\<exists>f. MakeFrame bits_lib saturating (example_handler example_msg) example_cmd = Inr f \<and>
     ParseFrame bits_lib saturating (example_handler example_msg) f =
       [\<lparr>sig_Name = ''Mode'', sig_Value = Fin False 3, sig_Unit = ''km/h''\<rparr>,
        \<lparr>sig_Name = ''B'', sig_Value = Fin True 20, sig_Unit = ''km/h''\<rparr>]"
proof -
  let ?h = "example_handler example_msg"
  let ?db = "\<lparr>Version = [], Msgs = [m_ID example_msg \<mapsto> example_msg]\<rparr>"
  have h: "h_sigDB ?h = Some ?db" "Msgs ?db (dm_FrameID example_cmd) = Some example_msg"
    by (simp_all add: example_handler_def example_cmd_def example_msg_def)
  then obtain f where f: "MakeFrame bits_lib saturating ?h example_cmd = Inr f"
    by (simp add: MakeFrame_def)
  have d: "distinct (map sig_Name (dm_Signals example_cmd))" by (simp add: example_cmd_def)
  have l: "layout_ok bits_fit bits_apart (m_Signals example_msg)" by code_simp
  have m: "MultiplexerSignal bits_lib example_msg = Some sw \<Longrightarrow> sw \<in> set (m_Signals example_msg)" for sw
    by (auto simp: bits_lib_def find_Some_iff)
  have div: "Fin True 20 / Fin False (1 / 2) = Fin True 40" "Fin False 3 / Fin False 1 = Fin False 3"
    "f64_of_int (- 40) * Fin False (1 / 2) = Fin True 20" "f64_of_int 3 * Fin False 1 = Fin False 3"
    using of_mag_int [of 40 True] of_mag_int [of 3 False] of_mag_int [of 20 True]
      f64_of_int_exact [of "- 40"] f64_of_int_exact [of 3]
    by (simp_all add: divide_f64_def times_f64_def)
  let ?e = "expected bits_lib saturating bits_phys (dm_Signals example_cmd)"
  have e: "?e (example_signal ''Mode'' False False None 0 4 (Fin False 1)) = Fin False 3"
    "?e (example_signal ''B'' True True (Some 3) 23 16 (Fin False (1 / 2))) = Fin True 20"
    by (simp_all add: expected_def value_of_def example_cmd_def example_signal_def raw_of_def bits_lib_def
        bits_phys_def div f64_to_int64_def f64_to_uint64_def)
  have sel: "selected bits_lib saturating ?e example_msg sd \<longleftrightarrow> s_IsMultiplexed sd \<longrightarrow> s_MultiplexerValue sd = 3" for sd
  proof -
    have "MultiplexerSignal bits_lib example_msg = Some (example_signal ''Mode'' False False None 0 4 (Fin False 1))"
      by (simp add: bits_lib_def example_msg_def example_signal_def)
    then show ?thesis by (auto simp: selected_def e f64_to_uint64_def)
  qed
  have r: "filter (selected bits_lib saturating ?e example_msg) (m_Signals example_msg) =
      [example_signal ''Mode'' False False None 0 4 (Fin False 1), example_signal ''B'' True True (Some 3) 23 16 (Fin False (1 / 2))]"
  proof -
    have ms: "m_Signals example_msg =
        [example_signal ''Mode'' False False None 0 4 (Fin False 1),
         example_signal ''A'' False False (Some 0) 8 8 (Fin False 1),
         example_signal ''B'' True True (Some 3) 23 16 (Fin False (1 / 2))]"
      by (simp add: example_msg_def)
    show ?thesis unfolding ms filter.simps sel by (simp add: example_signal_def)
  qed
  show ?thesis
    using frame_round_trip [OF bits.can_library_axioms h f d l m] f
    by (simp add: r e) (simp add: example_signal_def)
qed

end
