(* ===== verification/Gamepad_Frame.thy ===== *)
theory Gamepad_Frame
  imports Gamepad_Web Can_Codec
begin

text \<open>
  The way of a gamepad state over both programs: the command message of \<open>cmd/gamepadweb\<close> as
  \<open>ParseControlCommand\<close> reads it, and the message \<open>GamepadMsg\<close> of \<open>config/gamepad_all_inputs.dbc\<close>
  as \<open>MakeFrame\<close> builds it and \<open>ParseFrame\<close> reads it.
\<close>

section \<open>From the published message to the internal command\<close>

text \<open>The number a control value becomes on the way to the CAN bus.\<close>

fun to_float :: "ctl_value \<Rightarrow> f64" where
  "to_float (CBool b) = (if b then f64_of_int 1 else f64_of_int 0)"
| "to_float (CNum x) = x"

lemma signalToFloat64_iface_of: "signalToFloat64 (iface_of v) = Some (to_float v)"
  by (cases v) simp_all

lemma convert_iface_of:
  "convert_signals (map (\<lambda>(k, v). (k, iface_of v)) kvs) =
     Inr (map (\<lambda>(k, v). \<lparr>sig_Name = k, sig_Value = to_float v, sig_Unit = []\<rparr>) kvs)"
  by (induction kvs) (auto simp: signalToFloat64_iface_of)

lemma value_of_converted:
  "value_of (map (\<lambda>(k, v). \<lparr>sig_Name = k, sig_Value = to_float v, sig_Unit = []\<rparr>) kvs) =
     (\<lambda>k. map_option to_float (map_of kvs k))"
proof -
  have "map (\<lambda>sg. (sig_Name sg, sig_Value sg))
      (map (\<lambda>(k, v). \<lparr>sig_Name = k, sig_Value = to_float v, sig_Unit = []\<rparr>) kvs) =
      map (\<lambda>(k, v). (k, to_float v)) kvs"
    by auto
  then show ?thesis unfolding value_of_def by (simp add: map_of_map fun_eq_iff del: map_map)
qed

text \<open>Ranging over the image of a map is ranging over the map.\<close>

lemma permuted_image: "mset ys = mset (map f xs) \<Longrightarrow> \<exists>xs'. mset xs' = mset xs \<and> ys = map f xs'"
proof (induction ys arbitrary: xs)
  case (Cons y ys)
  then have "y \<in> set (map f xs)" by (metis list.set_intros(1) set_mset_mset)
  then obtain x where x: "x \<in> set xs" "y = f x" by auto
  then obtain as bs where xs: "xs = as @ x # bs" by (metis split_list)
  have "mset ys = mset (map f (as @ bs))" using Cons.prems x(2) xs by simp
  from Cons.IH [OF this] obtain xs' where "mset xs' = mset (as @ bs)" "ys = map f xs'" by blast
  then show ?case using x(2) xs by (intro exI [of _ "x # xs'"]) simp
qed simp

lemma command_of_payload:
  assumes "encode_payload p = Inr j" "values_within c (wp_Signals p)" "representable c"
    and "distinct (map fst (wp_Signals p))" "trim_space (wp_BusID p) \<noteq> []"
    and "json_read env text = Inr j" "\<And>kvs. mset (range_order env kvs) = mset kvs"
    and "parseFrameID (wp_FrameID p) = Inr w"
  obtains msg where "ParseControlCommand env text = Inr msg" "dm_BusID msg = wp_BusID p"
    "dm_FrameID msg = w" "distinct (map sig_Name (dm_Signals msg))"
    "value_of (dm_Signals msg) = (\<lambda>k. map_option to_float (map_of (wp_Signals p) k))"
proof -
  let ?kvs = "sort_key fst (wp_Signals p)"
  let ?i = "\<lambda>kv :: string \<times> ctl_value. (fst kv, iface_of (snd kv))"
  let ?inp = "\<lparr>cp_Timestamp = wp_Timestamp p, cp_BusID = wp_BusID p, cp_FrameID = wp_FrameID p,
    cp_Signals = map ?i ?kvs\<rparr>"
  have dec: "decode_payload j = Inr ?inp"
    using decode_payload_encoded [OF assms(1-4)] by (simp add: case_prod_beta')
  have "mset (range_order env (map ?i ?kvs)) = mset (map ?i ?kvs)" by (rule assms(7))
  from permuted_image [OF this] obtain kvs where
    kvs: "mset kvs = mset ?kvs" "range_order env (map ?i ?kvs) = map ?i kvs" by blast
  let ?sigs = "map (\<lambda>(k, v). \<lparr>sig_Name = k, sig_Value = to_float v, sig_Unit = []\<rparr>) kvs"
  have conv: "convert_signals (range_order env (cp_Signals ?inp)) = Inr ?sigs"
    using convert_iface_of [of kvs] kvs(2) by (simp add: case_prod_beta')
  have "mset (map fst kvs) = mset (map fst (wp_Signals p))" using kvs(1) by (simp only: mset_map mset_sort)
  then have dk: "distinct (map fst kvs)" using assms(4) mset_eq_imp_distinct_iff by blast
  have mo: "map_of kvs = map_of (wp_Signals p)"
    using dk assms(4) mset_eq_setD [OF kvs(1)] by (subst map_of_inject_set) simp_all
  have fid: "trim_space (wp_FrameID p) \<noteq> []" using assms(8) by (simp add: parseFrameID_Inr Let_def)
  from ParseControlCommand_eq [OF assms(6) dec _ _ _ conv, of w] assms(5,8) fid
  obtain ts where "ParseControlCommand env text =
      Inr \<lparr>dm_TimeStamp = ts, dm_BusID = wp_BusID p, dm_FrameID = w, dm_Signals = ?sigs\<rparr>"
    by auto
  moreover have "map sig_Name ?sigs = map fst kvs" by auto
  then have "distinct (map sig_Name ?sigs)" using dk by (simp only:)
  moreover have "value_of ?sigs = (\<lambda>k. map_option to_float (map_of (wp_Signals p) k))"
    using value_of_converted [of kvs] mo by simp
  ultimately show thesis
    using that [of "\<lparr>dm_TimeStamp = ts, dm_BusID = wp_BusID p, dm_FrameID = w, dm_Signals = ?sigs\<rparr>"]
    by simp
qed

section \<open>The message GamepadMsg\<close>

text \<open>The message of the DBC file, as \<open>ParseDbcFile\<close> stores it: four signed bytes and sixteen bits.\<close>

definition gamepad_signal :: "string \<Rightarrow> nat \<Rightarrow> nat \<Rightarrow> bool \<Rightarrow> f64 \<Rightarrow> f64 \<Rightarrow> sig_desc" where
  "gamepad_signal nm start len sg lo hi =
     \<lparr>s_Name = nm, s_IsBigEndian = False, s_IsSigned = sg, s_IsMultiplexer = False,
      s_IsMultiplexed = False, s_MultiplexerValue = 0, s_Start = word_of_nat start,
      s_Length = word_of_nat len, s_Scale = Fin False 1, s_Offset = Fin False 0,
      s_Min = lo, s_Max = hi, s_Unit = [], s_ReceiverNodes = [''ECU'']\<rparr>"

definition stick_signal :: "string \<Rightarrow> nat \<Rightarrow> sig_desc" where
  "stick_signal nm start = gamepad_signal nm start 8 True (Fin True 128) (Fin False 127)"

definition button_signal :: "nat \<Rightarrow> sig_desc" where
  "button_signal i = gamepad_signal (btn_p_name i) (32 + i) 1 False f0 f1"

definition stick_names :: "string list" where
  "stick_names = [''StickLX'', ''StickLY'', ''StickRX'', ''StickRY'']"

definition gamepad_msg :: msg_desc where
  "gamepad_msg =
     \<lparr>m_Name = ''GamepadMsg'', m_ID = 528, m_IsExtended = False, m_Length = 8, m_SenderNode = ''ECU'',
      m_Signals = map (\<lambda>i. stick_signal (stick_names ! i) (8 * i)) [0..<4] @
                  map button_signal [0..<16]\<rparr>"

text \<open>
  What the library does for a signal with factor 1 and offset 0: it leaves an integer of the
  signal's range as it is, in both directions.
\<close>

definition in_range :: "sig_desc \<Rightarrow> int \<Rightarrow> bool" where
  "in_range sd i \<longleftrightarrow>
     (if s_IsSigned sd
      then - (2 ^ (unat (s_Length sd) - 1)) \<le> i \<and> i < 2 ^ (unat (s_Length sd) - 1)
      else 0 \<le> i \<and> i < 2 ^ unat (s_Length sd))"

definition integer_signal :: "can_lib \<Rightarrow> (sig_desc \<Rightarrow> 64 word \<Rightarrow> f64) \<Rightarrow> sig_desc \<Rightarrow> bool" where
  "integer_signal lib phys sd \<longleftrightarrow>
     (\<forall>i. in_range sd i \<longrightarrow>
        FromPhysical lib sd (f64_of_int i) = f64_of_int i \<and> phys sd (word_of_int i) = f64_of_int i)"

text \<open>What the receiver of the frame reads for a state.\<close>

definition gamepad_readings :: "State \<Rightarrow> (string \<times> f64) list" where
  "gamepad_readings s =
     map (\<lambda>i. (stick_names ! i, f64_of_int (stick_int (fval (axisValue s (int i)))))) [0..<4] @
     map (\<lambda>i. (btn_p_name i, f64_of_int (if buttonPressed s (int i) then 1 else 0))) [0..<16]"

lemma raw_of_integer:
  assumes "integer_signal lib phys sd" "in_range sd i" "unat (s_Length sd) \<le> 32"
  shows "phys sd (raw_of lib pl sd (f64_of_int i)) = f64_of_int i"
proof -
  have l: "(2 :: int) ^ unat (s_Length sd) \<le> 2 ^ 32" "(2 :: int) ^ (unat (s_Length sd) - 1) \<le> 2 ^ 32"
    using assms(3) by (intro power_increasing; simp)+
  then have i: "\<bar>i\<bar> \<le> 2 ^ 32" "s_IsSigned sd \<or> 0 \<le> i"
    using assms(2) by (auto simp: in_range_def split: if_splits)
  then have "f64_trunc (f64_of_int i) = Some i" by (subst f64_of_int_exact) auto
  with i have "raw_of lib pl sd (f64_of_int i) = word_of_int i"
    using assms(1,2) by (auto simp: raw_of_def Let_def integer_signal_def f64_to_int64_def f64_to_uint64_def)
  then show ?thesis using assms(1,2) by (simp add: integer_signal_def)
qed

lemma stick_bounds: "state_ok s \<Longrightarrow> - 128 \<le> stick_int (fval (axisValue s i)) \<and> stick_int (fval (axisValue s i)) < 128"
  using stick_int_range [OF fin_within_fval [OF axisValue_within [of s i]]] by auto

text \<open>The value the command has for each signal of the message.\<close>

lemma gamepad_expected:
  assumes "state_ok s" "\<forall>sd\<in>set (m_Signals gamepad_msg). integer_signal lib phys sd"
    and sigs: "value_of sigs = (\<lambda>k. map_option to_float (map_of (gamepadMsgSignalMap pl s) k))"
  shows "map (\<lambda>sd. (s_Name sd, expected lib pl' phys sigs sd)) (m_Signals gamepad_msg) = gamepad_readings s"
proof -
  have int: "phys sd (raw_of lib pl' sd (f64_of_int i)) = f64_of_int i"
    if "sd \<in> set (m_Signals gamepad_msg)" "in_range sd i" for sd i
    using that assms(2)
    by (intro raw_of_integer [of lib phys])
       (auto simp: gamepad_msg_def stick_signal_def button_signal_def gamepad_signal_def)
  have stick: "expected lib pl' phys sigs (stick_signal (stick_names ! i) (8 * i)) =
      f64_of_int (stick_int (fval (axisValue s (int i))))" if "i < 4" for i
  proof -
    have "value_of sigs (stick_names ! i) = Some (f64_of_int (stick_int (fval (axisValue s (int i)))))"
      using gamepadMsg_stick [OF that, of pl s] axisToInt8_eq [OF assms(1), of pl "int i"]
      by (simp add: sigs stick_names_def)
    then show ?thesis
      using that stick_bounds [OF assms(1), of "int i"]
      by (simp add: expected_def)
         (auto simp: stick_signal_def gamepad_signal_def gamepad_msg_def in_range_def intro!: int)
  qed
  have button: "expected lib pl' phys sigs (button_signal i) =
      f64_of_int (if buttonPressed s (int i) then 1 else 0)" if "i < 16" for i
  proof -
    have "value_of sigs (btn_p_name i) = Some (f64_of_int (if buttonPressed s (int i) then 1 else 0))"
      using gamepadMsg_button [OF that, of pl s] by (simp add: sigs)
    then show ?thesis
      using that by (simp add: expected_def)
         (auto simp: button_signal_def gamepad_signal_def gamepad_msg_def in_range_def intro!: int)
  qed
  show ?thesis
    using stick button
    by (simp add: gamepad_readings_def gamepad_msg_def comp_def del: upt_Suc)
       (auto simp: stick_signal_def button_signal_def gamepad_signal_def)
qed

lemma gamepad_selected:
  "filter (selected lib pl val md) (m_Signals gamepad_msg) = m_Signals gamepad_msg"
  by (auto simp: selected_def gamepad_msg_def stick_signal_def button_signal_def gamepad_signal_def
      intro!: filter_True)

text \<open>The frame built for such a command, read back.\<close>

lemma gamepad_frame:
  assumes lib: "can_library lib phys fits apart"
    and layout: "layout_ok fits apart (m_Signals gamepad_msg)"
    and ints: "\<forall>sd\<in>set (m_Signals gamepad_msg). integer_signal lib phys sd"
    and switch: "\<And>sw. MultiplexerSignal lib gamepad_msg = Some sw \<Longrightarrow> sw \<in> set (m_Signals gamepad_msg)"
    and h: "h_sigDB h = Some db" "Msgs db (dm_FrameID msg) = Some gamepad_msg"
    and s: "state_ok s" "distinct (map sig_Name (dm_Signals msg))"
    and sigs: "value_of (dm_Signals msg) = (\<lambda>k. map_option to_float (map_of (gamepadMsgSignalMap pl' s) k))"
  obtains f where "MakeFrame lib pl h msg = Inr f"
    "map (\<lambda>sg. (sig_Name sg, sig_Value sg)) (ParseFrame lib pl h f) = gamepad_readings s"
proof -
  obtain f where f: "MakeFrame lib pl h msg = Inr f" using h by (simp add: MakeFrame_def)
  have "map (\<lambda>sg. (sig_Name sg, sig_Value sg)) (ParseFrame lib pl h f) =
      map (\<lambda>sd. (s_Name sd, expected lib pl phys (dm_Signals msg) sd)) (m_Signals gamepad_msg)"
    using can_library.parse_make [OF lib h f s(2) layout switch] by (simp add: gamepad_selected comp_def)
  then show thesis using that f gamepad_expected [OF s(1) ints sigs] by simp
qed

text \<open>The payload of the gamepad frame is among those published.\<close>

lemma gamepad_published:
  assumes "snd (publishState env srv n st) = Inr ps" "scale_ok (mapper srv) k" "state_ok st"
    and "GamepadMsgFrameID (mapOpts srv) = fid" "fid \<noteq> []"
  obtains p j where "encode_payload p = Inr j"
    "WebPublish (srv_topic srv) j \<in> set (fst (publishState env srv n st))"
    "wp_BusID p = srv_busID srv" "wp_FrameID p = fid" "wp_Signals p = gamepadMsgSignalMap (we_platform env) st"
    "values_within (max (of_int k) 128) (wp_Signals p)" "distinct (map fst (wp_Signals p))"
proof -
  let ?cmds = "ToCommandMaps (we_platform env) (mapper srv) st (mapOpts srv)"
  let ?cmd = "\<lparr>cm_FrameID = fid, cm_Signals = gamepadMsgSignalMap (we_platform env) st\<rparr>"
  have "?cmd \<in> set ?cmds" using assms(4,5) by (simp add: ToCommandMaps_def set_frame_if)
  from payloads_of_cmd [OF this, of env srv n] obtain p where
    p: "p \<in> set (payloads_of env srv n ?cmds)" "wp_FrameID p = fid"
      "wp_Signals p = gamepadMsgSignalMap (we_platform env) st" by auto
  note ok = mapped_payload_ok [OF assms(2,3)]
  have "\<forall>p\<in>set (payloads_of env srv n ?cmds). is_ok (encode_payload p)" using ok(3) by blast
  from publish_maps_ops(2) [OF this assms(1) [unfolded publishState_def]]
  have "fst (publishState env srv n st) = map (pub_of srv) (payloads_of env srv n ?cmds)"
    by (simp add: publishState_def)
  moreover obtain j where "encode_payload p = Inr j" using ok(3) [OF p(1)] by (cases "encode_payload p") auto
  ultimately show thesis
    using that [of p j] p ok(1,2) [OF p(1)] payloads_of_bus [OF p(1)] by (force simp: pub_of_def)
qed

section \<open>The bit library meets the hypotheses\<close>

lemma bits_phys_integer:
  assumes "s_Scale sd = Fin False 1" "0 < unat (s_Length sd)" "unat (s_Length sd) \<le> 32" "in_range sd i"
  shows "bits_phys sd (word_of_int i) = f64_of_int i"
proof -
  let ?n = "unat (s_Length sd)"
  have l: "(2 :: int) ^ ?n \<le> 2 ^ 32" "(2 :: int) ^ (?n - 1) \<le> 2 ^ 32"
    using assms(3) by (intro power_increasing; simp)+
  have i: "\<bar>i\<bar> \<le> 2 ^ 32" using assms(4) l by (auto simp: in_range_def split: if_splits)
  have mult: "f64_of_int i * Fin False 1 = f64_of_int i"
    using i f64_of_int_exact [of i] of_mag_small [of "of_int \<bar>i\<bar>" "i < 0"] rnd_of_int [of "\<bar>i\<bar>"]
    by (simp add: times_f64_def)
  have u: "uint (word_of_int i :: 64 word) = take_bit 64 i" by (simp add: unsigned_of_int)
  have tb: "take_bit ?n (uint (word_of_int i :: 64 word)) = take_bit ?n i"
    unfolding u take_bit_take_bit using assms(3) by (simp add: min_def)
  have two: "(2 :: int) ^ ?n = 2 * 2 ^ (?n - 1)" using assms(2) by (cases ?n) simp_all
  show ?thesis
  proof (cases "s_IsSigned sd")
    case True
    have r: "- (2 ^ (?n - 1)) \<le> i" "i < 2 ^ (?n - 1)" using assms(4) True by (simp_all add: in_range_def)
    have v: "(if bit (take_bit ?n i) (?n - 1) then take_bit ?n i - 2 ^ ?n else take_bit ?n i) = i"
    proof (cases "0 \<le> i")
      case True
      then have "take_bit ?n i = i" using r two by (simp add: take_bit_int_eq_self)
      moreover have "i div 2 ^ (?n - 1) = 0" using True r by simp
      ultimately show ?thesis by (simp add: bit_iff_odd)
    next
      case False
      have "take_bit ?n i = take_bit ?n (i + 2 ^ ?n)" by (simp add: take_bit_eq_mod)
      also have "\<dots> = i + 2 ^ ?n" using False r two by (intro take_bit_int_eq_self) linarith+
      finally have t: "take_bit ?n i = i + 2 ^ ?n" .
      have "(i + 2 ^ ?n) div 2 ^ (?n - 1) = 1" using False r two by (intro int_div_pos_eq [of _ _ _ "i + 2 ^ (?n - 1)"]) linarith+
      then show ?thesis by (simp add: t bit_iff_odd)
    qed
    show ?thesis unfolding bits_phys_def Let_def tb using True assms(2)
      by (simp only: v assms(1) mult simp_thms)
  next
    case False
    then have "take_bit ?n i = i" using assms(4) by (simp add: in_range_def take_bit_int_eq_self)
    then show ?thesis using False assms(1) mult by (simp add: bits_phys_def Let_def tb)
  qed
qed

lemma bits_integer_signal:
  assumes "s_Scale sd = Fin False 1" "0 < unat (s_Length sd)" "unat (s_Length sd) \<le> 32"
  shows "integer_signal bits_lib bits_phys sd"
  unfolding integer_signal_def
proof (intro allI impI conjI)
  fix i assume r: "in_range sd i"
  then show "bits_phys sd (word_of_int i) = f64_of_int i" by (rule bits_phys_integer [OF assms])
  have l: "(2 :: int) ^ unat (s_Length sd) \<le> 2 ^ 32" "(2 :: int) ^ (unat (s_Length sd) - 1) \<le> 2 ^ 32"
    using assms(3) by (intro power_increasing; simp)+
  then have "\<bar>i\<bar> \<le> 2 ^ 32" using r by (auto simp: in_range_def split: if_splits)
  then show "FromPhysical bits_lib sd (f64_of_int i) = f64_of_int i"
    using f64_of_int_exact [of i] of_mag_small [of "of_int \<bar>i\<bar>" "i < 0"] rnd_of_int [of "\<bar>i\<bar>"]
    by (simp add: bits_lib_def assms(1) divide_f64_def)
qed

lemma gamepad_layout_bits: "layout_ok bits_fit bits_apart (m_Signals gamepad_msg)"
  by code_simp

text \<open>Publishing does not read the request.\<close>

lemma publishState_reader: "publishState (env\<lparr>we_json_read := r\<rparr>) srv n s = publishState env srv n s"
proof -
  have "publish_maps (env\<lparr>we_json_read := r\<rparr>) srv n cmds = publish_maps env srv n cmds" for cmds
    by (induction cmds arbitrary: n) (simp_all cong: sum.case_cong)
  then show ?thesis by (simp add: publishState_def)
qed

text \<open>
  A published gamepad state becomes a command from which the receiver builds one frame, and reading
  the frame gives the state's numbers.
\<close>

lemma gamepad_state_command:
  assumes lib: "can_library lib phys fits apart"
    and layout: "layout_ok fits apart (m_Signals gamepad_msg)"
    and ints: "\<forall>sd\<in>set (m_Signals gamepad_msg). integer_signal lib phys sd"
    and switch: "\<And>sw. MultiplexerSignal lib gamepad_msg = Some sw \<Longrightarrow> sw \<in> set (m_Signals gamepad_msg)"
    and web: "we_json_read env body = Inr j0" "decode_state j0 = Inr st" "mapper srv = NewMapper"
      "snd (publishState env srv n st) = Inr published" "trim_space (srv_busID srv) \<noteq> []"
      "parseFrameID (GamepadMsgFrameID (mapOpts srv)) = Inr w"
    and reads: "\<And>j. WebPublish (srv_topic srv) j \<in> set (fst (handleAPI env srv n ''POST'' body)) \<Longrightarrow>
      json_read cenv (written j) = Inr j"
    and order: "\<And>kvs. mset (range_order cenv kvs) = mset kvs"
    and h: "h_sigDB h = Some db" "Msgs db w = Some gamepad_msg"
  shows "\<exists>j msg f. WebPublish (srv_topic srv) j \<in> set (fst (handleAPI env srv n ''POST'' body)) \<and>
    ParseControlCommand cenv (written j) = Inr msg \<and> dm_BusID msg = srv_busID srv \<and> dm_FrameID msg = w \<and>
    MakeFrame lib pl h msg = Inr f \<and>
    map (\<lambda>sg. (sig_Name sg, sig_Value sg)) (ParseFrame lib pl h f) = gamepad_readings st"
proof -
  have api: "fst (handleAPI env srv n ''POST'' body) = fst (publishState env srv n st)"
    using web(1,2) by (simp add: handleAPI_def split: prod.split sum.split)
  have k: "scale_ok (mapper srv) 100" and rep: "representable (max (of_int 100) 128)"
    using web(3) representable_of_int [of 128] by simp_all
  have ok: "state_ok st" using web(2) by (rule decode_state_ok)
  have "GamepadMsgFrameID (mapOpts srv) \<noteq> []" using web(6) by (auto simp: parseFrameID_Inr Let_def)
  from gamepad_published [OF web(4) k ok refl this] obtain p j where
    p: "encode_payload p = Inr j" "WebPublish (srv_topic srv) j \<in> set (fst (publishState env srv n st))"
      "wp_BusID p = srv_busID srv" "wp_FrameID p = GamepadMsgFrameID (mapOpts srv)"
      "wp_Signals p = gamepadMsgSignalMap (we_platform env) st"
      "values_within (max (of_int 100) 128) (wp_Signals p)" "distinct (map fst (wp_Signals p))" by blast
  have "json_read cenv (written j) = Inr j" using reads p(2) by (simp add: api)
  from command_of_payload [OF p(1,6) rep p(7) _ this order] p(3,4) web(5,6)
  obtain msg where msg: "ParseControlCommand cenv (written j) = Inr msg" "dm_BusID msg = srv_busID srv"
    "dm_FrameID msg = w" "distinct (map sig_Name (dm_Signals msg))"
    "value_of (dm_Signals msg) = (\<lambda>k. map_option to_float (map_of (gamepadMsgSignalMap (we_platform env) st) k))"
    unfolding p(5) by metis
  have "Msgs db (dm_FrameID msg) = Some gamepad_msg" using h(2) msg(3) by simp
  from gamepad_frame [OF lib layout ints switch h(1) this ok msg(4,5)] obtain f where
    "MakeFrame lib pl h msg = Inr f"
    "map (\<lambda>sg. (sig_Name sg, sig_Value sg)) (ParseFrame lib pl h f) = gamepad_readings st" by blast
  with p(2) msg(1,2,3) show ?thesis unfolding api by blast
qed

section \<open>Properties\<close>


text \<open>The web program's side of an example: only the gamepad message is configured.\<close>

definition gamepad_server :: server where
  "gamepad_server = example_server (no_options\<lparr>GamepadMsgFrameID := ''0x210''\<rparr>)"

definition gamepad_payload :: "State \<Rightarrow> controlPayload" where
  "gamepad_payload s =
     \<lparr>wp_Timestamp = ''now'', wp_BusID = ''can0'', wp_FrameID = ''0x210'',
      wp_Signals = gamepadMsgSignalMap example_platform s\<rparr>"

text \<open>A receiver that reads the one text as that payload.\<close>

definition gamepad_receiver :: "State \<Rightarrow> nat cmd_env" where
  "gamepad_receiver s =
     (example_env example_command)\<lparr>json_read := \<lambda>_. Inr (projr (encode_payload (gamepad_payload s)))\<rparr>"

definition pressed_state :: State where
  "pressed_state = \<lparr>Axes = [Fin False 1, Fin True 1], Buttons = [\<lparr>Pressed = True, Value = Fin False 1\<rparr>]\<rparr>"

definition pressed_json :: json where
  "pressed_json = JObj [(''axes'', JArr [JNum False 1, JNum True 1]),
     (''buttons'', JArr [JBool True])]"

lemma pressed_decoded: "decode_state pressed_json = Inr pressed_state"
proof -
  have "parse_float False 1 = Inr (Fin False 1)" "parse_float True 1 = Inr (Fin True 1)" by code_simp+
  then show ?thesis
    by (simp add: pressed_json_def pressed_state_def decode_state_member_def match_field_def UnmarshalButton_def)
qed

lemma gamepad_example:
  "mapper gamepad_server = NewMapper" "trim_space (srv_busID gamepad_server) \<noteq> []"
  "srv_topic gamepad_server = ''/rx/d/ctrl''" "srv_busID gamepad_server = ''can0''"
  "ToCommandMaps example_platform NewMapper s (mapOpts gamepad_server) =
     [\<lparr>cm_FrameID = ''0x210'', cm_Signals = gamepadMsgSignalMap example_platform s\<rparr>]"
  "wp_FrameID (gamepad_payload s) = ''0x210''"
  "\<And>kvs. mset (range_order (gamepad_receiver s) kvs) = mset kvs"
  "json_read (gamepad_receiver s) payload = Inr (projr (encode_payload (gamepad_payload s)))"
  by (simp_all add: gamepad_server_def example_server_def no_options_def ToCommandMaps_def frame_if_def
      gamepad_payload_def gamepad_receiver_def example_env_def trim_space_visible visible_def)

lemma gamepad_example_published:
  assumes "state_ok s"
  shows "publishState (example_web_env (\<lambda>_. None)) gamepad_server 0 s =
     ([WebPublish ''/rx/d/ctrl'' (projr (encode_payload (gamepad_payload s)))], Inr [gamepad_payload s])"
proof -
  have pl: "we_platform (example_web_env e) = example_platform" "we_now (example_web_env e) k = ''now''"
    "we_publish (example_web_env e) k t b = e k" for e k t b by (simp_all add: example_web_env_def)
  have "payloads_of (example_web_env (\<lambda>_. None)) gamepad_server 0
      (ToCommandMaps example_platform NewMapper s (mapOpts gamepad_server)) = [gamepad_payload s]"
    by (simp only: gamepad_example(4,5) payloads_of.simps pl gamepad_payload_def simp_thms)
       (simp add: pl gamepad_example(4))
  moreover have "is_ok (encode_payload (gamepad_payload s))"
    using calculation mapped_payload_ok(3) [OF scale_ok_NewMapper assms, of "gamepad_payload s"]
    by (metis list.set_intros(1))
  ultimately show ?thesis
    unfolding publishState_def gamepad_example(1) pl
    by (cases "encode_payload (gamepad_payload s)")
       (auto simp: gamepad_example pl gamepad_payload_def publish_maps_Cons return_def)
qed

lemma pressed_ok: "state_ok pressed_state"
  using decode_state_ok [OF pressed_decoded] .


end
