(* ===== verification/Gps_Handler.thy ===== *)
theory Gps_Handler
  imports Go_Float
begin

text \<open>
  \<open>internal/gps/handler.go\<close>: the filter on gpsd reports and the reconnecting loop of \<open>Start\<close>.

  \<open>go-gpsd\<close> is a parameter through what it delivers: a session is the list of the reports it
  hands to the TPV filter while it is watched and the way the watch ends. \<open>Start\<close> is a step
  relation over the points where the code waits; the channel it sends to is the list of what
  was sent (the sends block while the channel is full, which delays them and loses none).
\<close>

record 't Data =
  gd_Timestamp :: 't
  gd_Latitude :: f64
  gd_Longitude :: f64
  gd_Altitude :: f64
  gd_Speed :: f64
  gd_Climb :: f64
  gd_Track :: f64

record gps_handler =
  gh_host :: string

definition New_gps :: "string \<Rightarrow> gps_handler" where
  "New_gps host = \<lparr>gh_host = (if host = [] then ''localhost:2947'' else host)\<rparr>"

section \<open>The TPV filter\<close>

text \<open>A report as the filter receives it: a TPV report or something of another type. \<open>Mode\<close> is a byte.\<close>

record 't tpv =
  tpv_Mode :: nat
  tpv_Time :: 't
  tpv_Lat :: f64
  tpv_Lon :: f64
  tpv_Alt :: f64
  tpv_Speed :: f64
  tpv_Climb :: f64
  tpv_Track :: f64

datatype 't report = TPVReport "'t tpv" | OtherReport

fun tpv_filter :: "'t report \<Rightarrow> 't Data option" where
  "tpv_filter (TPVReport r) =
     (if 2 \<le> tpv_Mode r
      then Some \<lparr>gd_Timestamp = tpv_Time r, gd_Latitude = tpv_Lat r, gd_Longitude = tpv_Lon r,
                 gd_Altitude = tpv_Alt r, gd_Speed = tpv_Speed r, gd_Climb = tpv_Climb r,
                 gd_Track = tpv_Track r\<rparr>
      else None)"
| "tpv_filter OtherReport = None"

section \<open>Start\<close>

text \<open>
  The control points of the loop: its head (where the context is checked), the dial, the five
  second pause after a failed dial, the wait on an open session, and the return. The filter
  runs in the library's watching goroutine, from \<open>Watch\<close> on and until that goroutine ends, which
  after a cancelled wait may be later than the return of \<open>Start\<close>: \<open>gs_live\<close> counts the watches
  that have not ended, \<open>gs_sessions\<close> the sessions opened and \<open>gs_closed\<close> those closed. \<open>gs_seen\<close> is
  what the filter received and \<open>gs_sent\<close> what it sent, newest last.
\<close>

datatype gps_pc = Head | Dialing | Sleeping | Watching | Returned

record 't gps_state =
  gs_pc :: gps_pc
  gs_cancelled :: bool
  gs_sessions :: nat
  gs_closed :: nat
  gs_live :: nat
  gs_seen :: "'t report list"
  gs_sent :: "'t Data list"

definition gps_init :: "'t gps_state" where
  "gps_init = \<lparr>gs_pc = Head, gs_cancelled = False, gs_sessions = 0, gs_closed = 0, gs_live = 0,
               gs_seen = [], gs_sent = []\<rparr>"

text \<open>
  What can happen next: the context is cancelled, the check at the head, the two results of the
  dial, the end of the pause, a report for the filter, the end of a watch, and the two cases of
  the second \<open>select\<close>.
\<close>

datatype 't gps_event =
    GCancel
  | GCheck
  | GDialFail
  | GDialOk
  | GWake
  | GReport "'t report"
  | GWatchDone
  | GWatchCancel
  | GLateEnd

fun gps_next :: "'t gps_event \<Rightarrow> 't gps_state \<Rightarrow> 't gps_state option" where
  "gps_next GCancel g = Some (g\<lparr>gs_cancelled := True\<rparr>)"
| "gps_next GCheck g =
     (if gs_pc g = Head
      then Some (if gs_cancelled g then g\<lparr>gs_pc := Returned\<rparr> else g\<lparr>gs_pc := Dialing\<rparr>)
      else None)"
| "gps_next GDialFail g = (if gs_pc g = Dialing then Some (g\<lparr>gs_pc := Sleeping\<rparr>) else None)"
| "gps_next GDialOk g =
     (if gs_pc g = Dialing
      then Some (g\<lparr>gs_pc := Watching, gs_sessions := gs_sessions g + 1, gs_live := gs_live g + 1\<rparr>)
      else None)"
| "gps_next GWake g = (if gs_pc g = Sleeping then Some (g\<lparr>gs_pc := Head\<rparr>) else None)"
| "gps_next (GReport r) g =
     (if 0 < gs_live g
      then Some (g\<lparr>gs_seen := gs_seen g @ [r],
                   gs_sent := gs_sent g @ (case tpv_filter r of None \<Rightarrow> [] | Some d \<Rightarrow> [d])\<rparr>)
      else None)"
| "gps_next GWatchDone g =
     (if gs_pc g = Watching
      then Some (g\<lparr>gs_pc := Head, gs_closed := gs_closed g + 1, gs_live := gs_live g - 1\<rparr>)
      else None)"
| "gps_next GWatchCancel g =
     (if gs_pc g = Watching \<and> gs_cancelled g
      then Some (g\<lparr>gs_pc := Returned, gs_closed := gs_closed g + 1\<rparr>)
      else None)"
| "gps_next GLateEnd g =
     (if gs_pc g = Returned \<and> 0 < gs_live g then Some (g\<lparr>gs_live := gs_live g - 1\<rparr>) else None)"

fun gps_run :: "'t gps_event list \<Rightarrow> 't gps_state \<Rightarrow> 't gps_state option" where
  "gps_run [] g = Some g"
| "gps_run (e # es) g = Option.bind (gps_next e g) (gps_run es)"

text \<open>
  The loop's invariant: one session is open while it waits and none otherwise, the sessions
  still watched are the open one and at most one left after a return, \<open>Start\<close> returns only after
  a cancellation, and what was sent is the reports with a fix.
\<close>

definition gps_inv :: "'t gps_state \<Rightarrow> bool" where
  "gps_inv g \<longleftrightarrow>
     gs_sessions g = gs_closed g + (if gs_pc g = Watching then 1 else 0) \<and>
     (gs_pc g = Watching \<longrightarrow> gs_live g = 1) \<and>
     (gs_pc g \<noteq> Watching \<and> gs_pc g \<noteq> Returned \<longrightarrow> gs_live g = 0) \<and>
     gs_live g \<le> 1 \<and>
     (gs_pc g = Returned \<longrightarrow> gs_cancelled g) \<and>
     gs_sent g = List.map_filter tpv_filter (gs_seen g)"

lemma gps_init_inv: "gps_inv gps_init"
  by (simp add: gps_inv_def gps_init_def List.map_filter_simps)

lemma map_filter_snoc:
  "List.map_filter f (xs @ [x]) = List.map_filter f xs @ (case f x of None \<Rightarrow> [] | Some y \<Rightarrow> [y])"
  by (simp add: List.map_filter_def split: option.splits)

lemma gps_next_inv: "gps_next e g = Some g' \<Longrightarrow> gps_inv g \<Longrightarrow> gps_inv g'"
  by (cases e) (auto simp: gps_inv_def map_filter_snoc split: if_splits)

lemma gps_run_inv: "gps_run es g = Some g' \<Longrightarrow> gps_inv g \<Longrightarrow> gps_inv g'"
proof (induction es arbitrary: g)
  case (Cons e es)
  then show ?case by (auto simp: bind_eq_Some_conv intro: gps_next_inv)
qed simp

text \<open>After a return nothing reconnects.\<close>

lemma gps_next_returned:
  "gps_next e g = Some g' \<Longrightarrow> gs_pc g = Returned \<Longrightarrow> gs_pc g' = Returned \<and> gs_sessions g' = gs_sessions g"
  by (cases e) (auto split: if_splits)

lemma gps_run_returned:
  "gps_run es g = Some g' \<Longrightarrow> gs_pc g = Returned \<Longrightarrow> gs_pc g' = Returned \<and> gs_sessions g' = gs_sessions g"
proof (induction es arbitrary: g)
  case (Cons e es)
  then show ?case by (fastforce simp: bind_eq_Some_conv dest: gps_next_returned)
qed simp

text \<open>Once the context is cancelled, at most one more session is opened: the dial under way.\<close>

lemma gps_next_cancelled:
  assumes "gps_next e g = Some g'" "gs_cancelled g"
  shows "gs_cancelled g'" and
    "gs_sessions g' + (if gs_pc g' = Dialing then 1 else 0) \<le> gs_sessions g + (if gs_pc g = Dialing then 1 else 0)"
  using assms by (cases e; auto split: if_splits)+

lemma gps_run_cancelled:
  "gps_run es g = Some g' \<Longrightarrow> gs_cancelled g \<Longrightarrow>
   gs_sessions g' + (if gs_pc g' = Dialing then 1 else 0) \<le> gs_sessions g + (if gs_pc g = Dialing then 1 else 0)"
proof (induction es arbitrary: g)
  case (Cons e es)
  from Cons.prems obtain h where h: "gps_next e g = Some h" "gps_run es h = Some g'"
    by (auto simp: bind_eq_Some_conv)
  show ?case
    using Cons.IH [OF h(2)] gps_next_cancelled [OF h(1) Cons.prems(2)] by linarith
qed simp

text \<open>
  From any point the cancelled loop is at, at most three of its own steps lead to the return:
  nothing it waits for is missing.
\<close>

definition gps_exit :: "gps_pc \<Rightarrow> 't gps_event list" where
  "gps_exit pc =
     (case pc of Head \<Rightarrow> [GCheck] | Dialing \<Rightarrow> [GDialFail, GWake, GCheck] | Sleeping \<Rightarrow> [GWake, GCheck]
       | Watching \<Rightarrow> [GWatchCancel] | Returned \<Rightarrow> [])"

lemma gps_exit_returns:
  "gs_cancelled g \<Longrightarrow> \<exists>g'. gps_run (gps_exit (gs_pc g)) g = Some g' \<and> gs_pc g' = Returned \<and> gs_sent g' = gs_sent g"
  by (cases "gs_pc g") (simp_all add: gps_exit_def)

section \<open>Properties\<close>

definition example_tpv :: "nat \<Rightarrow> nat report" where
  "example_tpv mode =
     TPVReport \<lparr>tpv_Mode = mode, tpv_Time = 0, tpv_Lat = NaN, tpv_Lon = NaN, tpv_Alt = NaN, tpv_Speed = NaN,
                tpv_Climb = NaN, tpv_Track = NaN\<rparr>"



text \<open>
  C30 After a cancellation the GPS loop opens at most one more session (a dial under way), can always
  return by at most three of its own steps without sending anything, and once it has returned it
  opens none.
\<close>

theorem gps_cancellation:
  assumes "gps_run es g = Some g'" "gs_cancelled g"
  shows "gs_sessions g' \<le> gs_sessions g + 1 \<and>
    (gs_pc g = Returned \<longrightarrow> gs_pc g' = Returned \<and> gs_sessions g' = gs_sessions g) \<and>
    (\<exists>out g''. length out \<le> 3 \<and> gps_run out g' = Some g'' \<and> gs_pc g'' = Returned \<and> gs_sent g'' = gs_sent g')"
proof -
  have c: "gs_cancelled g'" using assms
  proof (induction es arbitrary: g)
    case (Cons e es)
    then show ?case by (auto simp: bind_eq_Some_conv dest: gps_next_cancelled(1))
  qed simp
  have "length (gps_exit (gs_pc g')) \<le> 3" by (simp add: gps_exit_def split: gps_pc.split)
  with gps_exit_returns [OF c] show ?thesis
    using gps_run_cancelled [OF assms] gps_run_returned [OF assms(1)] by (auto split: if_splits)
qed

lemma gps_cancellation_witness:
  "gs_sessions (the (gps_run [GDialOk] (gps_init\<lparr>gs_cancelled := True, gs_pc := Dialing\<rparr> :: nat gps_state))) \<le> 1"
  using gps_cancellation [of "[GDialOk]" "gps_init\<lparr>gs_cancelled := True, gs_pc := Dialing\<rparr>"]
  by (simp add: gps_init_def)

end
