(* ===== verification/Dispatcher.thy ===== *)
theory Dispatcher
  imports Can_Handler Gps_Handler Go_Json_Map
begin

text \<open>
  \<open>internal/dispatcher/telemetry.go\<close>: the aggregator of the latest value of every signal and
  position, and the snapshot it writes as JSON. The layout of a time in RFC 3339 is the
  parameter \<open>fmt\<close> (\<open>time.Time.Format\<close>).
\<close>

record 't Aggregator =
  vehicle :: "(string \<times> (string \<times> f64) list) list"
  gpsData :: "'t Data option"

definition NewAggregator :: "'t Aggregator" where
  "NewAggregator = \<lparr>vehicle = [], gpsData = None\<rparr>"

text \<open>\<open>m[bus]\<close>: the nil map, which reads as empty, when there is no entry.\<close>

definition bus_map :: "string \<Rightarrow> (string \<times> (string \<times> f64) list) list \<Rightarrow> (string \<times> f64) list" where
  "bus_map b v = (case map_of v b of None \<Rightarrow> [] | Some m \<Rightarrow> m)"

text \<open>\<open>m[bus][name] = value\<close> for a bus that has an entry.\<close>

definition set_signal ::
  "string \<Rightarrow> Signal \<Rightarrow> (string \<times> (string \<times> f64) list) list \<Rightarrow> (string \<times> (string \<times> f64) list) list" where
  "set_signal b sg v = AList.update b (AList.update (sig_Name sg) (sig_Value sg) (bus_map b v)) v"

definition UpdateCAN :: "'t Aggregator \<Rightarrow> 't DecodeMsg \<Rightarrow> 't Aggregator" where
  "UpdateCAN a msg =
     (let v = (if map_of (vehicle a) (dm_BusID msg) = None
               then AList.update (dm_BusID msg) [] (vehicle a) else vehicle a)
      in a\<lparr>vehicle := fold (set_signal (dm_BusID msg)) (dm_Signals msg) v\<rparr>)"

definition UpdateGPS :: "'t Aggregator \<Rightarrow> 't Data \<Rightarrow> 't Aggregator" where
  "UpdateGPS a data = a\<lparr>gpsData := Some data\<rparr>"

section \<open>MarshalSnapshot\<close>

definition encode_vehicle :: "(string \<times> (string \<times> f64) list) list \<Rightarrow> json result" where
  "encode_vehicle = encode_go_map (encode_go_map encode_float64)"

definition encode_location :: "('t \<Rightarrow> string) \<Rightarrow> 't Data \<Rightarrow> json result" where
  "encode_location fmt g =
     bind_result (encode_float64 (gd_Latitude g)) (\<lambda>lat.
     bind_result (encode_float64 (gd_Longitude g)) (\<lambda>lon.
     bind_result (encode_float64 (gd_Altitude g)) (\<lambda>alt.
     bind_result (encode_float64 (gd_Speed g)) (\<lambda>speed.
       Inr (JObj [(''latitude'', lat), (''longitude'', lon), (''altitude'', alt), (''speed'', speed),
                  (''timestamp'', JStr (fmt (gd_Timestamp g)))])))))"

definition MarshalSnapshot :: "('t \<Rightarrow> string) \<Rightarrow> 't Aggregator \<Rightarrow> 't \<Rightarrow> json result" where
  "MarshalSnapshot fmt a now =
     bind_result (encode_vehicle (vehicle a)) (\<lambda>v.
     bind_result
       (case gpsData a of
          None \<Rightarrow> Inr []
        | Some g \<Rightarrow> bind_result (encode_location fmt g) (\<lambda>l. Inr [(''location'', l)]))
       (\<lambda>loc. Inr (JObj ([(''Timestamp'', JStr (fmt now)), (''vehicle'', v)] @ loc))))"

section \<open>The value an aggregator holds\<close>

definition latest :: "'t Aggregator \<Rightarrow> string \<Rightarrow> string \<Rightarrow> f64 option" where
  "latest a b n = map_of (bus_map b (vehicle a)) n"

definition agg_ok :: "'t Aggregator \<Rightarrow> bool" where
  "agg_ok a \<longleftrightarrow>
     distinct (map fst (vehicle a)) \<and> (\<forall>(b, m)\<in>set (vehicle a). distinct (map fst m))"

lemma bus_map_set_signal:
  "bus_map b (set_signal c sg v) =
     (if b = c then AList.update (sig_Name sg) (sig_Value sg) (bus_map c v) else bus_map b v)"
  by (simp add: bus_map_def set_signal_def update_conv')

lemma map_of_fold_set_signal:
  "map_of (bus_map b (fold (set_signal c) sigs v)) n =
     (if b = c then (case value_of (rev sigs) n of None \<Rightarrow> map_of (bus_map b v) n | Some x \<Rightarrow> Some x)
      else map_of (bus_map b v) n)"
  by (induction sigs arbitrary: v)
     (auto simp: value_of_def bus_map_set_signal update_conv' map_add_def split: option.splits)

lemma latest_UpdateCAN:
  "latest (UpdateCAN a msg) b n =
     (if b = dm_BusID msg
      then (case value_of (rev (dm_Signals msg)) n of None \<Rightarrow> latest a b n | Some x \<Rightarrow> Some x)
      else latest a b n)"
  by (auto simp: latest_def UpdateCAN_def Let_def map_of_fold_set_signal split: option.splits)
     (auto simp: bus_map_def update_conv')

lemma latest_NewAggregator [simp]: "latest NewAggregator b n = None"
  by (simp add: latest_def NewAggregator_def bus_map_def)

lemma latest_UpdateGPS [simp]: "latest (UpdateGPS a d) b n = latest a b n"
  by (simp add: latest_def UpdateGPS_def)

lemma gpsData_UpdateCAN [simp]: "gpsData (UpdateCAN a msg) = gpsData a"
  by (simp add: UpdateCAN_def Let_def)

lemma gpsData_UpdateGPS [simp]: "gpsData (UpdateGPS a d) = Some d"
  by (simp add: UpdateGPS_def)

text \<open>The signals of one bus in a list of messages, in order of arrival.\<close>

definition bus_signals :: "string \<Rightarrow> 't DecodeMsg list \<Rightarrow> Signal list" where
  "bus_signals b msgs = concat (map dm_Signals (filter (\<lambda>m. dm_BusID m = b) msgs))"

lemma bus_signals_simps [simp]:
  "bus_signals b [] = []"
  "bus_signals b (ms @ [m]) = bus_signals b ms @ (if dm_BusID m = b then dm_Signals m else [])"
  by (simp_all add: bus_signals_def)

lemma value_of_append:
  "value_of (xs @ ys) n = (case value_of xs n of None \<Rightarrow> value_of ys n | Some v \<Rightarrow> Some v)"
  by (simp add: value_of_def map_add_def split: option.splits)

lemma value_of_Nil [simp]: "value_of [] n = None"
  by (simp add: value_of_def)

lemma latest_fold_UpdateCAN:
  "latest (fold (\<lambda>m a. UpdateCAN a m) msgs a) b n =
     (case value_of (rev (bus_signals b msgs)) n of None \<Rightarrow> latest a b n | Some x \<Rightarrow> Some x)"
proof (induction msgs rule: rev_induct)
  case (snoc m msgs)
  then show ?case by (auto simp: latest_UpdateCAN value_of_append split: option.splits)
qed simp

section \<open>Well-formed aggregators\<close>

lemma agg_ok_New [wf_intros]: "agg_ok NewAggregator"
  by (simp add: agg_ok_def NewAggregator_def)

definition vehicle_ok :: "(string \<times> (string \<times> f64) list) list \<Rightarrow> bool" where
  "vehicle_ok v \<longleftrightarrow> distinct (map fst v) \<and> (\<forall>(b, m)\<in>set v. distinct (map fst m))"

lemma set_update_subset: "set (AList.update k v al) \<subseteq> insert (k, v) (set al)"
  by (induction al) auto

lemma vehicle_ok_update:
  "vehicle_ok v \<Longrightarrow> distinct (map fst m) \<Longrightarrow> vehicle_ok (AList.update b m v)"
  by (auto simp: vehicle_ok_def distinct_update dest!: set_update_subset [THEN subsetD])

lemma distinct_bus_map: "vehicle_ok v \<Longrightarrow> distinct (map fst (bus_map b v))"
  by (auto simp: vehicle_ok_def bus_map_def split: option.splits dest!: map_of_SomeD)

lemma vehicle_ok_set_signal: "vehicle_ok v \<Longrightarrow> vehicle_ok (set_signal b sg v)"
  unfolding set_signal_def by (intro vehicle_ok_update distinct_update distinct_bus_map)

lemma vehicle_ok_fold: "vehicle_ok v \<Longrightarrow> vehicle_ok (fold (set_signal b) sigs v)"
  by (induction sigs arbitrary: v) (auto intro: vehicle_ok_set_signal)

lemma agg_ok_vehicle: "agg_ok a \<longleftrightarrow> vehicle_ok (vehicle a)"
  by (simp add: agg_ok_def vehicle_ok_def)

lemma agg_ok_UpdateCAN [wf_intros]: "agg_ok a \<Longrightarrow> agg_ok (UpdateCAN a msg)"
  by (auto simp: agg_ok_vehicle UpdateCAN_def Let_def intro!: vehicle_ok_fold vehicle_ok_update)

lemma agg_ok_UpdateGPS [wf_intros]: "agg_ok a \<Longrightarrow> agg_ok (UpdateGPS a d)"
  by (simp add: agg_ok_def UpdateGPS_def)

section \<open>What a snapshot contains\<close>

lemma encode_float64_ok: "is_ok (encode_float64 x) \<longleftrightarrow> is_fin x"
  by (cases x) simp_all

lemma encode_vehicle_ok:
  "is_ok (encode_vehicle v) \<longleftrightarrow> (\<forall>(b, m)\<in>set v. \<forall>(n, x)\<in>set m. is_fin x)"
  by (simp add: encode_vehicle_def encode_go_map_ok encode_float64_ok case_prod_beta)

lemma encode_location_ok:
  "is_ok (encode_location fmt g) \<longleftrightarrow>
     is_fin (gd_Latitude g) \<and> is_fin (gd_Longitude g) \<and> is_fin (gd_Altitude g) \<and> is_fin (gd_Speed g)"
  by (cases "gd_Latitude g"; cases "gd_Longitude g"; cases "gd_Altitude g"; cases "gd_Speed g")
     (simp_all add: encode_location_def)

text \<open>The values of an aggregator are finite: the condition under which it can be written.\<close>

definition agg_finite :: "'t Aggregator \<Rightarrow> bool" where
  "agg_finite a \<longleftrightarrow>
     (\<forall>(b, m)\<in>set (vehicle a). \<forall>(n, x)\<in>set m. is_fin x) \<and>
     (\<forall>g. gpsData a = Some g \<longrightarrow>
        is_fin (gd_Latitude g) \<and> is_fin (gd_Longitude g) \<and> is_fin (gd_Altitude g) \<and> is_fin (gd_Speed g))"

lemma is_ok_bind: "is_ok (bind_result r f) \<longleftrightarrow> is_ok r \<and> (\<forall>x. r = Inr x \<longrightarrow> is_ok (f x))"
  by (cases r) auto

lemma MarshalSnapshot_ok_iff: "is_ok (MarshalSnapshot fmt a now) \<longleftrightarrow> agg_finite a"
  unfolding MarshalSnapshot_def is_ok_bind agg_finite_def encode_vehicle_ok [symmetric]
  by (cases "encode_vehicle (vehicle a)") (auto simp: is_ok_bind encode_location_ok split: option.splits)

text \<open>Reading the snapshot back: the member \<open>vehicle\<close>, a bus, a signal.\<close>

definition json_get :: "string \<Rightarrow> json \<Rightarrow> json option" where
  "json_get k j = (case j of JObj ms \<Rightarrow> map_of ms k | _ \<Rightarrow> None)"

lemma json_get_JObj [simp]: "json_get k (JObj ms) = map_of ms k"
  by (simp add: json_get_def)

lemma encode_go_map_get:
  assumes "encode_go_map enc m = Inr j" "distinct (map fst m)"
  shows "json_get k j = map_option (\<lambda>v. projr (enc v)) (map_of m k)"
  by (rule encode_go_map_InrE [OF assms]) simp

lemma encode_vehicle_get:
  assumes "encode_vehicle v = Inr j" "vehicle_ok v"
  shows "Option.bind (json_get b j) (json_get n) =
     map_option (\<lambda>x. projr (encode_float64 x)) (map_of (bus_map b v) n)"
proof (cases "map_of v b")
  case None
  then show ?thesis
    using encode_go_map_get [OF assms(1) [unfolded encode_vehicle_def], of b] assms(2)
    by (simp add: vehicle_ok_def bus_map_def)
next
  case (Some m)
  then have bm: "bus_map b v = m" and mem: "(b, m) \<in> set v"
    by (auto simp: bus_map_def dest: map_of_SomeD)
  have "is_ok (encode_go_map (encode_go_map encode_float64) v)"
    using assms(1) by (simp add: encode_vehicle_def)
  then have "is_ok (encode_go_map encode_float64 m)" 
    using mem by (metis encode_go_map_ok snd_conv)
  then obtain jm where jm: "encode_go_map encode_float64 m = Inr jm"
    by (cases "encode_go_map encode_float64 m") auto
  have "json_get b j = Some jm"
    using encode_go_map_get [OF assms(1) [unfolded encode_vehicle_def], of b] assms(2) Some jm
    by (simp add: vehicle_ok_def)
  moreover have "distinct (map fst m)" using assms(2) mem by (auto simp: vehicle_ok_def)
  ultimately show ?thesis using encode_go_map_get [OF jm, of n] by (simp add: bm)
qed

lemma MarshalSnapshot_Inr:
  assumes "MarshalSnapshot fmt a now = Inr j"
  obtains v where "encode_vehicle (vehicle a) = Inr v" "json_get ''vehicle'' j = Some v"
    "json_get ''Timestamp'' j = Some (JStr (fmt now))"
    "json_get ''location'' j = (case gpsData a of None \<Rightarrow> None | Some g \<Rightarrow> Some (projr (encode_location fmt g)))"
proof -
  from assms obtain v where v: "encode_vehicle (vehicle a) = Inr v"
    by (auto simp: MarshalSnapshot_def bind_result_eq_Inr)
  show thesis
  proof (cases "gpsData a")
    case None
    then show thesis using that [OF v] assms v by (auto simp: MarshalSnapshot_def)
  next
    case (Some g)
    then show thesis using that [OF v] assms v
      by (cases "encode_location fmt g") (auto simp: MarshalSnapshot_def)
  qed
qed

lemma snapshot_signal:
  assumes "MarshalSnapshot fmt a now = Inr j" "agg_ok a"
  shows "Option.bind (json_get ''vehicle'' j) (\<lambda>v. Option.bind (json_get b v) (json_get n)) =
     map_option (\<lambda>x. projr (encode_float64 x)) (latest a b n)"
proof -
  obtain v where "encode_vehicle (vehicle a) = Inr v" "json_get ''vehicle'' j = Some v"
    by (rule MarshalSnapshot_Inr [OF assms(1)])
  then show ?thesis using encode_vehicle_get [of "vehicle a" v b n] assms(2)
    by (simp add: agg_ok_vehicle latest_def)
qed

section \<open>Properties\<close>

definition example_can_msg :: "nat DecodeMsg" where
  "example_can_msg =
     \<lparr>dm_TimeStamp = 0, dm_BusID = ''can0'', dm_FrameID = 1,
      dm_Signals = [\<lparr>sig_Name = ''speed'', sig_Value = Fin False 3, sig_Unit = []\<rparr>,
                    \<lparr>sig_Name = ''brake'', sig_Value = Fin False 0, sig_Unit = []\<rparr>]\<rparr>"

text \<open>
  C11 The aggregator holds for every bus and signal the value of the last message that carried it
  (of its last occurrence within the message), and nothing else.
\<close>

theorem aggregator_keeps_latest:
  "latest (fold (\<lambda>m a. UpdateCAN a m) msgs NewAggregator) b n = value_of (rev (bus_signals b msgs)) n"
  by (simp add: latest_fold_UpdateCAN split: option.split)

text \<open>
  C16 A snapshot can be written exactly when every value the aggregator holds is finite: one signal
  that is infinite or not a number keeps the whole snapshot from being published.
\<close>

theorem snapshot_written_iff:
  "is_ok (MarshalSnapshot fmt a now) \<longleftrightarrow>
     (\<forall>(b, m) \<in> set (vehicle a). \<forall>(n, x) \<in> set m. is_fin x) \<and>
     (\<forall>g. gpsData a = Some g \<longrightarrow>
        is_fin (gd_Latitude g) \<and> is_fin (gd_Longitude g) \<and> is_fin (gd_Altitude g) \<and> is_fin (gd_Speed g))"
  unfolding MarshalSnapshot_ok_iff agg_finite_def ..

lemma snapshot_written_iff_witness: "is_ok (MarshalSnapshot (\<lambda>_. []) (UpdateCAN NewAggregator example_can_msg) 0)"
  by (subst snapshot_written_iff)
     (simp add: UpdateCAN_def NewAggregator_def example_can_msg_def set_signal_def bus_map_def)

text \<open>
  C7 Round trip: reading a written snapshot gives back, for every bus and signal, the very float
  the aggregator held (its shortest decimal text is read as the same number), and has no member
  for a signal it did not hold.
\<close>

theorem snapshot_round_trip:
  assumes "MarshalSnapshot fmt a now = Inr j" "agg_ok a" "\<And>b n x. latest a b n = Some x \<Longrightarrow> wf_f64 x"
  shows "(case Option.bind (json_get ''vehicle'' j) (\<lambda>v. Option.bind (json_get b v) (json_get n)) of
            None \<Rightarrow> latest a b n = None
          | Some num \<Rightarrow> \<exists>x. latest a b n = Some x \<and> decode_float64 cur num = Inr x)"
proof (cases "latest a b n")
  case None
  then show ?thesis by (simp add: snapshot_signal [OF assms(1,2)])
next
  case (Some x)
  then have "map_of (bus_map b (vehicle a)) n = Some x" by (simp add: latest_def)
  then obtain m where "(b, m) \<in> set (vehicle a)" "(n, x) \<in> set m"
    by (auto simp: bus_map_def split: option.splits dest!: map_of_SomeD)
  moreover have "agg_finite a" using assms(1) by (simp add: MarshalSnapshot_ok_iff [of fmt a now, symmetric])
  ultimately have "is_fin x" by (auto simp: agg_finite_def)
  then obtain num where "encode_float64 x = Inr num" by (cases x) auto
  then show ?thesis
    using Some decode_encode_float64 [OF assms(3) [OF Some], of num cur] by (simp add: snapshot_signal [OF assms(1,2)])
qed

lemma snapshot_round_trip_witness:
  "\<exists>j. MarshalSnapshot (\<lambda>_. []) (UpdateCAN NewAggregator example_can_msg) 0 = Inr j \<and>
     (\<exists>num. Option.bind (json_get ''vehicle'' j) (\<lambda>v. Option.bind (json_get ''can0'' v) (json_get ''speed'')) = Some num \<and>
        decode_float64 NaN num = Inr (Fin False 3))"
proof -
  let ?a = "UpdateCAN NewAggregator example_can_msg"
  have l: "latest ?a b n =
      (if b = ''can0'' \<and> n = ''brake'' then Some (Fin False 0)
       else if b = ''can0'' \<and> n = ''speed'' then Some (Fin False 3) else None)" for b n
    unfolding latest_UpdateCAN by (simp add: example_can_msg_def value_of_def)
  have "agg_finite ?a"
    by (simp add: agg_finite_def UpdateCAN_def NewAggregator_def example_can_msg_def set_signal_def bus_map_def)
  then have "is_ok (MarshalSnapshot (\<lambda>_. []) ?a 0)" by (simp add: MarshalSnapshot_ok_iff)
  then obtain j where j: "MarshalSnapshot (\<lambda>_. []) ?a 0 = Inr j" by (cases "MarshalSnapshot (\<lambda>_. []) ?a 0") auto
  have wf: "wf_f64 x" if "latest ?a b n = Some x" for b n x
    using that rnd_of_int [of 3] rnd_of_int [of 0] by (auto simp: l f64_limit_def split: if_splits)
  have ok: "agg_ok ?a" by (intro wf_intros)
  have "case Option.bind (json_get ''vehicle'' j) (\<lambda>v. Option.bind (json_get ''can0'' v) (json_get ''speed'')) of
      None \<Rightarrow> latest ?a ''can0'' ''speed'' = None
    | Some num \<Rightarrow> \<exists>x. latest ?a ''can0'' ''speed'' = Some x \<and> decode_float64 NaN num = Inr x"
    by (rule snapshot_round_trip [OF j ok wf])
  then show ?thesis using j by (auto simp: l split: option.splits)
qed

end
