(* ===== verification/Logger_Setup.thy ===== *)
theory Logger_Setup
  imports Telemetry_Prelude
begin

text \<open>
  \<open>internal/logger/zap_logger.go\<close>: the configuration of the logger. The directory call and the
  parser of level names are parameters; a level is its number (\<open>zapcore.Level\<close>, info is 0). What a
  configured logger then writes is not modelled.
\<close>

text \<open>\<open>lumberjack.Logger\<close>: megabytes, files, days.\<close>

record rotation =
  lj_Filename :: string
  lj_MaxSize :: int
  lj_MaxBackups :: int
  lj_MaxAge :: int
  lj_Compress :: bool

datatype encoder_base = DevelopmentEncoder | ProductionEncoder
datatype level_encoder = CapitalColorLevel
datatype time_encoder = ISO8601Time

record encoder_cfg =
  en_Base :: encoder_base
  en_Level :: level_encoder
  en_Time :: time_encoder

datatype log_encoder = ConsoleEncoder encoder_cfg | JSONEncoder encoder_cfg
datatype log_sink = Stdout | RotatingFile rotation

record log_core =
  lc_Encoder :: log_encoder
  lc_Sink :: log_sink
  lc_Level :: int

record zap_logger =
  zl_Cores :: "log_core list"
  zl_AddCaller :: bool

record log_env =
  le_mkdir :: "string \<Rightarrow> go_error option"
  le_parse_level :: "string \<Rightarrow> int result"

definition InfoLevel :: int where "InfoLevel = 0"

definition New_logger :: "log_env \<Rightarrow> string \<Rightarrow> int \<Rightarrow> string \<Rightarrow> bool \<Rightarrow> zap_logger result" where
  "New_logger env logDir maxFiles logLevel isDevelopment =
     (case le_mkdir env logDir of
        Some err \<Rightarrow> Inl (Wrap (''failed to create log directory '' @ logDir @ '': '') err)
      | None \<Rightarrow>
          (let w = \<lparr>lj_Filename = logDir @ ''/app.log'', lj_MaxSize = 10, lj_MaxBackups = maxFiles,
                    lj_MaxAge = 30, lj_Compress = True\<rparr>;
               level = (case le_parse_level env logLevel of Inl err \<Rightarrow> InfoLevel | Inr l \<Rightarrow> l);
               encoderConfig =
                 \<lparr>en_Base = (if isDevelopment then DevelopmentEncoder else ProductionEncoder),
                  en_Level = CapitalColorLevel, en_Time = ISO8601Time\<rparr>;
               consoleCore = \<lparr>lc_Encoder = ConsoleEncoder encoderConfig, lc_Sink = Stdout, lc_Level = level\<rparr>;
               fileCore = \<lparr>lc_Encoder = JSONEncoder encoderConfig, lc_Sink = RotatingFile w, lc_Level = level\<rparr>
           in Inr \<lparr>zl_Cores = [consoleCore, fileCore], zl_AddCaller = True\<rparr>))"

text \<open>Only the directory can keep the logger from being made: an unknown level name is no error.\<close>

lemma New_logger_ok: "is_ok (New_logger env logDir n lvl dev) \<longleftrightarrow> le_mkdir env logDir = None"
  by (simp add: New_logger_def Let_def split: option.split)

end
