(* ===== verification/Telemetry_Main.thy ===== *)
theory Telemetry_Main
  imports Dispatcher Mq_Broker Logger_Setup
begin

text \<open>
  \<open>cmd/telemetry/main.go\<close>: the start-up sequence as the calls it makes, and the running program
  as a step relation between its goroutines (a listener per CAN interface, the GPS loop, the
  broker's callback, the TX worker, the publisher and \<open>main\<close>) over the three bounded channels.

  A goroutine's work between two waits is one step. Which of the ready cases a \<open>select\<close> takes is
  left open, as in Go. The answers of the bus, of the broker and the clock are free in each
  step. The fields \<open>sy_canLog\<close>, \<open>sy_canSeen\<close>, \<open>sy_txLog\<close>, \<open>sy_txSeen\<close> and \<open>sy_gpsSeen\<close> are history:
  what was put on a channel and what was taken from it; the program does not have them.
\<close>

section \<open>Start-up\<close>

record telemetry_flags =
  tf_device :: string
  tf_conf :: string
  tf_logPath :: string
  tf_dev :: bool

datatype main_op = CfgOp string | LogOp string int string bool | BrkOp broker_op | CanOp can_op

record setup_env =
  se_cfg :: cfg_env
  se_logger :: log_env
  se_mqtt :: mqtt_env
  se_rabbit :: rabbit_env
  se_can :: can_env
  se_range :: "(string \<Rightarrow> SocketCanCfg option) \<Rightarrow> string list"

text \<open>
  What the workers are started with. \<open>ap_latch\<close> is \<open>latchFrameIDSet\<close>; \<open>ap_cmd\<close>, \<open>ap_fmt\<close> and
  \<open>ap_text\<close> are the JSON reader, the time format and the JSON writer.
\<close>

record 't app =
  ap_lib :: can_lib
  ap_pl :: go_platform
  ap_cmd :: "'t cmd_env"
  ap_fmt :: "'t \<Rightarrow> string"
  ap_text :: "json \<Rightarrow> string"
  ap_broker :: broker
  ap_ifs :: "string list"
  ap_handlers :: "string \<Rightarrow> Handler option"
  ap_latch :: "string \<Rightarrow> 32 word list option"
  ap_rxTopics :: "string list"
  ap_txTopic :: string
  ap_gps :: gps_handler

text \<open>The loop over the interfaces, in the order Go ranges over the map.\<close>

fun start_can ::
  "can_env \<Rightarrow> (string \<Rightarrow> SocketCanCfg option) \<Rightarrow> string list \<Rightarrow> (string \<Rightarrow> Handler option)
     \<Rightarrow> (can_op, string \<Rightarrow> Handler option) traced" where
  "start_can env cfgs [] hs = return hs"
| "start_can env cfgs (ifName # ifs) hs =
     (case cfgs ifName of
        None \<Rightarrow> start_can env cfgs ifs hs
      | Some canCfg \<Rightarrow>
          bind_traced (New env ifName canCfg) (\<lambda>h. start_can env cfgs ifs (hs(ifName \<mapsto> h))))"

definition latch_sets :: "(string \<Rightarrow> SocketCanCfg option) \<Rightarrow> string \<Rightarrow> 32 word list option" where
  "latch_sets cfgs = map_option sc_LatchFrameIDs \<circ> cfgs"

definition rx_topics :: "string \<Rightarrow> SubscribeCfg \<Rightarrow> string list" where
  "rx_topics deviceID su =
     map fst (go_map (map (\<lambda>pfx. (BuildTopic ''rx'' deviceID pfx, 0 :: nat)) (su_TopicPrefixes su)))"

text \<open>
  \<open>main\<close> up to the subscription, which is its last call that can be fatal: the parameters of the
  running program. A fatal error ends the process at once, without the deferred calls.
\<close>

definition logFileCount :: int where "logFileCount = 5"

definition telemetry_setup ::
  "setup_env \<Rightarrow> 't cmd_env \<Rightarrow> ('t \<Rightarrow> string) \<Rightarrow> (json \<Rightarrow> string) \<Rightarrow> can_lib \<Rightarrow> go_platform
     \<Rightarrow> telemetry_flags \<Rightarrow> (main_op, 't app) traced" where
  "telemetry_setup env cmd fmt text lib pl fl =
     bind_traced (call (CfgOp (tf_conf fl)) (LoadConfig (se_cfg env) (tf_conf fl))) (\<lambda>cfg.
     let logLevel = (if tf_dev fl then ''debug'' else ''info'') in
     bind_traced
       (call (LogOp (tf_logPath fl) logFileCount logLevel (tf_dev fl))
          (New_logger (se_logger env) (tf_logPath fl) logFileCount logLevel (tf_dev fl))) (\<lambda>_.
     bind_traced
       (lift_traced BrkOp id
          (NewBroker (se_mqtt env) (se_rabbit env) (tf_device fl) (Broker_Type cfg)
             (Mosquitto cfg) (RabbitMQ cfg))) (\<lambda>broker.
     bind_traced
       (lift_traced CanOp id
          (start_can (se_can env) (SocketCAN cfg) (se_range env (SocketCAN cfg)) Map.empty)) (\<lambda>handlers.
     let topics = rx_topics (tf_device fl) (SubscribeMsgs cfg) in
     bind_traced
       (lift_traced BrkOp id (broker_Subscribe (se_mqtt env) (se_rabbit env) broker topics)) (\<lambda>_.
       return \<lparr>ap_lib = lib, ap_pl = pl, ap_cmd = cmd, ap_fmt = fmt, ap_text = text,
               ap_broker = broker, ap_ifs = se_range env (SocketCAN cfg),
               ap_handlers = handlers, ap_latch = latch_sets (SocketCAN cfg),
               ap_rxTopics = topics,
               ap_txTopic = BuildTopic ''tx'' (tf_device fl) (pc_TopicPrefix (PublishMsgs cfg)),
               ap_gps = New_gps (Gpsd_Endpoint cfg)\<rparr>)))))"

section \<open>The running program\<close>

datatype worker = NotStarted | Running | Stopped

record 't sys =
  sy_gpsRx :: "'t Data list"
  sy_canRx :: "'t DecodeMsg list"
  sy_canTx :: "'t DecodeMsg list"
  sy_agg :: "'t Aggregator"
  sy_gps :: "'t gps_state"
  sy_listening :: "string list"
  sy_tx :: worker
  sy_pub :: worker
  sy_cancelled :: bool
  sy_closed :: bool
  sy_canOps :: "can_op list"
  sy_exited :: bool
  sy_bus :: "(string \<times> can_frame) list"
  sy_out :: "broker_op list"
  sy_canLog :: "'t DecodeMsg list"
  sy_canSeen :: "'t DecodeMsg list"
  sy_txLog :: "'t DecodeMsg list"
  sy_txSeen :: "'t DecodeMsg list"
  sy_gpsSeen :: "'t Data list"

definition gpsRx_cap :: nat where "gpsRx_cap = 100"
definition canRx_cap :: nat where "canRx_cap = 200"
definition canTx_cap :: nat where "canTx_cap = 100"

definition sys_init :: "'t app \<Rightarrow> 't sys" where
  "sys_init a =
     \<lparr>sy_gpsRx = [], sy_canRx = [], sy_canTx = [], sy_agg = NewAggregator, sy_gps = gps_init,
      sy_listening = ap_ifs a, sy_tx = NotStarted, sy_pub = NotStarted, sy_cancelled = False,
      sy_closed = False, sy_canOps = [], sy_exited = False, sy_bus = [], sy_out = [], sy_canLog = [],
      sy_canSeen = [], sy_txLog = [], sy_txSeen = [], sy_gpsSeen = []\<rparr>"

text \<open>The body of the TX worker for one command; \<open>tx\<close> is the transmitter's answer.\<close>

definition transmit_body ::
  "'t app \<Rightarrow> (can_frame \<Rightarrow> go_error option) \<Rightarrow> 't DecodeMsg \<Rightarrow> (string \<times> can_frame) list" where
  "transmit_body a tx msg =
     (case ap_handlers a (dm_BusID msg) of
        None \<Rightarrow> []
      | Some h \<Rightarrow> map (Pair (dm_BusID msg)) (fst (SendFrame (ap_lib a) (ap_pl a) tx h msg)))"

text \<open>The publisher's filter: the interface has a whitelist and the frame is on it.\<close>

definition latched :: "'t app \<Rightarrow> 't DecodeMsg \<Rightarrow> bool" where
  "latched a msg =
     (case ap_latch a (dm_BusID msg) of
        None \<Rightarrow> False
      | Some ids \<Rightarrow> dm_FrameID msg \<in> set ids)"

definition latch_body :: "'t app \<Rightarrow> 't DecodeMsg \<Rightarrow> 't Aggregator \<Rightarrow> 't Aggregator" where
  "latch_body a msg agg = (if latched a msg then UpdateCAN agg msg else agg)"

definition tick_body :: "'t app \<Rightarrow> mqtt_env \<Rightarrow> rabbit_env \<Rightarrow> 't \<Rightarrow> 't Aggregator \<Rightarrow> broker_op list" where
  "tick_body a me re now agg =
     (case MarshalSnapshot (ap_fmt a) agg now of
        Inl err \<Rightarrow> []
      | Inr j \<Rightarrow> fst (broker_Publish me re (ap_broker a) (ap_txTopic a) (ap_text a j)))"

text \<open>The broker's callback: the command to enqueue, or nothing for an invalid payload.\<close>

definition callback_body :: "'t app \<Rightarrow> 't \<Rightarrow> string \<Rightarrow> 't DecodeMsg option" where
  "callback_body a now payload =
     (case ParseControlCommand ((ap_cmd a)\<lparr>time_now := now\<rparr>) payload of
        Inl err \<Rightarrow> None
      | Inr parsed \<Rightarrow> Some parsed)"

text \<open>The loop of \<open>main\<close> that closes the handlers, in any order of the interfaces.\<close>

definition close_all :: "'t app \<Rightarrow> string list \<Rightarrow> can_op list" where
  "close_all a ifs =
     concat (map (\<lambda>i. case ap_handlers a i of None \<Rightarrow> [] | Some h \<Rightarrow> Close h) ifs)"

inductive sys_step :: "'t app \<Rightarrow> 't sys \<Rightarrow> 't sys \<Rightarrow> bool" for a where
  receive: "ifn \<in> set (sy_listening s) \<Longrightarrow> ap_handlers a ifn = Some h \<Longrightarrow>
     listen_msg (ap_lib a) (ap_pl a) now h f = Some m \<Longrightarrow> length (sy_canRx s) < canRx_cap \<Longrightarrow>
     sys_step a s (s\<lparr>sy_canRx := sy_canRx s @ [m], sy_canLog := sy_canLog s @ [m]\<rparr>)"
| listener_ends: "ifn \<in> set (sy_listening s) \<Longrightarrow>
     sys_step a s (s\<lparr>sy_listening := remove1 ifn (sy_listening s)\<rparr>)"
| gps: "e \<noteq> GCancel \<Longrightarrow> gps_next e (sy_gps s) = Some g \<Longrightarrow>
     new = drop (length (gs_sent (sy_gps s))) (gs_sent g) \<Longrightarrow>
     length (sy_gpsRx s) + length new \<le> gpsRx_cap \<Longrightarrow>
     sys_step a s (s\<lparr>sy_gps := g, sy_gpsRx := sy_gpsRx s @ new\<rparr>)"
| command: "callback_body a now payload = Some m \<Longrightarrow> length (sy_canTx s) < canTx_cap \<Longrightarrow>
     sys_step a s (s\<lparr>sy_canTx := sy_canTx s @ [m], sy_txLog := sy_txLog s @ [m]\<rparr>)"
| start_tx: "sy_tx s = NotStarted \<Longrightarrow> sys_step a s (s\<lparr>sy_tx := Running\<rparr>)"
| start_pub: "sy_tx s \<noteq> NotStarted \<Longrightarrow> sy_pub s = NotStarted \<Longrightarrow> sys_step a s (s\<lparr>sy_pub := Running\<rparr>)"
| transmit: "sy_tx s = Running \<Longrightarrow> sy_canTx s = m # rest \<Longrightarrow>
     sys_step a s (s\<lparr>sy_canTx := rest, sy_bus := sy_bus s @ transmit_body a tx m,
                     sy_txSeen := sy_txSeen s @ [m]\<rparr>)"
| publish_gps: "sy_pub s = Running \<Longrightarrow> sy_gpsRx s = d # rest \<Longrightarrow>
     sys_step a s (s\<lparr>sy_gpsRx := rest, sy_agg := UpdateGPS (sy_agg s) d,
                     sy_gpsSeen := sy_gpsSeen s @ [d]\<rparr>)"
| publish_can: "sy_pub s = Running \<Longrightarrow> sy_canRx s = m # rest \<Longrightarrow>
     sys_step a s (s\<lparr>sy_canRx := rest, sy_agg := latch_body a m (sy_agg s),
                     sy_canSeen := sy_canSeen s @ [m]\<rparr>)"
| tick: "sy_pub s = Running \<Longrightarrow>
     sys_step a s (s\<lparr>sy_out := sy_out s @ tick_body a me re now (sy_agg s)\<rparr>)"
| interrupt: "sy_pub s \<noteq> NotStarted \<Longrightarrow>
     sys_step a s (s\<lparr>sy_cancelled := True, sy_gps := (sy_gps s)\<lparr>gs_cancelled := True\<rparr>\<rparr>)"
| close_can: "sy_cancelled s \<Longrightarrow> \<not> sy_closed s \<Longrightarrow> mset ifs = mset (ap_ifs a) \<Longrightarrow>
     sys_step a s (s\<lparr>sy_closed := True, sy_canOps := close_all a ifs\<rparr>)"
| tx_returns: "sy_cancelled s \<Longrightarrow> sy_tx s = Running \<Longrightarrow> sys_step a s (s\<lparr>sy_tx := Stopped\<rparr>)"
| pub_returns: "sy_cancelled s \<Longrightarrow> sy_pub s = Running \<Longrightarrow> sys_step a s (s\<lparr>sy_pub := Stopped\<rparr>)"
| exit: "sy_closed s \<Longrightarrow> \<not> sy_exited s \<Longrightarrow> sy_tx s = Stopped \<Longrightarrow> sy_pub s = Stopped \<Longrightarrow>
     sy_listening s = [] \<Longrightarrow> gs_pc (sy_gps s) = Returned \<Longrightarrow>
     sys_step a s (s\<lparr>sy_exited := True, sy_out := sy_out s @ broker_Close (ap_broker a)\<rparr>)"

inductive sys_reach :: "'t app \<Rightarrow> 't sys \<Rightarrow> bool" for a where
  init: "sys_reach a (sys_init a)"
| step: "sys_reach a s \<Longrightarrow> \<not> sy_exited s \<Longrightarrow> sys_step a s s' \<Longrightarrow> sys_reach a s'"

section \<open>Invariants of the running program\<close>

lemma drop_gps_sent:
  "gps_next e g = Some g' \<Longrightarrow> gs_sent g' = gs_sent g @ drop (length (gs_sent g)) (gs_sent g')"
  by (cases e) (auto split: if_splits)

lemma gps_next_cancelled_eq: "e \<noteq> GCancel \<Longrightarrow> gps_next e g = Some g' \<Longrightarrow> gs_cancelled g' = gs_cancelled g"
  by (cases e) (auto split: if_splits)

text \<open>An invariant of every step that holds at the start holds in every reachable state.\<close>

lemma sys_reach_invariant:
  assumes "sys_reach a s" "P (sys_init a)" "\<And>s s'. sys_step a s s' \<Longrightarrow> P s \<Longrightarrow> P s'"
  shows "P s"
  using assms(1) by induction (use assms(2,3) in blast)+

text \<open>No channel holds more than it was made for.\<close>

definition caps_ok :: "'t sys \<Rightarrow> bool" where
  "caps_ok s \<longleftrightarrow>
     length (sy_gpsRx s) \<le> gpsRx_cap \<and> length (sy_canRx s) \<le> canRx_cap \<and> length (sy_canTx s) \<le> canTx_cap"

lemma caps_ok_step: "sys_step a s s' \<Longrightarrow> caps_ok s \<Longrightarrow> caps_ok s'"
  by (induction rule: sys_step.induct) (auto simp: caps_ok_def)

lemma caps_ok_reach: "sys_reach a s \<Longrightarrow> caps_ok s"
  by (rule sys_reach_invariant [OF _ _ caps_ok_step]) (simp_all add: caps_ok_def sys_init_def)

text \<open>The channels are queues: what was put is what was taken and what is left, in order.\<close>

definition queues_ok :: "'t sys \<Rightarrow> bool" where
  "queues_ok s \<longleftrightarrow>
     sy_canLog s = sy_canSeen s @ sy_canRx s \<and>
     sy_txLog s = sy_txSeen s @ sy_canTx s \<and>
     gs_sent (sy_gps s) = sy_gpsSeen s @ sy_gpsRx s"

lemma queues_ok_step: "sys_step a s s' \<Longrightarrow> queues_ok s \<Longrightarrow> queues_ok s'"
proof (induction rule: sys_step.induct)
  case (gps e s g new)
  then show ?case using drop_gps_sent [OF gps(2)] by (simp add: queues_ok_def)
qed (auto simp: queues_ok_def)

lemma queues_ok_reach: "sys_reach a s \<Longrightarrow> queues_ok s"
  by (rule sys_reach_invariant [OF _ _ queues_ok_step])
     (simp_all add: queues_ok_def sys_init_def gps_init_def)

text \<open>The aggregator is the fold over the whitelisted frames taken, with the last position taken.\<close>

definition agg_of :: "'t app \<Rightarrow> 't DecodeMsg list \<Rightarrow> 't Data list \<Rightarrow> 't Aggregator" where
  "agg_of a cans gpss =
     (fold (\<lambda>m g. UpdateCAN g m) (filter (latched a) cans) NewAggregator)\<lparr>gpsData := last_of gpss\<rparr>"

lemma UpdateCAN_gpsData: "UpdateCAN (g\<lparr>gpsData := d\<rparr>) m = (UpdateCAN g m)\<lparr>gpsData := d\<rparr>"
  by (simp add: UpdateCAN_def Let_def)

lemma agg_of_can: "agg_of a (cans @ [m]) gpss = latch_body a m (agg_of a cans gpss)"
  by (simp add: agg_of_def latch_body_def UpdateCAN_gpsData)

lemma agg_of_gps: "agg_of a cans (gpss @ [d]) = UpdateGPS (agg_of a cans gpss) d"
  by (simp add: agg_of_def UpdateGPS_def)

lemma agg_step:
  "sys_step a s s' \<Longrightarrow> sy_agg s = agg_of a (sy_canSeen s) (sy_gpsSeen s) \<Longrightarrow>
   sy_agg s' = agg_of a (sy_canSeen s') (sy_gpsSeen s')"
  by (induction rule: sys_step.induct) (simp_all add: agg_of_can agg_of_gps)

lemma agg_reach: "sys_reach a s \<Longrightarrow> sy_agg s = agg_of a (sy_canSeen s) (sy_gpsSeen s)"
  by (rule sys_reach_invariant [OF _ _ agg_step])
     (simp_all add: sys_init_def agg_of_def NewAggregator_def)

lemma agg_ok_agg_of: "agg_ok (agg_of a cans gpss)"
proof -
  have "agg_ok g \<Longrightarrow> agg_ok (fold (\<lambda>m g. UpdateCAN g m) ms g)" for ms and g :: "'a Aggregator"
    by (induction ms arbitrary: g) (auto intro: agg_ok_UpdateCAN)
  then have "agg_ok (fold (\<lambda>m g. UpdateCAN g m) (filter (latched a) cans) NewAggregator)"
    by (simp add: agg_ok_New)
  then show ?thesis by (simp add: agg_of_def agg_ok_def)
qed

lemma latest_agg_of:
  "latest (agg_of a cans gpss) b n = value_of (rev (bus_signals b (filter (latched a) cans))) n"
proof -
  have "latest (agg_of a cans gpss) b n =
      latest (fold (\<lambda>m g. UpdateCAN g m) (filter (latched a) cans) NewAggregator) b n"
    by (simp add: agg_of_def latest_def)
  then show ?thesis by (simp add: latest_fold_UpdateCAN split: option.split)
qed

text \<open>The frame a command asks for, on the interface it names.\<close>

definition asked_frame :: "'t app \<Rightarrow> 't DecodeMsg \<Rightarrow> (string \<times> can_frame) list" where
  "asked_frame a msg =
     (case ap_handlers a (dm_BusID msg) of
        None \<Rightarrow> []
      | Some h \<Rightarrow>
          (case MakeFrame (ap_lib a) (ap_pl a) h msg of
             Inl e \<Rightarrow> []
           | Inr f \<Rightarrow> [(dm_BusID msg, f)]))"

lemma transmit_body_cases: "transmit_body a tx m = [] \<or> transmit_body a tx m = asked_frame a m"
  by (auto simp: transmit_body_def asked_frame_def SendFrame_def split: option.splits sum.splits)

text \<open>The buses carry, in order, frames that the commands taken asked for, each at most once.\<close>

lemma bus_step:
  "sys_step a s s' \<Longrightarrow> subseq (sy_bus s) (concat (map (asked_frame a) (sy_txSeen s))) \<Longrightarrow>
   subseq (sy_bus s') (concat (map (asked_frame a) (sy_txSeen s')))"
proof (induction rule: sys_step.induct)
  case (transmit s m rest tx)
  then show ?case using transmit_body_cases [of a tx m]
    by (auto intro!: list_emb_append_mono)
qed simp_all

lemma bus_reach: "sys_reach a s \<Longrightarrow> subseq (sy_bus s) (concat (map (asked_frame a) (sy_txSeen s)))"
  by (rule sys_reach_invariant [OF _ _ bus_step]) (simp_all add: sys_init_def)

text \<open>Every command on the channel came from an accepted payload.\<close>

lemma txLog_step:
  "sys_step a s s' \<Longrightarrow> \<forall>m\<in>set (sy_txLog s). \<exists>now p. callback_body a now p = Some m \<Longrightarrow>
   \<forall>m\<in>set (sy_txLog s'). \<exists>now p. callback_body a now p = Some m"
  by (induction rule: sys_step.induct) auto

lemma txLog_reach:
  "sys_reach a s \<Longrightarrow> \<forall>m\<in>set (sy_txLog s). \<exists>now p. callback_body a now p = Some m"
  by (rule sys_reach_invariant [OF _ _ txLog_step]) (simp_all add: sys_init_def)

text \<open>Every received message decodes a frame of an interface that has a handler.\<close>

definition decoded :: "'t app \<Rightarrow> 't DecodeMsg \<Rightarrow> bool" where
  "decoded a m \<longleftrightarrow>
     (\<exists>ifn h now f. ap_handlers a ifn = Some h \<and> listen_msg (ap_lib a) (ap_pl a) now h f = Some m)"

lemma canLog_step:
  "sys_step a s s' \<Longrightarrow> \<forall>m\<in>set (sy_canLog s). decoded a m \<Longrightarrow> \<forall>m\<in>set (sy_canLog s'). decoded a m"
proof (induction rule: sys_step.induct)
  case (receive ifn s h now f m)
  then have "decoded a m" unfolding decoded_def by blast
  then show ?case using receive by simp
qed simp_all

lemma canLog_reach: "sys_reach a s \<Longrightarrow> \<forall>m\<in>set (sy_canLog s). decoded a m"
  by (rule sys_reach_invariant [OF _ _ canLog_step]) (simp_all add: sys_init_def)

text \<open>What the broker is asked to do: snapshots on the device's topic, and at last to close.\<close>

definition out_ok :: "'t app \<Rightarrow> broker_op \<Rightarrow> bool" where
  "out_ok a op \<longleftrightarrow>
     op \<in> set (broker_Close (ap_broker a)) \<or>
     (\<exists>me re agg now j. agg_ok agg \<and> MarshalSnapshot (ap_fmt a) agg now = Inr j \<and>
        op \<in> set (fst (broker_Publish me re (ap_broker a) (ap_txTopic a) (ap_text a j))))"

lemma tick_body_out_ok: "agg_ok agg \<Longrightarrow> op \<in> set (tick_body a me re now agg) \<Longrightarrow> out_ok a op"
  unfolding out_ok_def tick_body_def by (cases "MarshalSnapshot (ap_fmt a) agg now") auto

lemma out_step:
  "sys_step a s s' \<Longrightarrow> agg_ok (sy_agg s) \<and> (\<forall>op\<in>set (sy_out s). out_ok a op) \<Longrightarrow>
   agg_ok (sy_agg s') \<and> (\<forall>op\<in>set (sy_out s'). out_ok a op)"
proof (induction rule: sys_step.induct)
  case (exit s)
  then show ?case by (auto simp: out_ok_def)
qed (auto simp: latch_body_def intro: tick_body_out_ok agg_ok_UpdateCAN agg_ok_UpdateGPS)

lemma out_reach: "sys_reach a s \<Longrightarrow> agg_ok (sy_agg s) \<and> (\<forall>op\<in>set (sy_out s). out_ok a op)"
  by (rule sys_reach_invariant [OF _ _ out_step]) (simp_all add: sys_init_def agg_ok_New)

text \<open>The life of the workers: started in order, stopped only after the cancellation.\<close>

definition life_ok :: "'t sys \<Rightarrow> bool" where
  "life_ok s \<longleftrightarrow>
     gps_inv (sy_gps s) \<and> (gs_cancelled (sy_gps s) \<longleftrightarrow> sy_cancelled s) \<and>
     (sy_pub s \<noteq> NotStarted \<longrightarrow> sy_tx s \<noteq> NotStarted) \<and>
     (sy_cancelled s \<longrightarrow> sy_pub s \<noteq> NotStarted) \<and>
     (sy_tx s = Stopped \<or> sy_pub s = Stopped \<or> sy_closed s \<longrightarrow> sy_cancelled s) \<and>
     (sy_exited s \<longrightarrow> sy_closed s \<and> sy_tx s = Stopped \<and> sy_pub s = Stopped \<and> sy_listening s = [] \<and>
        gs_pc (sy_gps s) = Returned)"

lemma life_ok_step: "sys_step a s s' \<Longrightarrow> \<not> sy_exited s \<and> life_ok s \<Longrightarrow> life_ok s'"
proof (induction rule: sys_step.induct)
  case (gps e s g new)
  then show ?case using gps_next_inv [OF gps(2)] gps_next_cancelled_eq [OF gps(1,2)]
    by (simp add: life_ok_def)
next
  case (interrupt s)
  then show ?case using gps_next_inv [of GCancel "sy_gps s"] by (simp add: life_ok_def)
qed (auto simp: life_ok_def)

lemma life_ok_reach: "sys_reach a s \<Longrightarrow> life_ok s"
proof (induction rule: sys_reach.induct)
  case init
  then show ?case using gps_init_inv by (simp add: life_ok_def sys_init_def gps_init_def)
qed (blast intro: life_ok_step)

section \<open>Shutdown\<close>

text \<open>
  From every reachable state after the interrupt the program can end, by steps that take nothing
  from a channel and put nothing on a bus: no goroutine waits for another one's message.
\<close>

definition same_io :: "'t sys \<Rightarrow> 't sys \<Rightarrow> bool" where
  "same_io s s' \<longleftrightarrow>
     sy_bus s' = sy_bus s \<and> sy_canTx s' = sy_canTx s \<and> sy_canRx s' = sy_canRx s \<and>
     sy_gpsRx s' = sy_gpsRx s \<and> sy_agg s' = sy_agg s"

text \<open>What is left to stop: the steps that lead to the exit.\<close>

inductive quiet_steps :: "'t app \<Rightarrow> 't sys \<Rightarrow> 't sys \<Rightarrow> bool" for a where
  refl: "quiet_steps a s s"
| trans: "quiet_steps a s t \<Longrightarrow> \<not> sy_exited t \<Longrightarrow> sys_step a t u \<Longrightarrow> same_io t u \<Longrightarrow> quiet_steps a s u"

lemma quiet_steps_io: "quiet_steps a s t \<Longrightarrow> same_io s t"
  by (induction rule: quiet_steps.induct) (simp_all add: same_io_def)

lemma quiet_steps_reach: "quiet_steps a s t \<Longrightarrow> sys_reach a s \<Longrightarrow> sys_reach a t"
  by (induction rule: quiet_steps.induct) (auto intro: sys_reach.step)

lemma quiet_steps_append: "quiet_steps a t u \<Longrightarrow> quiet_steps a s t \<Longrightarrow> quiet_steps a s u"
  by (induction rule: quiet_steps.induct) (auto intro: quiet_steps.trans)

lemma quiet_step: "sys_step a s t \<Longrightarrow> \<not> sy_exited s \<Longrightarrow> same_io s t \<Longrightarrow> quiet_steps a s t"
  by (blast intro: quiet_steps.intros)

lemma listeners_stop:
  "\<not> sy_exited s \<Longrightarrow> quiet_steps a s (s\<lparr>sy_listening := []\<rparr>)"
proof (induction "sy_listening s" arbitrary: s)
  case Nil
  then have "s\<lparr>sy_listening := []\<rparr> = s" by simp
  then show ?case by (simp add: quiet_steps.refl)
next
  case (Cons ifn ifs)
  let ?t = "s\<lparr>sy_listening := remove1 ifn (sy_listening s)\<rparr>"
  have "quiet_steps a s ?t"
    using Cons.hyps(2) Cons.prems
    by (intro quiet_step listener_ends) (simp_all add: same_io_def flip: Cons.hyps(2))
  moreover have "quiet_steps a ?t (?t\<lparr>sy_listening := []\<rparr>)"
    using Cons.hyps(2) Cons.prems by (intro Cons.hyps(1)) (simp_all flip: Cons.hyps(2))
  ultimately show ?case by (auto intro: quiet_steps_append)
qed

lemma gps_stops:
  "gps_run es (sy_gps s) = Some g \<Longrightarrow> gs_sent g = gs_sent (sy_gps s) \<Longrightarrow> GCancel \<notin> set es \<Longrightarrow>
   length (sy_gpsRx s) \<le> gpsRx_cap \<Longrightarrow> \<not> sy_exited s \<Longrightarrow> quiet_steps a s (s\<lparr>sy_gps := g\<rparr>)"
proof (induction es arbitrary: s)
  case Nil
  then have "s\<lparr>sy_gps := g\<rparr> = s" by simp
  then show ?case by (simp only: quiet_steps.refl)
next
  case (Cons e es)
  then obtain h where h: "gps_next e (sy_gps s) = Some h" "gps_run es h = Some g"
    by (auto simp: bind_eq_Some_conv)
  have mono: "length (gs_sent g1) \<le> length (gs_sent g2)" if "gps_run fs g1 = Some g2"
    for fs and g1 g2 :: "'a gps_state"
    using that
  proof (induction fs arbitrary: g1)
    case (Cons f fs)
    then obtain g3 where "gps_next f g1 = Some g3" "gps_run fs g3 = Some g2"
      by (auto simp: bind_eq_Some_conv)
    then show ?case using Cons.IH [of g3] drop_gps_sent [of f g1 g3] by (metis length_append le_add1 le_trans)
  qed simp
  have sent: "gs_sent h = gs_sent (sy_gps s)"
    using drop_gps_sent [OF h(1)] mono [OF h(2)] Cons.prems(2)
    by (metis add_cancel_left_right append_self_conv le_antisym length_0_conv length_append le_add1 length_greater_0_conv)
  have "sys_step a s (s\<lparr>sy_gps := h, sy_gpsRx := sy_gpsRx s @ drop (length (gs_sent (sy_gps s))) (gs_sent h)\<rparr>)"
    using Cons.prems h(1) sent by (intro sys_step.gps) auto
  then have "quiet_steps a s (s\<lparr>sy_gps := h\<rparr>)"
    using sent Cons.prems(5) by (intro quiet_step) (simp_all add: same_io_def)
  moreover have "quiet_steps a (s\<lparr>sy_gps := h\<rparr>) (s\<lparr>sy_gps := h\<rparr>\<lparr>sy_gps := g\<rparr>)"
    using Cons.prems h(2) sent by (intro Cons.IH) simp_all
  ultimately show ?case by (auto intro: quiet_steps_append)
qed

lemma quiet_if:
  assumes "P s \<Longrightarrow> sys_step a s t" "P s \<Longrightarrow> same_io s t" "\<not> sy_exited s"
  shows "quiet_steps a s (if P s then t else s)"
  using assms by (auto intro: quiet_step quiet_steps.refl)

lemma shutdown_steps:
  assumes "sys_reach a s" "sy_cancelled s" "\<not> sy_exited s"
  obtains s' where "quiet_steps a s s'" "sy_exited s'"
proof -
  have life: "life_ok s" and caps: "caps_ok s"
    using assms(1) by (simp_all add: life_ok_reach caps_ok_reach)
  obtain g where g: "gps_run (gps_exit (gs_pc (sy_gps s))) (sy_gps s) = Some g" "gs_pc g = Returned"
      "gs_sent g = gs_sent (sy_gps s)"
    using gps_exit_returns [of "sy_gps s"] life assms(2) by (auto simp: life_ok_def)
  have nc: "GCancel \<notin> set (gps_exit (gs_pc (sy_gps s)))"
    by (simp add: gps_exit_def split: gps_pc.split)
  define s1 where "s1 = s\<lparr>sy_gps := g\<rparr>"
  have q1: "quiet_steps a s s1" unfolding s1_def
    using caps assms(3) by (intro gps_stops [OF g(1,3) nc]) (simp_all add: caps_ok_def)
  define s2 where "s2 = s1\<lparr>sy_listening := []\<rparr>"
  have q2: "quiet_steps a s1 s2" unfolding s2_def
    by (rule listeners_stop) (simp add: s1_def assms(3))
  define s3 where "s3 = (if sy_tx s2 = Running then s2\<lparr>sy_tx := Stopped\<rparr> else s2)"
  have q3: "quiet_steps a s2 s3" unfolding s3_def
    by (rule quiet_if) (simp_all add: tx_returns same_io_def s2_def s1_def assms)
  define s4 where "s4 = (if sy_pub s3 = Running then s3\<lparr>sy_pub := Stopped\<rparr> else s3)"
  have q4: "quiet_steps a s3 s4" unfolding s4_def
    by (rule quiet_if) (simp_all add: pub_returns same_io_def s3_def s2_def s1_def assms)
  define s5 where
    "s5 = (if \<not> sy_closed s4 then s4\<lparr>sy_closed := True, sy_canOps := close_all a (ap_ifs a)\<rparr> else s4)"
  have q5: "quiet_steps a s4 s5" unfolding s5_def
    by (rule quiet_if) (simp_all add: close_can same_io_def s4_def s3_def s2_def s1_def assms)
  have "sy_tx s \<noteq> NotStarted" "sy_pub s \<noteq> NotStarted" using life assms(2) by (auto simp: life_ok_def)
  then have "sy_tx s5 = Stopped" "sy_pub s5 = Stopped"
    by (cases "sy_tx s"; cases "sy_pub s"; simp add: s5_def s4_def s3_def s2_def s1_def)+
  moreover have "sy_closed s5" "sy_listening s5 = []" "\<not> sy_exited s5" "gs_pc (sy_gps s5) = Returned"
    by (simp_all add: s5_def s4_def s3_def s2_def s1_def assms(3) g(2))
  ultimately have "sys_step a s5 (s5\<lparr>sy_exited := True, sy_out := sy_out s5 @ broker_Close (ap_broker a)\<rparr>)"
    by (intro exit)
  then have "quiet_steps a s5 (s5\<lparr>sy_exited := True, sy_out := sy_out s5 @ broker_Close (ap_broker a)\<rparr>)"
    using \<open>\<not> sy_exited s5\<close> by (intro quiet_step) (simp_all add: same_io_def)
  from quiet_steps_append [OF this quiet_steps_append [OF q5 quiet_steps_append [OF q4
        quiet_steps_append [OF q3 quiet_steps_append [OF q2 q1]]]]]
  show thesis by (rule that) simp
qed

section \<open>What a successful start-up gives\<close>

lemma bind_traced_InrE:
  assumes "snd (bind_traced m f) = Inr y"
  obtains x where "snd m = Inr x" "snd (f x) = Inr y" "fst (bind_traced m f) = fst m @ fst (f x)"
  using assms by (cases m; cases "snd m") auto

lemma New_Inr:
  assumes "snd (New env ifName cfg) = Inr h"
  shows "h_ifName h = ifName" "h_conn h" "h_rx h" "h_tx h"
    "h_sigDB h = None \<longleftrightarrow> sc_DbcPath cfg = []"
  using assms unfolding New_def
  by (auto elim!: bind_traced_InrE split: if_splits simp: map_sum_def split: sum.splits)

definition handlers_of :: "(string \<Rightarrow> SocketCanCfg option) \<Rightarrow> string set \<Rightarrow> (string \<Rightarrow> Handler option) \<Rightarrow> bool" where
  "handlers_of cfgs ifs hs \<longleftrightarrow>
     dom hs = ifs \<and>
     (\<forall>i h. hs i = Some h \<longrightarrow> h_ifName h = i \<and> (\<exists>c. cfgs i = Some c \<and> (h_sigDB h = None \<longleftrightarrow> sc_DbcPath c = [])))"

lemma start_can_Inr:
  "snd (start_can env cfgs ifs hs) = Inr hs' \<Longrightarrow> handlers_of cfgs A hs \<Longrightarrow> set ifs \<subseteq> dom cfgs \<Longrightarrow>
   handlers_of cfgs (A \<union> set ifs) hs'"
proof (induction ifs arbitrary: hs A)
  case (Cons i ifs)
  then obtain c where c: "cfgs i = Some c" by auto
  from Cons.prems(1) obtain h where h: "snd (New env i c) = Inr h"
      "snd (start_can env cfgs ifs (hs(i \<mapsto> h))) = Inr hs'"
    by (auto simp: c elim!: bind_traced_InrE)
  have "handlers_of cfgs (insert i A) (hs(i \<mapsto> h))"
    using Cons.prems(2) New_Inr [OF h(1)] c by (auto simp: handlers_of_def)
  from Cons.IH [OF h(2) this] Cons.prems(3) show ?case by simp
qed simp

lemma telemetry_setup_Inr:
  assumes "snd (telemetry_setup env cmd fmt text lib pl fl) = Inr a"
  obtains cfg hs where
    "LoadConfig (se_cfg env) (tf_conf fl) = Inr cfg"
    "snd (start_can (se_can env) (SocketCAN cfg) (se_range env (SocketCAN cfg)) Map.empty) = Inr hs"
    "ap_handlers a = hs" "ap_ifs a = se_range env (SocketCAN cfg)"
    "ap_latch a = latch_sets (SocketCAN cfg)"
    "ap_rxTopics a = rx_topics (tf_device fl) (SubscribeMsgs cfg)"
    "ap_txTopic a = BuildTopic ''tx'' (tf_device fl) (pc_TopicPrefix (PublishMsgs cfg))"
    "snd (broker_Subscribe (se_mqtt env) (se_rabbit env) (ap_broker a) (ap_rxTopics a)) = Inr ()"
  using assms unfolding telemetry_setup_def Let_def
  by (auto elim!: bind_traced_InrE)

section \<open>Properties\<close>

text \<open>A program with one interface, whose single message has no signals, for examples.\<close>

definition example_app :: "nat app" where
  "example_app =
     \<lparr>ap_lib = undefined, ap_pl = undefined, ap_cmd = example_env example_command, ap_fmt = (\<lambda>_. []),
      ap_text = (\<lambda>_. []), ap_broker = MqttBroker \<lparr>mh_deviceID = ''d''\<rparr>, ap_ifs = [''can0''],
      ap_handlers = [''can0'' \<mapsto> \<lparr>h_ifName = ''can0'', h_sigDB = Some \<lparr>Version = [], Msgs = [528 \<mapsto>
          \<lparr>m_Name = [], m_ID = 528, m_IsExtended = False, m_Length = 8, m_SenderNode = [], m_Signals = []\<rparr>]\<rparr>,
          h_conn = True, h_rx = True, h_tx = True\<rparr>],
      ap_latch = [''can0'' \<mapsto> [1]], ap_rxTopics = [''/rx/d/ctrl''], ap_txTopic = ''/tx/d/state'',
      ap_gps = New_gps []\<rparr>"

definition example_busy :: "nat sys" where
  "example_busy = (sys_init example_app)\<lparr>sy_tx := Running, sy_pub := Running\<rparr>"

lemma reach_step: "sys_reach a s \<Longrightarrow> sys_step a s s' \<Longrightarrow> \<not> sy_exited s \<Longrightarrow> sys_reach a s'"
  by (rule sys_reach.step)

lemma example_busy_reach: "sys_reach example_app example_busy"
proof -
  let ?s = "sys_init example_app"
  have "sys_step example_app ?s (?s\<lparr>sy_tx := Running\<rparr>)"
    by (rule start_tx) (simp add: sys_init_def)
  then have 1: "sys_reach example_app (?s\<lparr>sy_tx := Running\<rparr>)"
    by (rule reach_step [OF sys_reach.init]) (simp add: sys_init_def)
  have "sys_step example_app (?s\<lparr>sy_tx := Running\<rparr>) (?s\<lparr>sy_tx := Running\<rparr>\<lparr>sy_pub := Running\<rparr>)"
    by (rule start_pub) (simp_all add: sys_init_def)
  from reach_step [OF 1 this] show ?thesis unfolding example_busy_def by (simp add: sys_init_def)
qed

lemma example_cancelled_reach:
  "sys_reach example_app (example_busy\<lparr>sy_cancelled := True, sy_gps := gps_init\<lparr>gs_cancelled := True\<rparr>\<rparr>)"
proof -
  have "sys_step example_app example_busy
      (example_busy\<lparr>sy_cancelled := True, sy_gps := (sy_gps example_busy)\<lparr>gs_cancelled := True\<rparr>\<rparr>)"
    by (rule interrupt) (simp add: example_busy_def)
  from sys_reach.step [OF example_busy_reach _ this]
  show ?thesis by (simp add: example_busy_def sys_init_def)
qed

text \<open>
  C2 Safety of the buses: every frame on a bus was asked for by a command that the TX worker took
  from its channel, on the interface the command names, in the order of the commands and at most
  once each; and every such command is the parse of a valid payload.
\<close>

theorem bus_carries_commands:
  assumes "sys_reach a s"
  shows "subseq (sy_bus s) (concat (map (asked_frame a) (sy_txSeen s))) \<and>
    (\<forall>m \<in> set (sy_txSeen s). \<exists>now payload.
       ParseControlCommand ((ap_cmd a)\<lparr>time_now := now\<rparr>) payload = Inr m)"
proof -
  have "set (sy_txSeen s) \<subseteq> set (sy_txLog s)" using queues_ok_reach [OF assms] by (simp add: queues_ok_def)
  then show ?thesis
    using bus_reach [OF assms] txLog_reach [OF assms]
    by (fastforce simp: callback_body_def split: sum.splits)
qed

lemma bus_carries_commands_witness:
  "\<exists>s f. sys_reach example_app s \<and> sy_bus s = [(''can0'', f)] \<and>
     subseq (sy_bus s) (concat (map (asked_frame example_app) (sy_txSeen s)))"
proof -
  obtain m where m: "callback_body example_app 0 [] = Some m" "dm_BusID m = ''can0''" "dm_FrameID m = 528"
    by (simp add: callback_body_def example_app_def ParseControlCommand_def example_env_def example_decoded
        example_frame_id example_bus trim_space_visible visible_def)
  let ?s = "example_busy\<lparr>sy_canTx := sy_canTx example_busy @ [m], sy_txLog := sy_txLog example_busy @ [m]\<rparr>"
  let ?f = "transmit_body example_app (\<lambda>_. None) m"
  have "sys_step example_app example_busy ?s"
    by (rule command [OF m(1)]) (simp add: example_busy_def sys_init_def canTx_cap_def)
  then have r: "sys_reach example_app ?s"
    by (rule sys_reach.step [OF example_busy_reach, rotated]) (simp add: example_busy_def sys_init_def)
  have "sys_step example_app ?s (?s\<lparr>sy_canTx := [], sy_bus := sy_bus ?s @ ?f, sy_txSeen := sy_txSeen ?s @ [m]\<rparr>)"
    by (rule transmit) (simp_all add: example_busy_def sys_init_def)
  from sys_reach.step [OF r _ this]
  have t: "sys_reach example_app (?s\<lparr>sy_canTx := [], sy_bus := sy_bus ?s @ ?f, sy_txSeen := sy_txSeen ?s @ [m]\<rparr>)"
    by (simp add: example_busy_def sys_init_def)
  obtain f where "?f = [(''can0'', f)]"
    by (simp add: transmit_body_def SendFrame_def MakeFrame_def example_app_def m)
  then show ?thesis using t bus_carries_commands [OF t]
    by (intro exI [of _ "?s\<lparr>sy_canTx := [], sy_bus := sy_bus ?s @ ?f, sy_txSeen := sy_txSeen ?s @ [m]\<rparr>"] exI [of _ f])
       (simp add: example_busy_def sys_init_def)
qed

text \<open>
  C3 What the publisher holds refines its specification: the state is the fold over the whitelisted
  messages taken so far, so each signal has its last whitelisted value, a signal of an interface or
  a frame that is not on the whitelist never shows up, and the position is the last one taken.
\<close>

theorem publisher_state:
  assumes "sys_reach a s"
  shows "latest (sy_agg s) b n = value_of (rev (bus_signals b (filter (latched a) (sy_canSeen s)))) n \<and>
    gpsData (sy_agg s) = last_of (sy_gpsSeen s) \<and> agg_ok (sy_agg s) \<and>
    (latest (sy_agg s) b n \<noteq> None \<longrightarrow>
       (\<exists>m ids. m \<in> set (sy_canSeen s) \<and> dm_BusID m = b \<and> ap_latch a b = Some ids \<and> dm_FrameID m \<in> set ids))"
proof -
  have agg: "sy_agg s = agg_of a (sy_canSeen s) (sy_gpsSeen s)" using agg_reach [OF assms] .
  have lat: "latest (sy_agg s) b n = value_of (rev (bus_signals b (filter (latched a) (sy_canSeen s)))) n"
    unfolding agg latest_agg_of ..
  moreover have "\<exists>m ids. m \<in> set (sy_canSeen s) \<and> dm_BusID m = b \<and> ap_latch a b = Some ids \<and> dm_FrameID m \<in> set ids"
    if "latest (sy_agg s) b n \<noteq> None"
  proof -
    have "bus_signals b (filter (latched a) (sy_canSeen s)) \<noteq> []" using that unfolding lat by auto
    then obtain m where "m \<in> set (sy_canSeen s)" "latched a m" "dm_BusID m = b"
      by (auto simp: bus_signals_def filter_empty_conv)
    then show ?thesis by (auto simp: latched_def split: option.splits)
  qed
  ultimately show ?thesis using agg_ok_agg_of [of a "sy_canSeen s" "sy_gpsSeen s"]
    by (auto simp: agg) (simp add: agg_of_def)
qed

lemma publisher_state_witness: "latest (sy_agg example_busy) ''can0'' ''speed'' = None"
  using publisher_state [OF example_busy_reach, of "''can0''" "''speed''"]
  by (simp add: example_busy_def sys_init_def)









lemma snd_bind_traced: "snd (bind_traced m f) = (case snd m of Inl e \<Rightarrow> Inl e | Inr x \<Rightarrow> snd (f x))"
  by (cases m; cases "snd m") auto

lemma telemetry_setup_ok:
  assumes "LoadConfig (se_cfg env) (tf_conf fl) = Inr cfg"
    "is_ok (New_logger (se_logger env) (tf_logPath fl) logFileCount
       (if tf_dev fl then ''debug'' else ''info'') (tf_dev fl))"
    "snd (NewBroker (se_mqtt env) (se_rabbit env) (tf_device fl) (Broker_Type cfg) (Mosquitto cfg) (RabbitMQ cfg)) = Inr b"
    "snd (start_can (se_can env) (SocketCAN cfg) (se_range env (SocketCAN cfg)) Map.empty) = Inr hs"
    "snd (broker_Subscribe (se_mqtt env) (se_rabbit env) b (rx_topics (tf_device fl) (SubscribeMsgs cfg))) = Inr ()"
  shows "\<exists>a. snd (telemetry_setup env cmd fmt txt lib pl fl) = Inr a"
proof -
  obtain l where "New_logger (se_logger env) (tf_logPath fl) logFileCount
      (if tf_dev fl then ''debug'' else ''info'') (tf_dev fl) = Inr l"
    using assms(2) by (cases "New_logger (se_logger env) (tf_logPath fl) logFileCount
      (if tf_dev fl then ''debug'' else ''info'') (tf_dev fl)") auto
  then show ?thesis
    by (simp add: telemetry_setup_def snd_bind_traced lift_traced_def Let_def assms del: if_split)
qed

text \<open>
  C14 A start-up without a fatal error gives the running program what the configuration asks for: a
  handler for exactly the configured interfaces, each under its own name and with a DBC store where
  a path is configured, the whitelist of each interface, and the subscription to the control
  topics of the device, of which there is at least one.
\<close>

theorem setup_follows_config:
  assumes "snd (telemetry_setup env cmd fmt txt lib pl fl) = Inr a"
    and "\<And>cfg. LoadConfig (se_cfg env) (tf_conf fl) = Inr cfg \<Longrightarrow>
      set (se_range env (SocketCAN cfg)) = dom (SocketCAN cfg)"
  shows "\<exists>cfg. LoadConfig (se_cfg env) (tf_conf fl) = Inr cfg \<and>
    dom (ap_handlers a) = dom (SocketCAN cfg) \<and> dom (ap_latch a) = dom (SocketCAN cfg) \<and>
    (\<forall>i h. ap_handlers a i = Some h \<longrightarrow> h_ifName h = i \<and>
       (\<exists>c. SocketCAN cfg i = Some c \<and> (h_sigDB h = None \<longleftrightarrow> sc_DbcPath c = []) \<and>
            ap_latch a i = Some (sc_LatchFrameIDs c))) \<and>
    set (ap_rxTopics a) = BuildTopic ''rx'' (tf_device fl) ` set (su_TopicPrefixes (SubscribeMsgs cfg)) \<and>
    ap_rxTopics a \<noteq> [] \<and>
    set (concat (map broker_bound (fst (broker_Subscribe (se_mqtt env) (se_rabbit env) (ap_broker a) (ap_rxTopics a))))) =
      set (ap_rxTopics a)"
proof -
  obtain cfg hs where c: "LoadConfig (se_cfg env) (tf_conf fl) = Inr cfg"
    "snd (start_can (se_can env) (SocketCAN cfg) (se_range env (SocketCAN cfg)) Map.empty) = Inr hs"
    "ap_handlers a = hs" "ap_latch a = latch_sets (SocketCAN cfg)"
    "ap_rxTopics a = rx_topics (tf_device fl) (SubscribeMsgs cfg)"
    "snd (broker_Subscribe (se_mqtt env) (se_rabbit env) (ap_broker a) (ap_rxTopics a)) = Inr ()"
    by (rule telemetry_setup_Inr [OF assms(1)])
  have range: "set (se_range env (SocketCAN cfg)) = dom (SocketCAN cfg)" by (rule assms(2) [OF c(1)])
  have "handlers_of (SocketCAN cfg) ({} \<union> set (se_range env (SocketCAN cfg))) hs"
    by (rule start_can_Inr [OF c(2)]) (simp_all add: handlers_of_def range)
  then have hs: "handlers_of (SocketCAN cfg) (dom (SocketCAN cfg)) hs" by (simp add: range)
  have topics: "set (rx_topics d su) = BuildTopic ''rx'' d ` set (su_TopicPrefixes su)" for d su
  proof -
    have "dom (map_of (go_map (map (\<lambda>pfx. (BuildTopic ''rx'' d pfx, 0 :: nat)) (su_TopicPrefixes su)))) =
        BuildTopic ''rx'' d ` set (su_TopicPrefixes su)"
      by (simp add: map_of_go_map dom_map_of_conv_image_fst image_image)
    then show ?thesis by (simp add: rx_topics_def dom_map_of_conv_image_fst)
  qed
  obtain raw where "cfg = normalize (ce_getenv (se_cfg env)) raw" using c(1) by (auto simp: LoadConfig_Inr)
  then have "su_TopicPrefixes (SubscribeMsgs cfg) \<noteq> []" using normalize_cfg_ok by (auto simp: cfg_ok_def)
  then have "set (ap_rxTopics a) \<noteq> {}" by (simp add: c(5) topics)
  then have "rx_topics (tf_device fl) (SubscribeMsgs cfg) \<noteq> []" using c(5) by auto
  moreover have "dom (latch_sets (SocketCAN cfg)) = dom (SocketCAN cfg)"
    by (auto simp: latch_sets_def)
  moreover have "\<exists>c. SocketCAN cfg i = Some c \<and> (h_sigDB h = None \<longleftrightarrow> sc_DbcPath c = []) \<and>
      ap_latch a i = Some (sc_LatchFrameIDs c)" if "ap_handlers a i = Some h" for i h
    using hs that by (fastforce simp: handlers_of_def c(3,4) latch_sets_def)
  ultimately show ?thesis
    using hs broker_Subscribe_success [OF c(6)]
    by (intro exI [of _ cfg]) (auto simp: handlers_of_def c(1,3,4,5) topics simp del: set_concat set_map)
qed

definition example_setup :: setup_env where
  "example_setup =
     \<lparr>se_cfg = example_cfg_env, se_logger = \<lparr>le_mkdir = \<lambda>_. None, le_parse_level = \<lambda>_. Inr 0\<rparr>, se_mqtt = example_mqtt (\<lambda>_. SubDone) True,
      se_rabbit = example_rabbit None, se_can = example_can_env, se_range = (\<lambda>_. [''can0''])\<rparr>"

lemma setup_follows_config_witness:
  "\<exists>a. snd (telemetry_setup example_setup (example_env JNull) (\<lambda>_. []) (\<lambda>_. []) undefined undefined
       \<lparr>tf_device = ''d'', tf_conf = ''c.yml'', tf_logPath = ''logs'', tf_dev = False\<rparr>) = Inr a \<and> dom (ap_handlers a) = {''can0''}"
proof -
  let ?fl = "\<lparr>tf_device = ''d'', tf_conf = ''c.yml'', tf_logPath = ''logs'', tf_dev = False\<rparr>"
  have ext: "to_lower (path_ext ''c.yml'') = ''.yml''" by code_simp
  define cfg where "cfg = normalize (\<lambda>_. []) example_app_cfg"
  have load: "LoadConfig (se_cfg example_setup) (tf_conf ?fl) = Inr cfg"
    by (simp add: LoadConfig_def example_setup_def example_cfg_env_def ext cfg_def)
  have can: "SocketCAN cfg = [''can0'' \<mapsto> \<lparr>sc_Type = [], sc_Bitrate = 0, sc_DbcPath = ''a.dbc'',
      sc_DbcPathLegacy = ''a.dbc'', sc_LatchFrameIDs = []\<rparr>]"
    by (auto simp: cfg_def example_app_cfg_def norm_can_def fun_eq_iff)
  have mq: "mc_UseTLS (Mosquitto cfg) = False"
    by (simp add: cfg_def example_app_cfg_def norm_mqtt_def)
  have "trim_space ''mqtt'' = ''mqtt''" by (rule trim_space_visible) (simp_all add: visible_def)
  moreover have "to_lower ''mqtt'' = ''mqtt''" by code_simp
  moreover have "Broker_Type cfg = ''mqtt''" by (simp add: cfg_def env_trim_or_def example_app_cfg_def)
  ultimately have brk: "NewBroker (se_mqtt example_setup) re dev (Broker_Type cfg) (Mosquitto cfg) rc =
      ([MOp (MConnect \<lparr>mo_ClientID = dev, mo_Broker = normalizeBrokerEndpoint (mc_Endpoint (Mosquitto cfg)) False,
          mo_Username = mc_UserName (Mosquitto cfg), mo_Password = mc_Password (Mosquitto cfg), mo_TLS = None,
          mo_AutoReconnect = True, mo_ConnectRetry = True, mo_RetryInterval_ms = 500\<rparr>)],
       Inr (MqttBroker \<lparr>mh_deviceID = dev\<rparr>))" for re dev rc
    by (simp add: NewBroker_def mqtt_New_def mq example_setup_def example_mqtt_def lift_traced_def)
  have start: "\<exists>hs. snd (start_can (se_can example_setup) (SocketCAN cfg) (se_range example_setup (SocketCAN cfg)) Map.empty) = Inr hs"
    by (simp add: can example_setup_def example_can_env_def New_def bring_up_def ParseDbcFile_def example_dbc_def)
  have sub: "snd (broker_Subscribe (se_mqtt example_setup) (se_rabbit example_setup) (MqttBroker h) ts) = Inr ()" for h ts
    by (simp add: mqtt_Subscribe_def sub_loop.simps example_setup_def example_mqtt_def)
  have range: "se_range example_setup c = [''can0'']" for c by (simp add: example_setup_def)
  have "\<exists>a. snd (telemetry_setup example_setup (example_env JNull) (\<lambda>_. []) (\<lambda>_. []) undefined undefined ?fl) = Inr a"
  proof -
    have log: "is_ok (New_logger (se_logger example_setup) (tf_logPath ?fl) logFileCount
        (if tf_dev ?fl then ''debug'' else ''info'') (tf_dev ?fl))"
      by (simp only: New_logger_ok) (simp add: example_setup_def)
    have new: "snd (NewBroker (se_mqtt example_setup) (se_rabbit example_setup) (tf_device ?fl) (Broker_Type cfg)
        (Mosquitto cfg) (RabbitMQ cfg)) = Inr (MqttBroker \<lparr>mh_deviceID = ''d''\<rparr>)" unfolding brk by simp
    obtain hs where hs: "snd (start_can (se_can example_setup) (SocketCAN cfg) (se_range example_setup (SocketCAN cfg)) Map.empty) = Inr hs"
      using start by (elim exE)
    show ?thesis by (rule telemetry_setup_ok [OF load log new hs sub])
  qed
  then obtain a where a: "snd (telemetry_setup example_setup (example_env JNull) (\<lambda>_. []) (\<lambda>_. []) undefined undefined ?fl) = Inr a"
    by blast
  have "dom (SocketCAN cfg) = {''can0''}" by (simp add: can)
  moreover have "set (se_range example_setup (SocketCAN c)) = dom (SocketCAN c)"
    if "LoadConfig (se_cfg example_setup) (tf_conf ?fl) = Inr c" for c
    using that load by (simp add: range can)
  ultimately show ?thesis using setup_follows_config [OF a] a load by auto
qed

end
