(* ===== verification/Spec2Isabelle.thy ===== *)
theory Spec2Isabelle
  imports Gamepad_Frame Telemetry_Main
begin

text \<open>
  The programs of this repository, under \<open>src/src/\<close>. \<open>cmd/telemetry\<close> runs on a vehicle: it reads
  CAN frames from SocketCAN interfaces and positions from gpsd, keeps the latest value of the
  whitelisted signals, publishes snapshots of them through a message broker, and writes the control
  commands it receives from the broker to the CAN interfaces. \<open>cmd/gamepadweb\<close> takes gamepad states
  over HTTP or a websocket and publishes them as such control commands.

  Theories, in the order of their imports:

  \<^item> \<open>Telemetry_Prelude\<close>: errors as values, the traces of the calls of a set-up function, maps built
    by assignments. \<open>Go_Strings\<close>, \<open>Go_Float\<close>, \<open>Go_Json\<close>, \<open>Go_Json_Map\<close>: what the code uses of the Go
    standard library (trimming, numerals, IEEE 754 doubles with round half to even, JSON trees with
    \<open>encoding/json\<close>'s rules for the types of the program, and the shortest decimal of a float).
  \<^item> \<open>App_Config\<close>: \<open>internal/cfg/config.go\<close>. The YAML and JSON decoders are parameters.
  \<^item> \<open>Can_Dbc\<close>: \<open>internal/canhandler/parser.go\<close>, the store of a parsed DBC file.
  \<^item> \<open>Can_Handler\<close>, \<open>Can_Codec\<close>: \<open>internal/canhandler/handler.go\<close>; \<open>New\<close>, \<open>Close\<close>, \<open>MakeFrame\<close>,
    \<open>ParseFrame\<close>, \<open>SendFrame\<close>, the body of \<open>StartListening\<close>. The CAN library is the record \<open>can_lib\<close>;
    the locales \<open>signal_codec\<close> and \<open>can_library\<close> state what the code relies on, and \<open>bits_lib\<close>, which
    reads and writes the bits of a signal, meets it.
  \<^item> \<open>Mq_Command\<close>: \<open>internal/mq/command_parser.go\<close> and \<open>topic.go\<close>.
  \<^item> \<open>Mq_Broker\<close>: \<open>internal/mq/mqtt_handler.go\<close>, \<open>rabbit_handler.go\<close>, \<open>broker.go\<close>; the locales
    \<open>publisher\<close>, \<open>confirming_publisher\<close> and \<open>subscriber\<close> are the contract of the interface \<open>Broker\<close>.
  \<^item> \<open>Gps_Handler\<close>: \<open>internal/gps/handler.go\<close>, the reconnecting loop as a transition function.
  \<^item> \<open>Dispatcher\<close>: \<open>internal/dispatcher/telemetry.go\<close>, the aggregator and its snapshot.
  \<^item> \<open>Logger_Setup\<close>: \<open>internal/logger/zap_logger.go\<close>, the configuration of the logger.
  \<^item> \<open>Telemetry_Main\<close>: \<open>cmd/telemetry/main.go\<close>; the start-up as a trace of calls, the running
    program as the step relation \<open>sys_step\<close> of its goroutines over the three channels.
  \<^item> \<open>Gamepad_State\<close>, \<open>Gamepad_Mapper\<close>, \<open>Gamepad_Config\<close>: \<open>internal/gamepad/mapper.go\<close> and
    \<open>mapping_config.go\<close>; the decoding of a state, its mapping to frames, the mapping file.
  \<^item> \<open>Gamepad_Web\<close>: \<open>cmd/gamepadweb/main.go\<close>; the options, the origin check, both handlers.
  \<^item> \<open>Gamepad_Frame\<close> and this theory: both programs together, on the message \<open>GamepadMsg\<close> of
    \<open>config/gamepad_all_inputs.dbc\<close>.

  State and operations. A Go struct is a record with its fields; a map is an association list
  without duplicate keys where it is written out, a function to \<open>option\<close> where it is only looked
  up. An operation that changes its receiver returns the new one. Integers that the code narrows
  are words of their width; a \<open>float64\<close> is the type \<open>f64\<close> with NaN, the infinities and signed zeros. An
  error is \<open>Inl\<close>. Time is a type parameter.

  What the lemmas show. A loaded configuration is complete; the DBC store has the last definition of
  each identifier; a frame built from a command decodes to the command; a command payload is accepted
  exactly under the four conditions the code states, and the order of Go's map iteration does not
  matter; the brokers meet the contract of their interface; the subscribe loop ends; the GPS loop
  sends every fix once and ends after a cancellation; the aggregator refines the last value of each
  signal and its snapshots can be read back; stick bytes and driven values stay in range; every
  state the running program reaches keeps its channels bounded and in order, carries on its buses
  only what commands asked for, and after an interrupt can end cleanly; and a gamepad state arrives
  at the bus as the numbers it stands for.

  Bounds. The channels hold 100 positions, 200 received messages and 100 commands
  (\<open>gpsRx_cap\<close>, \<open>canRx_cap\<close>, \<open>canTx_cap\<close>). The subscribe loop has five seconds, counted in
  milliseconds with at least 100 for each further round, which is the measure of its termination.
  There is no fuel.

  Not modelled. What is logged: \<open>Logger_Setup\<close> has the configuration only. The text syntax of JSON, YAML and DBC, the formats of times, \<open>url.Parse\<close>, and the libraries for
  MQTT, AMQP, SocketCAN, gpsd and HTTP are parameters. \<open>strings.EqualFold\<close> folds ASCII letters
  and the two other code points that fold to one of them, no further ones. \<open>internal/mq/message.go\<close>
  declares a struct that nothing uses. The memory model of Go is not modelled: a goroutine's work
  between two waits is one step, and the aggregator and the maps of \<open>main\<close> each have one writer.
\<close>

section \<open>From the gamepad to the bus\<close>

text \<open>A command that finds the TX worker waiting is put on the bus of the interface it names.\<close>

lemma transmitted:
  assumes "sys_reach a s" "\<not> sy_exited s" "sy_tx s = Running" "sy_canTx s = []"
    and "callback_body a now payload = Some msg" "ap_handlers a (dm_BusID msg) = Some h"
    and "MakeFrame (ap_lib a) (ap_pl a) h msg = Inr f"
  obtains s' where "sys_reach a s'" "sy_bus s' = sy_bus s @ [(dm_BusID msg, f)]" "sy_canTx s' = []"
proof -
  let ?s = "s\<lparr>sy_canTx := sy_canTx s @ [msg], sy_txLog := sy_txLog s @ [msg]\<rparr>"
  let ?t = "?s\<lparr>sy_canTx := [], sy_bus := sy_bus ?s @ transmit_body a (\<lambda>_. None) msg,
    sy_txSeen := sy_txSeen ?s @ [msg]\<rparr>"
  have "sys_step a s ?s" by (rule command [OF assms(5)]) (simp add: assms(4) canTx_cap_def)
  then have r: "sys_reach a ?s" using assms(1,2) by (blast intro: sys_reach.step)
  have "sys_step a ?s ?t" by (rule transmit) (simp_all add: assms(3,4))
  then have "sys_reach a ?t" using r assms(2) by (auto intro: sys_reach.step)
  moreover have "transmit_body a (\<lambda>_. None) msg = [(dm_BusID msg, f)]"
    by (simp add: transmit_body_def SendFrame_def assms(6,7))
  ultimately show thesis using that [of ?t] by simp
qed

section \<open>Properties\<close>

text \<open>
  C1 A gamepad state reaches the CAN bus unchanged, through both programs. A state that the web
  program decodes and publishes without an error, under a bus id and a gamepad frame id that name
  an interface of the telemetry program and the message \<open>GamepadMsg\<close> of its signal database, is
  accepted by the callback of the subscription and put on that interface's bus as one more frame,
  when the TX worker waits for a command; whoever reads the frame with the same database finds the
  four sticks as bytes and the sixteen buttons as bits, the numbers the state stands for. The
  hypotheses on the CAN library are its round trip on one signal, its independence of signals with
  other bits, and that scale 1 keeps an integer of a signal's range.
\<close>

theorem gamepad_state_reaches_bus:
  assumes lib: "can_library (ap_lib a) phys fits apart"
    and layout: "layout_ok fits apart (m_Signals gamepad_msg)"
    and ints: "\<forall>sd\<in>set (m_Signals gamepad_msg). integer_signal (ap_lib a) phys sd"
    and switch: "\<And>sw. MultiplexerSignal (ap_lib a) gamepad_msg = Some sw \<Longrightarrow> sw \<in> set (m_Signals gamepad_msg)"
    and web: "we_json_read env body = Inr j0" "decode_state j0 = Inr st" "mapper srv = NewMapper"
      "snd (publishState env srv n st) = Inr published" "trim_space (srv_busID srv) \<noteq> []"
      "parseFrameID (GamepadMsgFrameID (mapOpts srv)) = Inr w"
    and reads: "\<And>j. WebPublish (srv_topic srv) j \<in> set (fst (handleAPI env srv n ''POST'' body)) \<Longrightarrow>
      json_read (ap_cmd a) (written j) = Inr j"
    and order: "\<And>kvs. mset (range_order (ap_cmd a) kvs) = mset kvs"
    and h: "ap_handlers a (srv_busID srv) = Some h" "h_sigDB h = Some db" "Msgs db w = Some gamepad_msg"
    and s: "sys_reach a s" "\<not> sy_exited s" "sy_tx s = Running" "sy_canTx s = []"
  shows "\<exists>j msg f s'. WebPublish (srv_topic srv) j \<in> set (fst (handleAPI env srv n ''POST'' body)) \<and>
    callback_body a now (written j) = Some msg \<and>
    sys_reach a s' \<and> sy_bus s' = sy_bus s @ [(srv_busID srv, f)] \<and>
    MakeFrame (ap_lib a) (ap_pl a) h msg = Inr f \<and>
    map (\<lambda>sg. (sig_Name sg, sig_Value sg)) (ParseFrame (ap_lib a) (ap_pl a) h f) = gamepad_readings st"
proof -
  let ?cmd = "(ap_cmd a)\<lparr>time_now := now\<rparr>"
  have env: "json_read ?cmd (written j) = Inr j"
    if "WebPublish (srv_topic srv) j \<in> set (fst (handleAPI env srv n ''POST'' body))" for j
    using reads [OF that] by simp
  have perm: "mset (range_order ?cmd kvs) = mset kvs" for kvs using order by simp
  from gamepad_state_command [OF lib layout ints switch web env perm h(2,3)] obtain j msg f where
    j: "WebPublish (srv_topic srv) j \<in> set (fst (handleAPI env srv n ''POST'' body))"
    and msg: "ParseControlCommand ?cmd (written j) = Inr msg" "dm_BusID msg = srv_busID srv"
    and f: "MakeFrame (ap_lib a) (ap_pl a) h msg = Inr f"
      "map (\<lambda>sg. (sig_Name sg, sig_Value sg)) (ParseFrame (ap_lib a) (ap_pl a) h f) = gamepad_readings st"
    by blast
  have cb: "callback_body a now (written j) = Some msg" using msg(1) by (simp add: callback_body_def)
  from transmitted [OF s cb _ f(1)] h(1) msg(2) obtain s' where
    "sys_reach a s'" "sy_bus s' = sy_bus s @ [(srv_busID srv, f)]" by auto
  with j cb f show ?thesis by blast
qed

text \<open>A program whose one interface knows the gamepad message, its workers started.\<close>

definition gamepad_app :: "nat app" where
  "gamepad_app =
     example_app\<lparr>ap_lib := bits_lib, ap_pl := saturating, ap_cmd := gamepad_receiver pressed_state,
       ap_handlers := [''can0'' \<mapsto> example_handler gamepad_msg]\<rparr>"

lemma gamepad_state_reaches_bus_witness:
  "\<exists>s f. sys_reach gamepad_app s \<and> sy_bus s = [(''can0'', f)] \<and>
     map (\<lambda>sg. (sig_Name sg, sig_Value sg)) (ParseFrame bits_lib saturating (example_handler gamepad_msg) f) =
       gamepad_readings pressed_state"
proof -
  let ?env = "(example_web_env (\<lambda>_. None))\<lparr>we_json_read := \<lambda>_. Inr pressed_json\<rparr>"
  let ?db = "\<lparr>Version = [], Msgs = [m_ID gamepad_msg \<mapsto> gamepad_msg]\<rparr>"
  let ?s = "(sys_init gamepad_app)\<lparr>sy_tx := Running\<rparr>"
  have ints: "\<forall>sd\<in>set (m_Signals gamepad_msg). integer_signal bits_lib bits_phys sd"
    by (auto simp: gamepad_msg_def stick_signal_def button_signal_def gamepad_signal_def
        intro!: bits_integer_signal)
  have sw: "MultiplexerSignal bits_lib gamepad_msg = Some sw \<Longrightarrow> sw \<in> set (m_Signals gamepad_msg)" for sw
    by (auto simp: bits_lib_def find_Some_iff)
  have app: "ap_lib gamepad_app = bits_lib" "ap_pl gamepad_app = saturating"
    "ap_cmd gamepad_app = gamepad_receiver pressed_state"
    "ap_handlers gamepad_app (srv_busID gamepad_server) = Some (example_handler gamepad_msg)"
    by (simp_all add: gamepad_app_def gamepad_example(4))
  have read: "we_json_read ?env [] = Inr pressed_json" by simp
  have env: "publishState ?env gamepad_server 0 pressed_state =
      publishState (example_web_env (\<lambda>_. None)) gamepad_server 0 pressed_state"
    by (rule publishState_reader)
  have s: "snd (publishState ?env gamepad_server 0 pressed_state) = Inr [gamepad_payload pressed_state]"
    unfolding env by (simp add: gamepad_example_published [OF pressed_ok])
  have f: "parseFrameID (GamepadMsgFrameID (mapOpts gamepad_server)) = Inr 528"
    by (simp add: gamepad_server_def example_server_def no_options_def example_frame_id)
  have t: "json_read (gamepad_receiver pressed_state) ((\<lambda>_. []) j) = Inr j"
    if "WebPublish (srv_topic gamepad_server) j \<in> set (fst (handleAPI ?env gamepad_server 0 ''POST'' []))" for j
    using that by (simp add: handleAPI_def pressed_decoded env gamepad_example_published [OF pressed_ok] gamepad_example(8))
  have h: "h_sigDB (example_handler gamepad_msg) = Some ?db" "Msgs ?db 528 = Some gamepad_msg"
    by (simp_all add: example_handler_def gamepad_msg_def)
  have "sys_step gamepad_app (sys_init gamepad_app) ?s" by (rule start_tx) (simp add: sys_init_def)
  then have r: "sys_reach gamepad_app ?s"
    by (rule sys_reach.step [OF sys_reach.init, rotated]) (simp add: sys_init_def)
  have i: "\<not> sy_exited ?s" "sy_tx ?s = Running" "sy_canTx ?s = []" "sy_bus ?s = []"
    by (simp_all add: sys_init_def)
  from gamepad_state_reaches_bus [where a = gamepad_app and now = 0, unfolded app, OF bits.can_library_axioms gamepad_layout_bits
      ints sw read pressed_decoded gamepad_example(1) s gamepad_example(2) f t gamepad_example(7) app(4) h r i(1-3)]
  show ?thesis unfolding i(4) gamepad_example(4) append_Nil by blast
qed

end
